(* ===== verification/Prelude.thy ===== *)
theory Prelude
  imports Complex_Main "HOL-Library.Word"
begin

text \<open>
  Shared vocabulary of the development: machine word types, the index arithmetic of the two
  ring buffers of the program, the interface of a bounded first-in first-out queue, and a few
  list lemmas.
\<close>

unbundle bit_operations_syntax

type_synonym u8 = "8 word"
type_synonym u16 = "16 word"
type_synonym u32 = "32 word"

named_theorems wf_intros "introduction rules for the well-formedness invariants"
named_theorems ring_simps "index arithmetic of the ring buffers"

section \<open>Ring index arithmetic\<close>

lemma unat_and_mask: "unat (x AND mask n) = unat x mod 2 ^ n" for x :: "'a::len word"
  by (simp add: take_bit_eq_mask [symmetric] unsigned_take_bit_eq take_bit_nat_def)

lemma unat_Suc_and_mask:
  fixes x :: "'a::len word"
  assumes "n \<le> LENGTH('a)"
  shows "unat ((x + 1) AND mask n) = Suc (unat x) mod 2 ^ n"
proof -
  have "(2::nat) ^ n dvd 2 ^ LENGTH('a)" using assms by (rule le_imp_power_dvd)
  then show ?thesis
    by (simp only: unat_and_mask unat_word_ariths) (simp add: mod_mod_cancel)
qed

definition ring_dist :: "nat \<Rightarrow> nat \<Rightarrow> nat \<Rightarrow> nat" where
  "ring_dist n h t = (h + n - t) mod n"

definition ring_contents :: "nat \<Rightarrow> 'a list \<Rightarrow> nat \<Rightarrow> nat \<Rightarrow> 'a list" where
  "ring_contents n buf t k = map (\<lambda>i. buf ! ((t + i) mod n)) [0..<k]"

lemma length_ring_contents [simp]: "length (ring_contents n buf t k) = k"
  by (simp add: ring_contents_def)

lemma ring_contents_0 [simp]: "ring_contents n buf t 0 = []"
  by (simp add: ring_contents_def)

lemma ring_contents_Suc:
  "ring_contents n buf t (Suc k) = ring_contents n buf t k @ [buf ! ((t + k) mod n)]"
  by (simp add: ring_contents_def)

lemma ring_contents_pop:
  assumes "t < n"
  shows "ring_contents n buf t (Suc k) = buf ! t # ring_contents n buf (Suc t mod n) k"
proof -
  have "[0..<Suc k] = 0 # map Suc [0..<k]" by (simp add: map_Suc_upt upt_conv_Cons)
  then show ?thesis using assms
    by (simp add: ring_contents_def del: upt_Suc) (simp add: mod_simps)
qed

lemma mod_add_inj: "(a::nat) < k \<Longrightarrow> k < n \<Longrightarrow> (t + a) mod n \<noteq> (t + k) mod n"
proof
  assume lt: "a < k" "k < n" and "(t + a) mod n = (t + k) mod n"
  then have "n dvd (t + k) - (t + a)" by (metis mod_eq_dvd_iff_nat add_le_mono1 add.commute less_imp_le_nat)
  with lt show False by (auto dest!: dvd_imp_le)
qed

lemma ring_contents_update:
  assumes "k < n"
  shows "ring_contents n (buf[(t + k) mod n := v]) t k = ring_contents n buf t k"
  using assms mod_add_inj [of _ k n t, THEN not_sym] by (auto simp: ring_contents_def)

lemma ring_contents_push:
  assumes "length buf = n" "k < n"
  shows "ring_contents n (buf[(t + k) mod n := v]) t (Suc k) = ring_contents n buf t k @ [v]"
  using assms by (simp add: ring_contents_Suc ring_contents_update)

section \<open>The contract of a bounded queue\<close>

datatype 'a queue_op = Put 'a | Get

fun queue_run :: "('q \<Rightarrow> 'a \<Rightarrow> 'q option) \<Rightarrow> ('q \<Rightarrow> ('a \<times> 'q) option) \<Rightarrow> 'q \<Rightarrow> 'a queue_op list
    \<Rightarrow> 'a list \<times> 'a list \<times> 'q" where
  "queue_run put get q [] = ([], [], q)"
| "queue_run put get q (Put x # ops) =
     (case put q x of
        None \<Rightarrow> queue_run put get q ops
      | Some q' \<Rightarrow> (case queue_run put get q' ops of (acc, out, q'') \<Rightarrow> (x # acc, out, q'')))"
| "queue_run put get q (Get # ops) =
     (case get q of
        None \<Rightarrow> queue_run put get q ops
      | Some (x, q') \<Rightarrow> (case queue_run put get q' ops of (acc, out, q'') \<Rightarrow> (acc, x # out, q'')))"

locale bounded_fifo =
  fixes inv :: "'q \<Rightarrow> bool"
    and cap :: nat
    and contents :: "'q \<Rightarrow> 'a list"
    and put :: "'q \<Rightarrow> 'a \<Rightarrow> 'q option"
    and get :: "'q \<Rightarrow> ('a \<times> 'q) option"
  assumes put_None: "inv q \<Longrightarrow> put q x = None \<longleftrightarrow> length (contents q) = cap"
    and put_Some: "inv q \<Longrightarrow> put q x = Some q' \<Longrightarrow> inv q' \<and> contents q' = contents q @ [x]"
    and get_None: "inv q \<Longrightarrow> get q = None \<longleftrightarrow> contents q = []"
    and get_Some: "inv q \<Longrightarrow> get q = Some (x, q') \<Longrightarrow> inv q' \<and> contents q = x # contents q'"
    and bounded: "inv q \<Longrightarrow> length (contents q) \<le> cap"
begin

lemma run_fifo:
  "inv q \<Longrightarrow> queue_run put get q ops = (acc, out, q') \<Longrightarrow>
     inv q' \<and> contents q @ acc = out @ contents q'"
proof (induction ops arbitrary: q acc out q')
  case Nil
  then show ?case by simp
next
  case (Cons op ops)
  show ?case
  proof (cases op)
    case (Put x)
    with Cons show ?thesis
      by (fastforce split: option.splits prod.splits dest: put_Some)
  next
    case Get
    with Cons show ?thesis
      by (fastforce split: option.splits prod.splits dest: get_Some)
  qed
qed

lemma put_then_get:
  assumes "inv q" "put q x = Some q'" "contents q = []"
  shows "\<exists>q''. get q' = Some (x, q'') \<and> contents q'' = []"
proof -
  from assms have q': "inv q'" "contents q' = [x]" using put_Some by auto
  then obtain y q'' where "get q' = Some (y, q'')" using get_None [of q'] by (cases "get q'") auto
  with q' get_Some show ?thesis by fastforce
qed

lemma overwrite_oldest:
  assumes "inv q" "put q x = None" "0 < cap"
  shows "\<exists>y q1 q2. get q = Some (y, q1) \<and> put q1 x = Some q2 \<and> inv q2
           \<and> contents q2 = tl (contents q) @ [x]"
proof -
  have len: "length (contents q) = cap" using assms put_None by blast
  then have "contents q \<noteq> []" using assms(3) by auto
  then obtain y q1 where g: "get q = Some (y, q1)" using assms(1) get_None by (cases "get q") auto
  with assms(1) have q1: "inv q1" "contents q = y # contents q1" using get_Some by blast+
  with len have "length (contents q1) \<noteq> cap" by simp
  then obtain q2 where p: "put q1 x = Some q2" using put_None [OF q1(1), of x] by (cases "put q1 x") auto
  with q1 g show ?thesis using put_Some [OF q1(1) p] by auto
qed

end



end
