(* ===== verification/Mask_Queue.thy ===== *)
theory Mask_Queue
  imports Prelude
begin

text \<open>
  The queue of masks between the green mask thread and the centre of mass thread:
  \<open>green_mask_queue\<close> with its front, rear and count (green_mask.c:300-314,
  com_calculator.c:58-65), and the two threads around it with their mutex and their two condition
  variables, including spurious wake-ups.
\<close>


definition GREEN_MASK_QUEUE_SIZE :: nat where
  "GREEN_MASK_QUEUE_SIZE = 5"

record 'm mask_queue =
  slots :: "'m list"
  front :: nat
  rear :: nat
  count :: nat

definition mask_put :: "'m mask_queue \<Rightarrow> 'm \<Rightarrow> 'm mask_queue option" where
  "mask_put q m =
     (if count q = GREEN_MASK_QUEUE_SIZE then None
      else Some (q\<lparr>slots := (slots q)[rear q := m],
                   rear := (rear q + 1) mod GREEN_MASK_QUEUE_SIZE,
                   count := count q + 1\<rparr>))"

definition mask_get :: "'m mask_queue \<Rightarrow> ('m \<times> 'm mask_queue) option" where
  "mask_get q =
     (if count q = 0 then None
      else Some (slots q ! front q,
                 q\<lparr>front := (front q + 1) mod GREEN_MASK_QUEUE_SIZE, count := count q - 1\<rparr>))"

definition mask_queue_wf :: "'m mask_queue \<Rightarrow> bool" where
  "mask_queue_wf q \<longleftrightarrow>
     length (slots q) = GREEN_MASK_QUEUE_SIZE \<and> front q < GREEN_MASK_QUEUE_SIZE
     \<and> count q \<le> GREEN_MASK_QUEUE_SIZE
     \<and> rear q = (front q + count q) mod GREEN_MASK_QUEUE_SIZE"

definition mask_contents :: "'m mask_queue \<Rightarrow> 'm list" where
  "mask_contents q = ring_contents GREEN_MASK_QUEUE_SIZE (slots q) (front q) (count q)"

lemma queue_size_pos [simp]: "0 < GREEN_MASK_QUEUE_SIZE"
  by (simp add: GREEN_MASK_QUEUE_SIZE_def)

lemma length_mask_contents [simp]: "length (mask_contents q) = count q"
  by (simp add: mask_contents_def)

interpretation mq: bounded_fifo mask_queue_wf GREEN_MASK_QUEUE_SIZE mask_contents mask_put mask_get
proof
  fix q :: "'m mask_queue" and m
  assume wf: "mask_queue_wf q"
  show "mask_put q m = None \<longleftrightarrow> length (mask_contents q) = GREEN_MASK_QUEUE_SIZE"
    by (simp add: mask_put_def)
  show "mask_queue_wf q' \<and> mask_contents q' = mask_contents q @ [m]" if "mask_put q m = Some q'" for q'
    using that wf ring_contents_push [of "slots q" GREEN_MASK_QUEUE_SIZE "count q" "front q" m]
    by (auto simp: mask_put_def mask_queue_wf_def mask_contents_def mod_simps split: if_splits)
  show "mask_get q = None \<longleftrightarrow> mask_contents q = []"
    by (simp add: mask_get_def mask_contents_def ring_contents_def)
  show "mask_queue_wf q' \<and> mask_contents q = x # mask_contents q'" if get: "mask_get q = Some (x, q')" for x q'
  proof -
    obtain k where k: "count q = Suc k" using get by (cases "count q") (auto simp: mask_get_def)
    then show ?thesis
      using get wf ring_contents_pop [of "front q" GREEN_MASK_QUEUE_SIZE "slots q" k]
      by (auto simp: mask_get_def mask_queue_wf_def mask_contents_def mod_simps)
  qed
  show "length (mask_contents q) \<le> GREEN_MASK_QUEUE_SIZE"
    using wf by (simp add: mask_queue_wf_def)
qed

section \<open>The mutex and the two condition variables\<close>

datatype thread = Green_Mask | Com_Calculator

datatype 'm producer_pc =
    P_Work
  | P_Want 'm
  | P_Hold 'm
  | P_Sleep 'm

datatype 'm consumer_pc =
    C_Want
  | C_Hold
  | C_Sleep
  | C_Work 'm

record 'm pipeline =
  mqueue :: "'m mask_queue"
  owner :: "thread option"
  producer :: "'m producer_pc"
  consumer :: "'m consumer_pc"
  sent :: "'m list"
  received :: "'m list"

fun signal_not_empty :: "'m consumer_pc \<Rightarrow> 'm consumer_pc" where
  "signal_not_empty C_Sleep = C_Want"
| "signal_not_empty c = c"

fun signal_not_full :: "'m producer_pc \<Rightarrow> 'm producer_pc" where
  "signal_not_full (P_Sleep m) = P_Want m"
| "signal_not_full p = p"

inductive green_mask_step :: "'m pipeline \<Rightarrow> 'm pipeline \<Rightarrow> bool" where
  p_frame: "producer s = P_Work \<Longrightarrow> green_mask_step s (s\<lparr>producer := P_Want m\<rparr>)"
| p_lock: "producer s = P_Want m \<Longrightarrow> owner s = None \<Longrightarrow>
     green_mask_step s (s\<lparr>owner := Some Green_Mask, producer := P_Hold m\<rparr>)"
| p_wait: "producer s = P_Hold m \<Longrightarrow> mask_put (mqueue s) m = None \<Longrightarrow>
     green_mask_step s (s\<lparr>owner := None, producer := P_Sleep m\<rparr>)"
| p_put: "producer s = P_Hold m \<Longrightarrow> mask_put (mqueue s) m = Some q \<Longrightarrow>
     green_mask_step s (s\<lparr>mqueue := q, owner := None, producer := P_Work,
                  consumer := signal_not_empty (consumer s), sent := sent s @ [m]\<rparr>)"

inductive com_calculator_step :: "'m pipeline \<Rightarrow> 'm pipeline \<Rightarrow> bool" where
  c_lock: "consumer s = C_Want \<Longrightarrow> owner s = None \<Longrightarrow>
     com_calculator_step s (s\<lparr>owner := Some Com_Calculator, consumer := C_Hold\<rparr>)"
| c_wait: "consumer s = C_Hold \<Longrightarrow> mask_get (mqueue s) = None \<Longrightarrow>
     com_calculator_step s (s\<lparr>owner := None, consumer := C_Sleep\<rparr>)"
| c_get: "consumer s = C_Hold \<Longrightarrow> mask_get (mqueue s) = Some (m, q) \<Longrightarrow>
     com_calculator_step s (s\<lparr>mqueue := q, owner := None, producer := signal_not_full (producer s),
                  consumer := C_Work m, received := received s @ [m]\<rparr>)"
| c_done: "consumer s = C_Work m \<Longrightarrow> com_calculator_step s (s\<lparr>consumer := C_Want\<rparr>)"

inductive mq_step :: "'m pipeline \<Rightarrow> 'm pipeline \<Rightarrow> bool" where
  green_mask: "green_mask_step s t \<Longrightarrow> mq_step s t"
| com_calculator: "com_calculator_step s t \<Longrightarrow> mq_step s t"

inductive spurious_wakeup :: "'m pipeline \<Rightarrow> 'm pipeline \<Rightarrow> bool" where
  p_spurious: "producer s = P_Sleep m \<Longrightarrow> spurious_wakeup s (s\<lparr>producer := P_Want m\<rparr>)"
| c_spurious: "consumer s = C_Sleep \<Longrightarrow> spurious_wakeup s (s\<lparr>consumer := C_Want\<rparr>)"

definition start_pipeline :: "'m list \<Rightarrow> 'm pipeline" where
  "start_pipeline init =
     \<lparr>mqueue = \<lparr>slots = init, front = 0, rear = 0, count = 0\<rparr>, owner = None,
      producer = P_Work, consumer = C_Want, sent = [], received = []\<rparr>"

inductive mq_reachable :: "'m list \<Rightarrow> 'm pipeline \<Rightarrow> bool" for init where
  mq_start: "mq_reachable init (start_pipeline init)"
| mq_run: "mq_reachable init s \<Longrightarrow> mq_step s t \<Longrightarrow> mq_reachable init t"
| mq_wake: "mq_reachable init s \<Longrightarrow> spurious_wakeup s t \<Longrightarrow> mq_reachable init t"

fun p_holds :: "'m producer_pc \<Rightarrow> bool" where
  "p_holds (P_Hold m) = True"
| "p_holds p = False"

fun p_sleeps :: "'m producer_pc \<Rightarrow> bool" where
  "p_sleeps (P_Sleep m) = True"
| "p_sleeps p = False"

definition mq_inv :: "'m pipeline \<Rightarrow> bool" where
  "mq_inv s \<longleftrightarrow>
     mask_queue_wf (mqueue s)
     \<and> sent s = received s @ mask_contents (mqueue s)
     \<and> (p_holds (producer s) \<longleftrightarrow> owner s = Some Green_Mask)
     \<and> (consumer s = C_Hold \<longleftrightarrow> owner s = Some Com_Calculator)
     \<and> (p_sleeps (producer s) \<longrightarrow> count (mqueue s) = GREEN_MASK_QUEUE_SIZE)
     \<and> (consumer s = C_Sleep \<longrightarrow> count (mqueue s) = 0)"

lemma p_holds_signal [simp]: "p_holds (signal_not_full p) = p_holds p"
  by (cases p) auto

lemma p_sleeps_signal [simp]: "\<not> p_sleeps (signal_not_full p)"
  by (cases p) auto

lemma c_hold_signal [simp]: "signal_not_empty c = C_Hold \<longleftrightarrow> c = C_Hold"
  by (cases c) auto

lemma c_sleep_signal [simp]: "signal_not_empty c \<noteq> C_Sleep"
  by (cases c) auto

lemma mq_inv_start: "length init = GREEN_MASK_QUEUE_SIZE \<Longrightarrow> mq_inv (start_pipeline init)"
  by (simp add: mq_inv_def start_pipeline_def mask_queue_wf_def mask_contents_def)

lemma green_mask_inv: "green_mask_step s t \<Longrightarrow> mq_inv s \<Longrightarrow> mq_inv t"
proof (induction rule: green_mask_step.induct)
  case (p_wait s m)
  then show ?case by (auto simp: mq_inv_def mask_put_def split: if_splits)
next
  case (p_put s m q)
  then show ?case using mq.put_Some [of "mqueue s" m q] by (auto simp: mq_inv_def)
qed (auto simp: mq_inv_def)

lemma com_calculator_inv: "com_calculator_step s t \<Longrightarrow> mq_inv s \<Longrightarrow> mq_inv t"
proof (induction rule: com_calculator_step.induct)
  case (c_wait s)
  then show ?case by (auto simp: mq_inv_def mask_get_def split: if_splits)
next
  case (c_get s m q)
  then show ?case using mq.get_Some [of "mqueue s" m q] by (auto simp: mq_inv_def)
qed (auto simp: mq_inv_def)

lemma mq_step_inv: "mq_step s t \<Longrightarrow> mq_inv s \<Longrightarrow> mq_inv t"
  by (auto elim: mq_step.cases intro: green_mask_inv com_calculator_inv)

lemma spurious_inv: "spurious_wakeup s t \<Longrightarrow> mq_inv s \<Longrightarrow> mq_inv t"
  by (induction rule: spurious_wakeup.induct) (auto simp: mq_inv_def)

lemma mq_reachable_inv:
  "mq_reachable init s \<Longrightarrow> length init = GREEN_MASK_QUEUE_SIZE \<Longrightarrow> mq_inv s"
  by (induction rule: mq_reachable.induct) (auto intro: mq_inv_start mq_step_inv spurious_inv)

lemma mq_progress: "mq_inv s \<Longrightarrow> \<exists>t. mq_step s t"
proof -
  assume inv: "mq_inv s"
  show ?thesis
  proof (cases "owner s")
    case None
    have "\<not> (p_sleeps (producer s) \<and> consumer s = C_Sleep)"
      using inv by (auto simp: mq_inv_def GREEN_MASK_QUEUE_SIZE_def)
    with None inv show ?thesis
      by (cases "producer s"; cases "consumer s") (auto simp: mq_inv_def intro: mq_step.intros green_mask_step.intros com_calculator_step.intros)
  next
    case (Some t)
    show ?thesis
    proof (cases t)
      case Green_Mask
      then obtain m where p: "producer s = P_Hold m"
        using Some inv by (cases "producer s") (auto simp: mq_inv_def)
      show ?thesis by (cases "mask_put (mqueue s) m") (blast intro: green_mask p_wait [OF p] p_put [OF p])+
    next
      case Com_Calculator
      then have c: "consumer s = C_Hold" using Some inv by (simp add: mq_inv_def)
      show ?thesis
        by (cases "mask_get (mqueue s)") (auto intro: com_calculator c_wait [OF c] c_get [OF c])
    qed
  qed
qed

section \<open>Properties\<close>

text \<open>
  C10: in every reachable state of the two threads, the masks handed over so far followed by the queued
  masks are exactly the masks produced, in order; the queue holds at most five; and the two threads
  are never inside the critical section together.
\<close>

theorem mask_pipeline_fifo:
  assumes "mq_reachable init s" "length init = GREEN_MASK_QUEUE_SIZE"
  shows "sent s = received s @ mask_contents (mqueue s)
     \<and> length (mask_contents (mqueue s)) \<le> GREEN_MASK_QUEUE_SIZE
     \<and> \<not> (p_holds (producer s) \<and> consumer s = C_Hold)"
  using mq_reachable_inv [OF assms] mq.bounded [of "mqueue s"] by (auto simp: mq_inv_def)

theorem mask_pipeline_fifo_witness:
  "\<exists>s. mq_reachable [0, 0, 0, 0, 0 :: nat] s \<and> producer s = P_Want 3
     \<and> sent s = received s @ mask_contents (mqueue s)"
proof -
  let ?s = "start_pipeline [0, 0, 0, 0, 0 :: nat]\<lparr>producer := P_Want 3\<rparr>"
  have r: "mq_reachable [0, 0, 0, 0, 0 :: nat] ?s"
    by (rule mq_run [OF mq_start green_mask [OF p_frame]]) (simp add: start_pipeline_def)
  have l: "length [0, 0, 0, 0, 0 :: nat] = GREEN_MASK_QUEUE_SIZE" by (simp add: GREEN_MASK_QUEUE_SIZE_def)
  from mask_pipeline_fifo [OF r l] r show ?thesis by (intro exI [of _ ?s]) simp
qed

text \<open>
  C9: no wake-up is lost and the threads never deadlock: the producer sleeps only while the queue is
  full, the consumer only while it is empty, so they never sleep together, and in every reachable
  state one of the two threads has a step.
\<close>

theorem mask_pipeline_progress:
  assumes "mq_reachable init s" "length init = GREEN_MASK_QUEUE_SIZE"
  shows "(p_sleeps (producer s) \<longrightarrow> count (mqueue s) = GREEN_MASK_QUEUE_SIZE)
     \<and> (consumer s = C_Sleep \<longrightarrow> count (mqueue s) = 0)
     \<and> \<not> (p_sleeps (producer s) \<and> consumer s = C_Sleep)
     \<and> (\<exists>t. mq_step s t)"
proof -
  have inv: "mq_inv s" by (rule mq_reachable_inv [OF assms])
  then show ?thesis using mq_progress [OF inv] by (auto simp: mq_inv_def GREEN_MASK_QUEUE_SIZE_def)
qed

theorem mask_pipeline_progress_witness:
  "\<exists>s :: nat pipeline. consumer s = C_Sleep \<and> (\<exists>t. mq_step s t) \<and> \<not> p_sleeps (producer s)"
proof -
  let ?i = "[0, 0, 0, 0, 0 :: nat]"
  let ?h = "(start_pipeline ?i)\<lparr>owner := Some Com_Calculator, consumer := C_Hold\<rparr>"
  let ?s = "?h\<lparr>owner := None, consumer := C_Sleep\<rparr>"
  have "mq_reachable ?i ?h" by (rule mq_run [OF mq_start com_calculator [OF c_lock]]) (simp_all add: start_pipeline_def)
  then have r: "mq_reachable ?i ?s"
    by (rule mq_run [OF _ com_calculator [OF c_wait]]) (simp_all add: start_pipeline_def mask_get_def)
  have l: "length ?i = GREEN_MASK_QUEUE_SIZE" by (simp add: GREEN_MASK_QUEUE_SIZE_def)
  from mask_pipeline_progress [OF r l] show ?thesis by (intro exI [of _ ?s]) simp
qed

end
