(* ===== verification/Spsc_Queue.thy ===== *)
theory Spsc_Queue
  imports Prelude
begin

text \<open>
  \<open>Image_Processor/include/spsc_queue.h\<close>: the ring buffer between the centre of mass thread and
  the control thread, as sequential operations. \<open>atomic_size_t\<close> is 32 bits wide on the DE10 target
  that \<open>config.mk\<close> selects; the index arithmetic wraps and is masked as in the code. The locale
  \<open>bounded_fifo\<close> of the prelude is interpreted on the two operations.
\<close>


record COM =
  com_x :: rat
  com_y :: rat

definition COM_QUEUE_SIZE :: u32 where
  "COM_QUEUE_SIZE = 256"

record SPSCQueue =
  buffer :: "COM list"
  head :: u32
  tail :: u32

definition spsc_init :: "SPSCQueue \<Rightarrow> SPSCQueue" where
  "spsc_init q = q\<lparr>head := 0, tail := 0\<rparr>"

definition spsc_next :: "u32 \<Rightarrow> u32" where
  "spsc_next i = (i + 1) AND (COM_QUEUE_SIZE - 1)"

definition spsc_enqueue :: "SPSCQueue \<Rightarrow> COM \<Rightarrow> SPSCQueue \<times> bool" where
  "spsc_enqueue q value =
     (let h = head q; t = tail q; next_head = spsc_next h
      in if next_head = t then (q, False)
         else (q\<lparr>buffer := (buffer q)[unat h := value], head := next_head\<rparr>, True))"

definition spsc_dequeue :: "SPSCQueue \<Rightarrow> COM \<Rightarrow> SPSCQueue \<times> COM \<times> bool" where
  "spsc_dequeue q value =
     (let t = tail q; h = head q
      in if h = t then (q, value, False)
         else (q\<lparr>tail := spsc_next t\<rparr>, buffer q ! unat t, True))"

lemma unat_spsc_next [ring_simps]: "unat (spsc_next i) = Suc (unat i) mod 256"
proof -
  have "COM_QUEUE_SIZE - 1 = mask 8" by (simp add: COM_QUEUE_SIZE_def mask_eq_exp_minus_1)
  then show ?thesis using unat_Suc_and_mask [of 8 i] by (simp add: spsc_next_def)
qed

definition spsc_wf :: "SPSCQueue \<Rightarrow> bool" where
  "spsc_wf q \<longleftrightarrow> length (buffer q) = 256 \<and> unat (head q) < 256 \<and> unat (tail q) < 256"

definition spsc_count :: "SPSCQueue \<Rightarrow> nat" where
  "spsc_count q = ring_dist 256 (unat (head q)) (unat (tail q))"

definition spsc_contents :: "SPSCQueue \<Rightarrow> COM list" where
  "spsc_contents q = ring_contents 256 (buffer q) (unat (tail q)) (spsc_count q)"

definition spsc_put :: "SPSCQueue \<Rightarrow> COM \<Rightarrow> SPSCQueue option" where
  "spsc_put q v = (case spsc_enqueue q v of (q', ok) \<Rightarrow> if ok then Some q' else None)"

definition spsc_get :: "SPSCQueue \<Rightarrow> (COM \<times> SPSCQueue) option" where
  "spsc_get q = (case spsc_dequeue q undefined of (q', v, ok) \<Rightarrow> if ok then Some (v, q') else None)"

lemma ring_dist_Suc_head:
  assumes "h < n" "t < n" "Suc h mod n \<noteq> t"
  shows "ring_dist n (Suc h mod n) t = Suc (ring_dist n h t)" "ring_dist n h t < n - 1"
  using assms by (auto simp: ring_dist_def mod_if split: if_splits)

lemma ring_dist_Suc_tail:
  assumes "h < n" "t < n" "h \<noteq> t"
  shows "ring_dist n h t = Suc (ring_dist n h (Suc t mod n))"
  using assms by (auto simp: ring_dist_def mod_if split: if_splits)

lemma ring_dist_head: "h < n \<Longrightarrow> t < n \<Longrightarrow> (t + ring_dist n h t) mod n = h"
  by (auto simp: ring_dist_def mod_if split: if_splits)

lemma ring_dist_eq_0: "h < n \<Longrightarrow> t < n \<Longrightarrow> ring_dist n h t = 0 \<longleftrightarrow> h = t"
  by (auto simp: ring_dist_def mod_if split: if_splits)

lemma ring_dist_full: "h < n \<Longrightarrow> t < n \<Longrightarrow> ring_dist n h t = n - 1 \<longleftrightarrow> Suc h mod n = t"
  by (auto simp: ring_dist_def mod_if split: if_splits)

lemma ring_dist_less: "0 < n \<Longrightarrow> ring_dist n h t < n"
  by (simp add: ring_dist_def)


lemma spsc_wf_init: "length (buffer q) = 256 \<Longrightarrow> spsc_wf (spsc_init q)"
  by (simp add: spsc_wf_def spsc_init_def)

lemma spsc_contents_init [simp]: "spsc_contents (spsc_init q) = []"
  by (simp add: spsc_contents_def spsc_count_def spsc_init_def ring_dist_def)

lemma spsc_next_eq_iff:
  "spsc_next h = t \<longleftrightarrow> Suc (unat h) mod 256 = unat t"
  using unat_spsc_next [of h] by (auto simp: word_unat_eq_iff)

lemma spsc_enqueue_full:
  "spsc_wf q \<Longrightarrow> spsc_count q = 255 \<Longrightarrow> spsc_enqueue q v = (q, False)"
  using ring_dist_full [of "unat (head q)" 256 "unat (tail q)"]
  by (simp add: spsc_enqueue_def spsc_wf_def spsc_count_def spsc_next_eq_iff)

lemma spsc_enqueue_ok:
  assumes "spsc_wf q" "spsc_count q \<noteq> 255"
  obtains q' where "spsc_enqueue q v = (q', True)" "spsc_wf q'"
    "spsc_contents q' = spsc_contents q @ [v]" "tail q' = tail q"
proof -
  let ?h = "unat (head q)" and ?t = "unat (tail q)"
  have b: "length (buffer q) = 256" "?h < 256" "?t < 256" and nf: "Suc ?h mod 256 \<noteq> ?t"
    using assms ring_dist_full [of ?h 256 ?t] by (auto simp: spsc_wf_def spsc_count_def)
  let ?q' = "q\<lparr>buffer := (buffer q)[?h := v], head := spsc_next (head q)\<rparr>"
  have "spsc_enqueue q v = (?q', True)"
    using nf by (simp add: spsc_enqueue_def spsc_next_eq_iff Let_def)
  moreover have "spsc_wf ?q'" using b by (simp add: spsc_wf_def unat_spsc_next)
  moreover have "spsc_contents ?q' = spsc_contents q @ [v]"
    using ring_dist_Suc_head [OF b(2,3) nf] b ring_dist_head [OF b(2,3)]
      ring_contents_push [OF b(1), of "ring_dist 256 ?h ?t" ?t v]
    by (simp add: spsc_contents_def spsc_count_def unat_spsc_next)
  ultimately show ?thesis using that [of ?q'] by simp
qed

lemma spsc_dequeue_empty:
  "spsc_wf q \<Longrightarrow> spsc_contents q = [] \<Longrightarrow> spsc_dequeue q v = (q, v, False)"
  using ring_dist_eq_0 [of "unat (head q)" 256 "unat (tail q)"]
  by (auto simp: spsc_dequeue_def spsc_contents_def spsc_count_def spsc_wf_def
      word_unat_eq_iff ring_contents_def)

lemma spsc_dequeue_ok:
  assumes "spsc_wf q" "spsc_contents q = x # xs"
  obtains q' where "spsc_dequeue q v = (q', x, True)" "spsc_wf q'" "spsc_contents q' = xs"
    "head q' = head q"
proof -
  let ?h = "unat (head q)" and ?t = "unat (tail q)"
  have b: "length (buffer q) = 256" "?h < 256" "?t < 256" using assms by (auto simp: spsc_wf_def)
  have ne: "?h \<noteq> ?t" using assms ring_dist_eq_0 [OF b(2,3)]
    by (auto simp: spsc_contents_def spsc_count_def)
  let ?q' = "q\<lparr>tail := spsc_next (tail q)\<rparr>"
  have c: "spsc_contents q = buffer q ! ?t # spsc_contents ?q'"
    using ring_dist_Suc_tail [OF b(2,3) ne] ring_contents_pop [OF b(3), of "buffer q"]
    by (simp add: spsc_contents_def spsc_count_def unat_spsc_next)
  with assms ne have "spsc_dequeue q v = (?q', x, True)"
    by (auto simp: spsc_dequeue_def word_unat_eq_iff)
  moreover have "spsc_wf ?q'" using b by (simp add: spsc_wf_def unat_spsc_next)
  ultimately show ?thesis using that [of ?q'] c assms by simp
qed

lemma length_spsc_contents: "length (spsc_contents q) = spsc_count q"
  by (simp add: spsc_contents_def)

lemma spsc_get_empty: "spsc_wf q \<Longrightarrow> spsc_contents q = [] \<Longrightarrow> spsc_get q = None"
  by (simp add: spsc_get_def spsc_dequeue_empty)

lemma spsc_get_Cons:
  assumes "spsc_wf q" "spsc_contents q = x # xs"
  shows "\<exists>q'. spsc_get q = Some (x, q') \<and> spsc_wf q' \<and> spsc_contents q' = xs"
proof -
  obtain q' where "spsc_dequeue q undefined = (q', x, True)" "spsc_wf q'" "spsc_contents q' = xs"
    using spsc_dequeue_ok [OF assms] by blast
  then show ?thesis by (simp add: spsc_get_def)
qed

interpretation spsc: bounded_fifo spsc_wf 255 spsc_contents spsc_put spsc_get
proof
  fix q v
  assume wf: "spsc_wf q"
  show full: "spsc_put q v = None \<longleftrightarrow> length (spsc_contents q) = 255"
  proof (cases "spsc_count q = 255")
    case True
    then show ?thesis using spsc_enqueue_full [OF wf] by (simp add: spsc_put_def length_spsc_contents)
  next
    case False
    with spsc_enqueue_ok [OF wf] obtain q' where "spsc_enqueue q v = (q', True)" by metis
    with False show ?thesis by (simp add: spsc_put_def length_spsc_contents)
  qed
  show "spsc_wf q' \<and> spsc_contents q' = spsc_contents q @ [v]" if "spsc_put q v = Some q'" for q'
  proof -
    from that full have "spsc_count q \<noteq> 255" by (auto simp: length_spsc_contents)
    from spsc_enqueue_ok [OF wf this, of v]
    obtain q1 where "spsc_enqueue q v = (q1, True)" "spsc_wf q1"
      "spsc_contents q1 = spsc_contents q @ [v]" by blast
    with that show ?thesis by (simp add: spsc_put_def)
  qed
  show "spsc_get q = None \<longleftrightarrow> spsc_contents q = []"
  proof (cases "spsc_contents q")
    case Nil
    then show ?thesis using spsc_get_empty [OF wf] by simp
  next
    case (Cons y ys)
    then show ?thesis using spsc_get_Cons [OF wf Cons] by auto
  qed
  show "spsc_wf q' \<and> spsc_contents q = x # spsc_contents q'" if get: "spsc_get q = Some (x, q')" for x q'
  proof (cases "spsc_contents q")
    case Nil
    then show ?thesis using spsc_get_empty [OF wf] get by simp
  next
    case (Cons y ys)
    then show ?thesis using spsc_get_Cons [OF wf Cons] get by auto
  qed
  show "length (spsc_contents q) \<le> 255"
    using ring_dist_less [of 256 "unat (head q)" "unat (tail q)"]
    by (simp add: length_spsc_contents spsc_count_def)
qed

section \<open>Properties\<close>

text \<open>
  After \<open>spsc_init\<close>, whatever sequence of calls follows, the values dequeued so far and the values
  still stored are exactly the accepted values in the order of their enqueue calls, at most 255 are
  stored at any time, and the indices stay inside the buffer.
\<close>

lemma spsc_is_fifo:
  assumes "length (buffer q) = 256"
  shows "case queue_run spsc_put spsc_get (spsc_init q) ops of
           (acc, out, q') \<Rightarrow> acc = out @ spsc_contents q' \<and> length (spsc_contents q') \<le> 255 \<and> spsc_wf q'"
  using spsc.run_fifo [OF spsc_wf_init [OF assms]] spsc.bounded by (auto split: prod.split)

lemma spsc_is_fifo_example:
  "length (buffer \<lparr>buffer = replicate 256 \<lparr>com_x = 0, com_y = 0\<rparr>, head = 7, tail = 9\<rparr>) = 256
   \<and> (case queue_run spsc_put spsc_get
            (spsc_init \<lparr>buffer = replicate 256 \<lparr>com_x = 0, com_y = 0\<rparr>, head = 7, tail = 9\<rparr>)
            [Get, Put \<lparr>com_x = 1, com_y = 2\<rparr>, Put \<lparr>com_x = 3, com_y = 4\<rparr>, Get] of
        (acc, out, q') \<Rightarrow> acc = out @ spsc_contents q' \<and> length (spsc_contents q') \<le> 255 \<and> spsc_wf q')"
  using spsc_is_fifo [of "\<lparr>buffer = replicate 256 \<lparr>com_x = 0, com_y = 0\<rparr>, head = 7, tail = 9\<rparr>"
      "[Get, Put \<lparr>com_x = 1, com_y = 2\<rparr>, Put \<lparr>com_x = 3, com_y = 4\<rparr>, Get]"] by simp

text \<open>
  C25: what one call does on every branch: \<open>spsc_enqueue\<close> accepts exactly when fewer than 255 values are
  stored and appends the value, otherwise it changes nothing; \<open>spsc_dequeue\<close> succeeds exactly when the
  queue is not empty and delivers the oldest value, otherwise it leaves the queue and \<open>*value\<close> alone.
\<close>

theorem spsc_operations:
  assumes "spsc_wf q"
  shows "(case spsc_enqueue q v of (q', ok) \<Rightarrow>
            ok = (length (spsc_contents q) < 255) \<and> spsc_wf q'
            \<and> (if ok then spsc_contents q' = spsc_contents q @ [v] else q' = q))
       \<and> (case spsc_dequeue q old of (q', x, ok) \<Rightarrow>
            ok = (spsc_contents q \<noteq> []) \<and> spsc_wf q'
            \<and> (if ok then spsc_contents q = x # spsc_contents q' else q' = q \<and> x = old))"
proof (intro conjI)
  have le: "length (spsc_contents q) \<le> 255" by (rule spsc.bounded [OF assms])
  show "case spsc_enqueue q v of (q', ok) \<Rightarrow>
            ok = (length (spsc_contents q) < 255) \<and> spsc_wf q'
            \<and> (if ok then spsc_contents q' = spsc_contents q @ [v] else q' = q)"
  proof (cases "spsc_count q = 255")
    case True
    then show ?thesis using spsc_enqueue_full [OF assms True] assms by (simp add: length_spsc_contents)
  next
    case False
    with spsc_enqueue_ok [OF assms False] obtain q' where "spsc_enqueue q v = (q', True)" "spsc_wf q'"
      "spsc_contents q' = spsc_contents q @ [v]" by metis
    then show ?thesis using False le by (simp add: length_spsc_contents)
  qed
  show "case spsc_dequeue q old of (q', x, ok) \<Rightarrow>
            ok = (spsc_contents q \<noteq> []) \<and> spsc_wf q'
            \<and> (if ok then spsc_contents q = x # spsc_contents q' else q' = q \<and> x = old)"
  proof (cases "spsc_contents q")
    case Nil
    then show ?thesis using spsc_dequeue_empty [OF assms] assms by simp
  next
    case (Cons y ys)
    with spsc_dequeue_ok [OF assms Cons] obtain q' where "spsc_dequeue q old = (q', y, True)" "spsc_wf q'"
      "spsc_contents q' = ys" by metis
    then show ?thesis using Cons by simp
  qed
qed

theorem spsc_operations_witness:
  "let q = spsc_init \<lparr>buffer = replicate 256 \<lparr>com_x = 0, com_y = 0\<rparr>, head = 7, tail = 9\<rparr>
   in case spsc_enqueue q \<lparr>com_x = 1, com_y = 2\<rparr> of (q', ok) \<Rightarrow> ok \<and> spsc_contents q' = [\<lparr>com_x = 1, com_y = 2\<rparr>]"
proof -
  let ?q = "spsc_init \<lparr>buffer = replicate 256 \<lparr>com_x = 0, com_y = 0\<rparr>, head = 7, tail = 9\<rparr>"
  have "spsc_wf ?q" by (rule spsc_wf_init) simp
  from spsc_operations [OF this, of "\<lparr>com_x = 1, com_y = 2\<rparr>"] show ?thesis
    by (auto simp: Let_def split: prod.splits)
qed

end
