(* ===== verification/Spsc_Concurrent.thy ===== *)
theory Spsc_Concurrent
  imports Spsc_Queue
begin

text \<open>
  The same queue with its two threads interleaved at the granularity of the atomic loads and
  stores of \<open>spsc_enqueue\<close> and \<open>spsc_dequeue\<close>. \<open>api_step\<close> has one rule per memory access;
  \<open>spsc_step\<close> is the queue used as designed (one producer, one consumer); \<open>com_step\<close> is the use
  that \<open>com_calculator_thread\<close> makes of it, whose overflow path calls \<open>spsc_dequeue\<close> from the
  producer's thread (com_calculator.c:72-76). Acquire and release are modelled by interleaving: every buffer
  access of a well-behaved run is ordered by them.
\<close>


datatype prod_pc =
    P_Idle
  | P_Retry COM
  | P_Head bool COM u32
  | P_Tail bool COM u32 u32
  | P_Full bool COM
  | P_Store COM u32
  | F_Start COM
  | F_Tail COM u32
  | F_Head COM u32 u32
  | F_Store COM u32

datatype cons_pc =
    C_Idle
  | C_Tail u32
  | C_Head u32 u32
  | C_Store u32 COM

record spsc_sys =
  queue :: SPSCQueue
  prod :: prod_pc
  cons :: cons_pc
  pushed :: "COM list"
  popped :: "COM list"

inductive api_step :: "spsc_sys \<Rightarrow> spsc_sys \<Rightarrow> bool" where
  enq_load_head: "prod s = P_Idle \<Longrightarrow>
     api_step s (s\<lparr>prod := P_Head False v (head (queue s))\<rparr>)"
| enq_load_tail: "prod s = P_Head again v h \<Longrightarrow>
     api_step s (s\<lparr>prod := P_Tail again v h (tail (queue s))\<rparr>)"
| enq_full: "prod s = P_Tail again v h t \<Longrightarrow> spsc_next h = t \<Longrightarrow>
     api_step s (s\<lparr>prod := P_Full again v\<rparr>)"
| enq_write: "prod s = P_Tail again v h t \<Longrightarrow> spsc_next h \<noteq> t \<Longrightarrow>
     api_step s (s\<lparr>queue := (queue s)\<lparr>buffer := (buffer (queue s))[unat h := v]\<rparr>,
                   prod := P_Store v h\<rparr>)"
| enq_store_head: "prod s = P_Store v h \<Longrightarrow>
     api_step s (s\<lparr>queue := (queue s)\<lparr>head := spsc_next h\<rparr>, prod := P_Idle,
                   pushed := pushed s @ [v]\<rparr>)"
| deq_load_tail: "cons s = C_Idle \<Longrightarrow>
     api_step s (s\<lparr>cons := C_Tail (tail (queue s))\<rparr>)"
| deq_load_head: "cons s = C_Tail t \<Longrightarrow>
     api_step s (s\<lparr>cons := C_Head t (head (queue s))\<rparr>)"
| deq_empty: "cons s = C_Head t h \<Longrightarrow> h = t \<Longrightarrow>
     api_step s (s\<lparr>cons := C_Idle\<rparr>)"
| deq_read: "cons s = C_Head t h \<Longrightarrow> h \<noteq> t \<Longrightarrow>
     api_step s (s\<lparr>cons := C_Store t (buffer (queue s) ! unat t)\<rparr>)"
| deq_store_tail: "cons s = C_Store t x \<Longrightarrow>
     api_step s (s\<lparr>queue := (queue s)\<lparr>tail := spsc_next t\<rparr>, cons := C_Idle,
                   popped := popped s @ [x]\<rparr>)"

inductive spsc_step :: "spsc_sys \<Rightarrow> spsc_sys \<Rightarrow> bool" where
  spsc_api: "api_step s t \<Longrightarrow> spsc_step s t"
| enq_return: "prod s = P_Full again v \<Longrightarrow> spsc_step s (s\<lparr>prod := P_Idle\<rparr>)"

inductive com_step :: "spsc_sys \<Rightarrow> spsc_sys \<Rightarrow> bool" where
  com_api: "api_step s t \<Longrightarrow> com_step s t"
| fb_start: "prod s = P_Full False v \<Longrightarrow> com_step s (s\<lparr>prod := F_Start v\<rparr>)"
| fb_load_tail: "prod s = F_Start v \<Longrightarrow> com_step s (s\<lparr>prod := F_Tail v (tail (queue s))\<rparr>)"
| fb_load_head: "prod s = F_Tail v t \<Longrightarrow> com_step s (s\<lparr>prod := F_Head v t (head (queue s))\<rparr>)"
| fb_empty: "prod s = F_Head v t h \<Longrightarrow> h = t \<Longrightarrow> com_step s (s\<lparr>prod := P_Retry v\<rparr>)"
| fb_read: "prod s = F_Head v t h \<Longrightarrow> h \<noteq> t \<Longrightarrow> com_step s (s\<lparr>prod := F_Store v t\<rparr>)"
| fb_store_tail: "prod s = F_Store v t \<Longrightarrow>
     com_step s (s\<lparr>queue := (queue s)\<lparr>tail := spsc_next t\<rparr>, prod := P_Retry v\<rparr>)"
| fb_retry: "prod s = P_Retry v \<Longrightarrow>
     com_step s (s\<lparr>prod := P_Head True v (head (queue s))\<rparr>)"
| fb_give_up: "prod s = P_Full True v \<Longrightarrow> com_step s (s\<lparr>prod := P_Idle\<rparr>)"

definition start_sys :: "SPSCQueue \<Rightarrow> spsc_sys" where
  "start_sys q = \<lparr>queue = spsc_init q, prod = P_Idle, cons = C_Idle, pushed = [], popped = []\<rparr>"

inductive spsc_reachable :: "SPSCQueue \<Rightarrow> spsc_sys \<Rightarrow> bool" for q0 where
  spsc_start: "spsc_reachable q0 (start_sys q0)"
| spsc_more: "spsc_reachable q0 s \<Longrightarrow> spsc_step s t \<Longrightarrow> spsc_reachable q0 t"

inductive com_reachable :: "SPSCQueue \<Rightarrow> spsc_sys \<Rightarrow> bool" for q0 where
  com_start: "com_reachable q0 (start_sys q0)"
| com_more: "com_reachable q0 s \<Longrightarrow> com_step s t \<Longrightarrow> com_reachable q0 t"

definition data_inv :: "SPSCQueue \<Rightarrow> COM list \<Rightarrow> COM list \<Rightarrow> bool" where
  "data_inv q pu po \<longleftrightarrow>
     length (buffer q) = 256
     \<and> unat (head q) = length pu mod 256 \<and> unat (tail q) = length po mod 256
     \<and> length po \<le> length pu \<and> length pu \<le> length po + 255
     \<and> take (length po) pu = po
     \<and> (\<forall>i. length po \<le> i \<and> i < length pu \<longrightarrow> buffer q ! (i mod 256) = pu ! i)"

fun prod_inv :: "SPSCQueue \<Rightarrow> nat \<Rightarrow> nat \<Rightarrow> prod_pc \<Rightarrow> bool" where
  "prod_inv q np nc P_Idle = True"
| "prod_inv q np nc (P_Head again v h) = (h = head q)"
| "prod_inv q np nc (P_Tail again v h t) =
     (h = head q \<and> (\<exists>m \<le> nc. np \<le> m + 255 \<and> unat t = m mod 256))"
| "prod_inv q np nc (P_Full again v) = True"
| "prod_inv q np nc (P_Store v h) =
     (h = head q \<and> np < nc + 255 \<and> buffer q ! (np mod 256) = v)"
| "prod_inv q np nc _ = False"

fun cons_inv :: "SPSCQueue \<Rightarrow> COM list \<Rightarrow> nat \<Rightarrow> cons_pc \<Rightarrow> bool" where
  "cons_inv q pu nc C_Idle = True"
| "cons_inv q pu nc (C_Tail t) = (t = tail q)"
| "cons_inv q pu nc (C_Head t h) =
     (t = tail q \<and> (\<exists>m \<le> length pu. nc \<le> m \<and> unat h = m mod 256))"
| "cons_inv q pu nc (C_Store t x) = (t = tail q \<and> nc < length pu \<and> x = pu ! nc)"

definition spsc_inv :: "spsc_sys \<Rightarrow> bool" where
  "spsc_inv s \<longleftrightarrow>
     data_inv (queue s) (pushed s) (popped s)
     \<and> prod_inv (queue s) (length (pushed s)) (length (popped s)) (prod s)
     \<and> cons_inv (queue s) (pushed s) (length (popped s)) (cons s)"

lemma mod_eq_close: "(a::nat) mod n = b mod n \<Longrightarrow> a \<le> b \<Longrightarrow> b < a + n \<Longrightarrow> a = b"
  using mod_add_inj [of 0 "b - a" n a] by (cases "a < b") (auto simp: less_diff_conv2 add.commute)

lemma data_inv_write:
  assumes "data_inv q pu po" "length pu < length po + 255" "unat h = length pu mod 256"
  shows "data_inv (q\<lparr>buffer := (buffer q)[unat h := v]\<rparr>) pu po"
proof -
  have "(buffer q)[unat h := v] ! (i mod 256) = pu ! i"
    if i: "length po \<le> i" "i < length pu" for i
  proof -
    have "i mod 256 \<noteq> length pu mod 256" using mod_eq_close [of i 256 "length pu"] i assms(2) by auto
    then show ?thesis using assms i by (simp add: data_inv_def)
  qed
  then show ?thesis using assms by (simp add: data_inv_def)
qed

lemma data_inv_push:
  assumes "data_inv q pu po" "length pu < length po + 255" "buffer q ! (length pu mod 256) = v"
  shows "data_inv (q\<lparr>head := spsc_next (head q)\<rparr>) (pu @ [v]) po"
  using assms by (auto simp: data_inv_def unat_spsc_next mod_Suc_eq nth_append less_Suc_eq)

lemma data_inv_pop:
  assumes "data_inv q pu po" "length po < length pu"
  shows "data_inv (q\<lparr>tail := spsc_next (tail q)\<rparr>) pu (po @ [pu ! length po])"
  using assms by (auto simp: data_inv_def unat_spsc_next mod_Suc_eq take_Suc_conv_app_nth)

lemma room_after_check:
  assumes "unat h = np mod 256" "unat t = m mod 256" "np \<le> m + 255" "spsc_next h \<noteq> t" "m \<le> nc"
  shows "np < nc + 255"
proof -
  have "Suc np mod 256 \<noteq> m mod 256" using assms by (simp add: spsc_next_eq_iff mod_Suc_eq)
  then have "np \<noteq> m + 255" by auto
  with assms show ?thesis by simp
qed

lemma data_after_check:
  assumes "unat t = nc mod 256" "unat h = m mod 256" "h \<noteq> t" "nc \<le> m" "m \<le> np"
  shows "nc < np"
  using assms by (cases "nc = m") (auto simp: word_unat_eq_iff)

lemma cons_inv_push:
  "cons_inv q pu nc c \<Longrightarrow> cons_inv (q\<lparr>head := h'\<rparr>) (pu @ [v]) nc c"
  by (cases c) (auto simp: nth_append intro: le_SucI)

lemma cons_inv_write: "cons_inv (q\<lparr>buffer := b\<rparr>) pu nc c = cons_inv q pu nc c"
  by (cases c) auto

lemma prod_inv_pop:
  "prod_inv q np nc p \<Longrightarrow> prod_inv (q\<lparr>tail := t'\<rparr>) np (Suc nc) p"
  by (cases p) (auto intro: le_SucI)

lemma api_step_inv: "api_step s t \<Longrightarrow> spsc_inv s \<Longrightarrow> spsc_inv t"
proof (induction rule: api_step.induct)
  case (enq_load_tail s again v h)
  then show ?case by (auto simp: spsc_inv_def data_inv_def intro!: exI [of _ "length (popped s)"])
next
  case (enq_write s again v h t)
  then obtain m where m: "m \<le> length (popped s)" "length (pushed s) \<le> m + 255" "unat t = m mod 256"
    and h: "h = head (queue s)" and d: "data_inv (queue s) (pushed s) (popped s)"
    by (auto simp: spsc_inv_def)
  then have hp: "unat h = length (pushed s) mod 256" by (simp add: data_inv_def)
  have room: "length (pushed s) < length (popped s) + 255"
    using room_after_check [OF hp m(3,2) enq_write(2) m(1)] .
  have "length (buffer (queue s)) = 256" using d by (simp add: data_inv_def)
  then show ?case using enq_write data_inv_write [OF d room hp] room hp h
    by (auto simp: spsc_inv_def cons_inv_write)
next
  case (enq_store_head s v h)
  then show ?case using data_inv_push cons_inv_push by (auto simp: spsc_inv_def)
next
  case (deq_load_head s t)
  then show ?case by (auto simp: spsc_inv_def data_inv_def intro!: exI [of _ "length (pushed s)"])
next
  case (deq_read s t h)
  then obtain m where m: "m \<le> length (pushed s)" "length (popped s) \<le> m" "unat h = m mod 256"
    and t: "t = tail (queue s)" and d: "data_inv (queue s) (pushed s) (popped s)"
    by (auto simp: spsc_inv_def)
  have "unat t = length (popped s) mod 256" using d t by (simp add: data_inv_def)
  from data_after_check [OF this m(3) deq_read(2) m(2,1)]
  have lt: "length (popped s) < length (pushed s)" .
  have "buffer (queue s) ! unat t = pushed s ! length (popped s)"
    using d t lt by (simp add: data_inv_def)
  then show ?case using deq_read t lt by (simp add: spsc_inv_def)
next
  case (deq_store_tail s t x)
  then have x: "t = tail (queue s)" "length (popped s) < length (pushed s)"
    "x = pushed s ! length (popped s)" by (simp_all add: spsc_inv_def)
  with deq_store_tail data_inv_pop [of "queue s" "pushed s" "popped s"] prod_inv_pop
  show ?case by (simp add: spsc_inv_def)
qed (auto simp: spsc_inv_def)

lemma spsc_step_inv: "spsc_step s t \<Longrightarrow> spsc_inv s \<Longrightarrow> spsc_inv t"
  by (induction rule: spsc_step.induct) (blast intro: api_step_inv, simp add: spsc_inv_def)

lemma spsc_inv_start: "length (buffer q) = 256 \<Longrightarrow> spsc_inv (start_sys q)"
  by (simp add: spsc_inv_def start_sys_def data_inv_def spsc_init_def)

lemma spsc_reachable_inv:
  "spsc_reachable q s \<Longrightarrow> length (buffer q) = 256 \<Longrightarrow> spsc_inv s"
  by (induction rule: spsc_reachable.induct) (auto intro: spsc_inv_start spsc_step_inv)


lemma ring_dist_counts:
  assumes "nc \<le> np" "np \<le> nc + 255"
  shows "ring_dist 256 (np mod 256) (nc mod 256) = np - nc"
proof -
  obtain k where k: "np = nc + k" "k \<le> 255" using assms le_iff_add by auto
  define d where "d = ring_dist 256 (np mod 256) (nc mod 256)"
  have "(nc mod 256 + d) mod 256 = (nc mod 256 + k) mod 256"
    using ring_dist_head [of "np mod 256" 256 "nc mod 256"] k by (simp add: d_def mod_simps)
  moreover have "d < 256" unfolding d_def by (rule ring_dist_less) simp
  ultimately have "d = k"
    using mod_add_inj [of d k 256 "nc mod 256"] mod_add_inj [of k d 256 "nc mod 256"] k(2)
    by (cases d k rule: linorder_cases) auto
  then show ?thesis using k by (simp add: d_def)
qed

lemma data_inv_contents:
  assumes "data_inv q pu po" shows "spsc_contents q = drop (length po) pu"
proof -
  have "spsc_count q = length pu - length po"
    using assms ring_dist_counts by (simp add: data_inv_def spsc_count_def)
  moreover have "buffer q ! ((length po mod 256 + i) mod 256) = pu ! (length po + i)"
    if "i < length pu - length po" for i
    using assms that by (simp add: data_inv_def mod_simps)
  ultimately show ?thesis using assms
    by (intro nth_equalityI) (simp_all add: spsc_contents_def ring_contents_def data_inv_def)
qed

lemma data_inv_fifo: "data_inv q pu po \<Longrightarrow> pu = po @ spsc_contents q"
  by (metis append_take_drop_id data_inv_contents data_inv_def)

section \<open>Runs of the two threads\<close>

lemma com_enqueue:
  assumes r: "com_reachable q s" and p: "prod s = P_Idle" and "spsc_next (head (queue s)) \<noteq> tail (queue s)"
  shows "com_reachable q (s\<lparr>queue := fst (spsc_enqueue (queue s) v), pushed := pushed s @ [v]\<rparr>)"
proof -
  let ?h = "head (queue s)" and ?t = "tail (queue s)"
  let ?b = "(queue s)\<lparr>buffer := (buffer (queue s))[unat ?h := v]\<rparr>"
  have "com_reachable q (s\<lparr>prod := P_Head False v ?h\<rparr>)"
    by (rule com_more [OF r com_api]) (rule enq_load_head [OF p])
  then have "com_reachable q (s\<lparr>prod := P_Tail False v ?h ?t\<rparr>)"
    using com_more [OF _ com_api [OF enq_load_tail]] by fastforce
  then have "com_reachable q (s\<lparr>queue := ?b, prod := P_Store v ?h\<rparr>)"
    using com_more [OF _ com_api [OF enq_write], of q "s\<lparr>prod := P_Tail False v ?h ?t\<rparr>" False v ?h ?t]
      assms(3) by simp
  then have "com_reachable q (s\<lparr>queue := ?b\<lparr>head := spsc_next ?h\<rparr>, prod := P_Idle, pushed := pushed s @ [v]\<rparr>)"
    using com_more [OF _ com_api [OF enq_store_head], of q "s\<lparr>queue := ?b, prod := P_Store v ?h\<rparr>" v ?h] by simp
  then show ?thesis using assms(3) p by (cases s) (simp add: spsc_enqueue_def Let_def)
qed

lemma com_dequeue:
  assumes r: "com_reachable q s" and c: "cons s = C_Idle" and ne: "head (queue s) \<noteq> tail (queue s)"
  shows "com_reachable q (s\<lparr>queue := (queue s)\<lparr>tail := spsc_next (tail (queue s))\<rparr>,
           popped := popped s @ [buffer (queue s) ! unat (tail (queue s))]\<rparr>)"
proof -
  let ?h = "head (queue s)" and ?t = "tail (queue s)"
  let ?x = "buffer (queue s) ! unat ?t"
  have "com_reachable q (s\<lparr>cons := C_Tail ?t\<rparr>)"
    by (rule com_more [OF r com_api]) (rule deq_load_tail [OF c])
  then have "com_reachable q (s\<lparr>cons := C_Head ?t ?h\<rparr>)"
    using com_more [OF _ com_api [OF deq_load_head]] by fastforce
  then have "com_reachable q (s\<lparr>cons := C_Store ?t ?x\<rparr>)"
    using com_more [OF _ com_api [OF deq_read], of q "s\<lparr>cons := C_Head ?t ?h\<rparr>" ?t ?h] ne by simp
  then show ?thesis
    using com_more [OF _ com_api [OF deq_store_tail], of q "s\<lparr>cons := C_Store ?t ?x\<rparr>" ?t ?x] c
    by (cases s) simp
qed

lemma com_fallback_pending:
  assumes r: "com_reachable q s" and p: "prod s = P_Idle"
    and full: "spsc_next (head (queue s)) = tail (queue s)" and ne: "head (queue s) \<noteq> tail (queue s)"
  shows "com_reachable q (s\<lparr>prod := F_Store v (tail (queue s))\<rparr>)"
proof -
  let ?h = "head (queue s)" and ?t = "tail (queue s)"
  have "com_reachable q (s\<lparr>prod := P_Head False v ?h\<rparr>)"
    by (rule com_more [OF r com_api]) (rule enq_load_head [OF p])
  then have "com_reachable q (s\<lparr>prod := P_Tail False v ?h ?t\<rparr>)"
    using com_more [OF _ com_api [OF enq_load_tail]] by fastforce
  then have "com_reachable q (s\<lparr>prod := P_Full False v\<rparr>)"
    using com_more [OF _ com_api [OF enq_full], of q "s\<lparr>prod := P_Tail False v ?h ?t\<rparr>" False v ?h ?t]
      full by simp
  then have "com_reachable q (s\<lparr>prod := F_Start v\<rparr>)"
    using com_more [OF _ fb_start, of q "s\<lparr>prod := P_Full False v\<rparr>"] by simp
  then have "com_reachable q (s\<lparr>prod := F_Tail v ?t\<rparr>)"
    using com_more [OF _ fb_load_tail, of q "s\<lparr>prod := F_Start v\<rparr>"] by simp
  then have "com_reachable q (s\<lparr>prod := F_Head v ?t ?h\<rparr>)"
    using com_more [OF _ fb_load_head, of q "s\<lparr>prod := F_Tail v ?t\<rparr>"] by simp
  then show ?thesis
    using com_more [OF _ fb_read, of q "s\<lparr>prod := F_Head v ?t ?h\<rparr>"] ne by simp
qed

lemma data_inv_next_room:
  assumes "data_inv q pu po" "length pu < length po + 255"
  shows "spsc_next (head q) \<noteq> tail q"
proof
  assume "spsc_next (head q) = tail q"
  then have "Suc (length pu) mod 256 = length po mod 256"
    using assms by (simp add: spsc_next_eq_iff data_inv_def mod_Suc_eq)
  then show False using mod_eq_close [of "length po" 256 "Suc (length pu)"] assms
    by (auto simp: data_inv_def)
qed

lemma com_fill:
  "length (buffer q) = 256 \<Longrightarrow> length vs \<le> 255 \<Longrightarrow>
   \<exists>s. com_reachable q s \<and> prod s = P_Idle \<and> cons s = C_Idle \<and> pushed s = vs \<and> popped s = []
       \<and> data_inv (queue s) vs []"
proof (induction vs rule: rev_induct)
  case Nil
  then show ?case using spsc_inv_start [of q] com_start [of q]
    by (intro exI [of _ "start_sys q"]) (simp add: spsc_inv_def start_sys_def)
next
  case (snoc v vs)
  then obtain s where s: "com_reachable q s" "prod s = P_Idle" "cons s = C_Idle" "pushed s = vs"
    "popped s = []" "data_inv (queue s) vs []" by auto
  have room: "length vs < length ([] :: COM list) + 255" using snoc.prems by simp
  have nf: "spsc_next (head (queue s)) \<noteq> tail (queue s)" by (rule data_inv_next_room [OF s(6) room])
  have hp: "unat (head (queue s)) = length vs mod 256" using s(6) by (simp add: data_inv_def)
  have "length (buffer (queue s)) = 256" using s(6) by (simp add: data_inv_def)
  then have "data_inv (fst (spsc_enqueue (queue s) v)) (vs @ [v]) []"
    using data_inv_push [OF data_inv_write [OF s(6) room hp] room, of v] hp nf
    by (simp add: spsc_enqueue_def Let_def)
  then show ?case using com_enqueue [OF s(1,2) nf, of v] s(2-5)
    by (intro exI [of _ "s\<lparr>queue := fst (spsc_enqueue (queue s) v), pushed := pushed s @ [v]\<rparr>"]) simp
qed


lemma data_inv_full_head:
  assumes "data_inv q vs []" "length vs = 255"
  shows "unat (head q) = 255" "unat (tail q) = 0" "head q \<noteq> tail q" "spsc_next (head q) = tail q"
    "\<And>i. i < 255 \<Longrightarrow> buffer q ! i = vs ! i"
  using assms by (auto simp: data_inv_def unat_spsc_next word_unat_eq_iff)

lemma com_duplicate:
  assumes len: "length (buffer q) = 256" "length vs = 255"
  shows "\<exists>s. com_reachable q s \<and> pushed s = vs \<and> popped s = [vs ! 0, vs ! 1, vs ! 1]"
proof -
  obtain s where s: "com_reachable q s" "prod s = P_Idle" "cons s = C_Idle" "pushed s = vs"
    "popped s = []" "data_inv (queue s) vs []" using com_fill [of q vs] len by auto
  note f = data_inv_full_head [OF s(6) len(2)]
  have t0: "tail (queue s) = 0" using f(2) by (simp add: word_unat_eq_iff)
  have h0: "unat (head (queue s)) = 255" by (rule f(1))
  have n1: "unat (spsc_next 0) = 1" "unat (spsc_next (spsc_next 0)) = 2" by (simp_all add: unat_spsc_next)
  then have ne: "head (queue s) \<noteq> spsc_next 0" "head (queue s) \<noteq> spsc_next (spsc_next 0)"
    using h0 by (auto simp: word_unat_eq_iff)
  let ?q = "\<lambda>t. (queue s)\<lparr>tail := t\<rparr>"
  let ?p = "F_Store undefined 0"
  have r1: "com_reachable q (s\<lparr>prod := ?p\<rparr>)"
    using com_fallback_pending [OF s(1,2) f(4,3), of undefined] by (simp add: t0)
  have r2: "com_reachable q (s\<lparr>prod := ?p, queue := ?q (spsc_next 0), popped := [vs ! 0]\<rparr>)"
    using com_dequeue [OF r1] s(3,5) f(3,5) t0 by simp
  have r3: "com_reachable q (s\<lparr>prod := ?p, queue := ?q (spsc_next (spsc_next 0)),
      popped := [vs ! 0, vs ! 1]\<rparr>)"
    using com_dequeue [OF r2] s(3) ne f(5) n1 by simp
  have r4: "com_reachable q (s\<lparr>prod := P_Retry undefined, queue := ?q (spsc_next 0),
      popped := [vs ! 0, vs ! 1]\<rparr>)"
    using com_more [OF r3 fb_store_tail, of undefined 0] by (cases s) simp
  have "com_reachable q (s\<lparr>prod := P_Retry undefined, queue := ?q (spsc_next (spsc_next 0)),
      popped := [vs ! 0, vs ! 1, vs ! 1]\<rparr>)"
    using com_dequeue [OF r4] s(3) ne f(5) n1 by simp
  then show ?thesis using s(4) by (intro exI conjI) (assumption, simp_all)
qed

section \<open>Properties\<close>

text \<open>
  C7: with one producer and one consumer interleaved at every memory access, in every reachable state
  the values the producer has pushed are the values the consumer has popped followed by the contents of
  the ring: no value is lost, duplicated, reordered or read before it is written, and the ring never
  holds more than 255 values.
\<close>

theorem spsc_interleaved_fifo:
  assumes "spsc_reachable q s" "length (buffer q) = 256"
  shows "pushed s = popped s @ spsc_contents (queue s) \<and> length (spsc_contents (queue s)) \<le> 255"
proof -
  have inv: "data_inv (queue s) (pushed s) (popped s)"
    using spsc_reachable_inv [OF assms] by (simp add: spsc_inv_def)
  then have "length (spsc_contents (queue s)) = length (pushed s) - length (popped s)"
    by (simp add: data_inv_contents)
  then show ?thesis using data_inv_fifo [OF inv] inv by (simp add: data_inv_def)
qed

theorem spsc_interleaved_fifo_witness:
  "\<exists>q s. spsc_reachable q s \<and> length (buffer q) = 256 \<and> prod s = P_Head False \<lparr>com_x = 1, com_y = 2\<rparr> 0
     \<and> pushed s = popped s @ spsc_contents (queue s)"
proof -
  let ?q = "\<lparr>buffer = replicate 256 \<lparr>com_x = 0, com_y = 0\<rparr>, head = 7, tail = 9\<rparr>"
  let ?s = "(start_sys ?q)\<lparr>prod := P_Head False \<lparr>com_x = 1, com_y = 2\<rparr> (head (queue (start_sys ?q)))\<rparr>"
  have r: "spsc_reachable ?q ?s"
    by (rule spsc_more [OF spsc_start spsc_api [OF enq_load_head]]) (simp add: start_sys_def)
  have l: "length (buffer ?q) = 256" by simp
  from r l spsc_interleaved_fifo [OF r l] show ?thesis
    by (intro exI [of _ ?q] exI [of _ ?s]) (simp add: start_sys_def spsc_init_def)
qed

text \<open>
  C32: the overflow path of the centre of mass thread breaks this: when the ring is full, its
  \<open>spsc_dequeue\<close> from the producer's thread can interleave with the consumer so that the control
  thread receives the second value twice (the store of a stale tail undoes a dequeue).
\<close>

theorem com_overflow_duplicates:
  assumes "length (buffer q) = 256" "length vs = 255"
  shows "\<exists>s. com_reachable q s \<and> pushed s = vs \<and> popped s = [vs ! 0, vs ! 1, vs ! 1]"
  by (rule com_duplicate [OF assms])

theorem com_overflow_duplicates_witness:
  "\<exists>q s. com_reachable q s \<and> popped s = [\<lparr>com_x = 5, com_y = 6\<rparr>, \<lparr>com_x = 5, com_y = 6\<rparr>, \<lparr>com_x = 5, com_y = 6\<rparr>]"
proof -
  have "length (buffer \<lparr>buffer = replicate 256 \<lparr>com_x = 0, com_y = 0\<rparr>, head = 7, tail = 9\<rparr>) = 256"
    "length (replicate 255 \<lparr>com_x = 5, com_y = 6\<rparr>) = 255" by simp_all
  from com_overflow_duplicates [OF this] show ?thesis by auto
qed

end
