(* ===== verification/Machine_Floats.thy ===== *)
theory Machine_Floats imports Prelude begin

text \<open>
  Floating point arithmetic of the C program as exact rounding over the rationals: \<open>f32\<close> and
  \<open>f64\<close> round to nearest, ties to even, with the precision and the subnormal range of the IEEE
  formats (\<open>float\<close>, \<open>double\<close>). There is no upper limit on the exponent and there are no NaNs: no
  value of the modelled code leaves the finite range on the inputs the theorems are about. The
  locale \<open>rounding\<close> states what the clients rely on and is interpreted on both formats.
\<close>


definition rne :: "rat \<Rightarrow> int" where
  "rne x =
     (let f = \<lfloor>x\<rfloor>; r = x - of_int f
      in if r < 1/2 then f
         else if 1/2 < r then f + 1
         else if even f then f else f + 1)"

function ilog2 :: "int \<Rightarrow> int" where
  "ilog2 n = (if n \<le> 1 then 0 else 1 + ilog2 (n div 2))"
  by pat_completeness auto
termination by (relation "measure nat") auto
declare ilog2.simps [simp del]

definition flog2 :: "rat \<Rightarrow> int" where
  "flog2 x =
     (if 1 \<le> x then ilog2 \<lfloor>x\<rfloor>
      else (let n = \<lceil>1 / x\<rceil> in if n \<le> 1 then 0 else - (1 + ilog2 (n - 1))))"

definition fround :: "nat \<Rightarrow> int \<Rightarrow> rat \<Rightarrow> rat" where
  "fround p emin x =
     (if x = 0 then 0
      else let e = max (flog2 \<bar>x\<bar> - (int p - 1)) emin
           in of_int (rne (x / 2 powi e)) * 2 powi e)"

definition f32 :: "rat \<Rightarrow> rat" where "f32 = fround 24 (- 149)"
definition f64 :: "rat \<Rightarrow> rat" where "f64 = fround 53 (- 1074)"

definition representable :: "nat \<Rightarrow> int \<Rightarrow> rat \<Rightarrow> bool" where
  "representable p emin x \<longleftrightarrow>
     (\<exists>m e. x = of_int m * 2 powi e \<and> \<bar>m\<bar> \<le> 2 ^ p \<and> emin \<le> e)"

lemma rne_of_int [simp]: "rne (of_int n) = n"
  by (simp add: rne_def)

lemma rne_near: "of_int (rne x) - 1/2 \<le> x \<and> x \<le> of_int (rne x) + 1/2"
proof -
  obtain f where f: "\<lfloor>x\<rfloor> = f" "of_int f \<le> x" "x < of_int f + 1" by (metis floor_correct of_int_1 of_int_add)
  then show ?thesis by (auto simp: rne_def Let_def field_simps)
qed

lemma rne_mono: assumes "x \<le> y" shows "rne x \<le> rne y"
proof (cases "\<lfloor>x\<rfloor> = \<lfloor>y\<rfloor>")
  case True
  with assms show ?thesis by (auto simp: rne_def Let_def)
next
  case False
  with assms have "\<lfloor>x\<rfloor> + 1 \<le> \<lfloor>y\<rfloor>" using floor_mono [OF assms] by linarith
  moreover have "rne x \<le> \<lfloor>x\<rfloor> + 1" and "\<lfloor>y\<rfloor> \<le> rne y"
    by (auto simp: rne_def Let_def)
  ultimately show ?thesis by linarith
qed

lemma rne_minus: "rne (- x) = - rne x"
proof (cases "x = of_int \<lfloor>x\<rfloor>")
  case True
  then obtain n where "x = of_int n" by blast
  then show ?thesis by (metis of_int_minus rne_of_int)
next
  case False
  then have "\<lfloor>- x\<rfloor> = - \<lfloor>x\<rfloor> - 1"
    using floor_correct [of x] by (intro floor_unique) (auto simp: algebra_simps le_less)
  then have eq: "rat_of_int \<lfloor>- x\<rfloor> = - rat_of_int \<lfloor>x\<rfloor> - 1"
    and par: "even \<lfloor>- x\<rfloor> \<longleftrightarrow> odd \<lfloor>x\<rfloor>" by simp_all
  show ?thesis
    unfolding rne_def Let_def par eq using \<open>\<lfloor>- x\<rfloor> = - \<lfloor>x\<rfloor> - 1\<close> by auto
qed

lemma ilog2_nonneg: "0 \<le> ilog2 n"
  by (induction n rule: ilog2.induct) (subst ilog2.simps, simp)

lemma ilog2_bounds:
  "1 \<le> n \<Longrightarrow> 2 ^ nat (ilog2 n) \<le> n \<and> n < 2 ^ nat (ilog2 n + 1)"
proof (induction n rule: ilog2.induct)
  case (1 n)
  show ?case
  proof (cases "n \<le> 1")
    case True
    with "1.prems" have "n = 1" by simp
    then show ?thesis by (simp add: ilog2.simps [of 1])
  next
    case False
    then have "2 ^ nat (ilog2 (n div 2)) \<le> n div 2 \<and> n div 2 < 2 ^ nat (ilog2 (n div 2) + 1)"
      using "1.IH" by simp
    moreover have "nat (1 + ilog2 (n div 2)) = Suc (nat (ilog2 (n div 2)))"
      and "nat (1 + ilog2 (n div 2) + 1) = Suc (nat (ilog2 (n div 2) + 1))"
      using ilog2_nonneg [of "n div 2"] by auto
    ultimately have "(2::int) ^ nat (ilog2 n) = 2 * 2 ^ nat (ilog2 (n div 2))"
      and "(2::int) ^ nat (ilog2 n + 1) = 2 * 2 ^ nat (ilog2 (n div 2) + 1)"
      and "2 ^ nat (ilog2 (n div 2)) \<le> n div 2" and "n div 2 < 2 ^ nat (ilog2 (n div 2) + 1)"
      using False by (simp_all add: ilog2.simps [of n])
    then show ?thesis by linarith
  qed
qed

lemma powi_nat: "0 \<le> e \<Longrightarrow> (2 :: rat) powi e = of_int (2 ^ nat e)"
  by (simp add: power_int_def)

lemma flog2_bounds:
  assumes "0 < x" shows "2 powi flog2 x \<le> x \<and> x < 2 powi (flog2 x + 1)"
proof (cases "1 \<le> x")
  case True
  then have f: "1 \<le> \<lfloor>x\<rfloor>" by simp
  have "of_int (2 ^ nat (ilog2 \<lfloor>x\<rfloor>)) \<le> x"
    using ilog2_bounds [OF f] by (metis le_floor_iff)
  moreover have "x < of_int (2 ^ nat (ilog2 \<lfloor>x\<rfloor> + 1))"
    using ilog2_bounds [OF f] by (metis floor_less_iff)
  ultimately show ?thesis
    using True ilog2_nonneg [of "\<lfloor>x\<rfloor>"] by (simp add: flog2_def powi_nat)
next
  case False
  define n where "n = \<lceil>1 / x\<rceil>"
  have gt: "1 < 1 / x" using False assms by simp
  then have n2: "2 \<le> n" unfolding n_def by linarith
  define k where "k = ilog2 (n - 1)"
  have k: "2 ^ nat k \<le> n - 1" "n - 1 < 2 ^ nat (k + 1)" "0 \<le> k"
    using ilog2_bounds [of "n - 1"] n2 ilog2_nonneg by (auto simp: k_def)
  have "1 / x \<le> of_int n" by (simp add: n_def)
  also have "\<dots> \<le> of_int (2 ^ nat (k + 1))" using k(2) by (intro of_int_le_iff [THEN iffD2]) simp
  also have "\<dots> = 2 powi (k + 1)" using k(3) by (simp add: powi_nat)
  finally have up: "1 / x \<le> 2 powi (k + 1)" .
  have "2 powi k = (of_int (2 ^ nat k) :: rat)" using k(3) by (simp add: powi_nat)
  also have "\<dots> \<le> of_int (n - 1)" using k(1) by (intro of_int_le_iff [THEN iffD2])
  also have "\<dots> < 1 / x" unfolding n_def by linarith
  finally have lo: "2 powi k < 1 / x" .
  have fl: "flog2 x = - (k + 1)" using False n2 by (simp add: flog2_def n_def k_def)
  have pos: "0 < (2::rat) powi (k + 1)" "0 < (2::rat) powi k" by simp_all
  have "inverse (2 powi (k + 1)) \<le> x" and "x < inverse (2 powi k)"
    using up lo assms pos by (simp_all add: field_simps)
  moreover have "- (k + 1) + 1 = - k" by simp
  ultimately show ?thesis unfolding fl by (simp only: power_int_minus)
qed

lemma powi_shift: "1 \<le> p \<Longrightarrow> (2::rat) powi (e + (int p - 1)) = of_int (2 ^ (p - 1)) * 2 powi e"
proof -
  have "(2::rat) powi (e + int k) = of_int (2 ^ k) * 2 powi e" for k :: nat
    by (simp add: power_int_add)
  from this [of "p - 1"] show "1 \<le> p \<Longrightarrow> ?thesis" by (simp add: of_nat_diff)
qed

lemma powi_mono: "i \<le> j \<Longrightarrow> (2::rat) powi i \<le> 2 powi j"
  by (rule power_int_increasing) auto

lemma flog2_mono: assumes "0 < x" "x \<le> y" shows "flog2 x \<le> flog2 y"
proof (rule ccontr)
  assume "\<not> flog2 x \<le> flog2 y"
  then have "(2::rat) powi (flog2 y + 1) \<le> 2 powi flog2 x" by (intro powi_mono) simp
  with flog2_bounds [of x] flog2_bounds [of y] assms show False by linarith
qed

lemma fround_0 [simp]: "fround p emin 0 = 0"
  by (simp add: fround_def)

lemma fround_minus: "fround p emin (- x) = - fround p emin x"
  by (simp add: fround_def Let_def rne_minus)

lemma fround_nonneg: assumes "0 \<le> x" shows "0 \<le> fround p emin x"
proof -
  have "rne 0 \<le> rne (x / 2 powi e)" for e using assms by (intro rne_mono) simp
  then show ?thesis using rne_of_int [of 0] by (simp add: fround_def Let_def)
qed

lemma fround_mono_pos:
  assumes p: "1 \<le> p" and x: "0 < x" "x \<le> y"
  shows "fround p emin x \<le> fround p emin y"
proof -
  define ex where "ex = max (flog2 x - (int p - 1)) emin"
  define ey where "ey = max (flog2 y - (int p - 1)) emin"
  have fx: "fround p emin x = of_int (rne (x / 2 powi ex)) * 2 powi ex"
    and fy: "fround p emin y = of_int (rne (y / 2 powi ey)) * 2 powi ey"
    using x by (simp_all add: fround_def ex_def ey_def Let_def)
  have le: "ex \<le> ey" using flog2_mono [OF x] by (auto simp: ex_def ey_def)
  show ?thesis
  proof (cases "ex = ey")
    case True
    have "rne (x / 2 powi ey) \<le> rne (y / 2 powi ey)"
      using x by (intro rne_mono) (simp add: divide_right_mono)
    then show ?thesis using True by (simp add: fx fy)
  next
    case False
    with le have lt: "ex + 1 \<le> ey" and ey: "ey = flog2 y - (int p - 1)"
      by (auto simp: ex_def ey_def)
    have "x < 2 powi (flog2 x + 1)" using flog2_bounds [OF x(1)] by blast
    also have "\<dots> \<le> 2 powi (ex + int p)" by (intro powi_mono) (auto simp: ex_def)
    finally have "x / 2 powi ex \<le> of_int (2 ^ p)"
      by (simp add: power_int_add field_simps)
    then have "rne (x / 2 powi ex) \<le> 2 ^ p"
      using rne_mono rne_of_int by metis
    then have "rat_of_int (rne (x / 2 powi ex)) \<le> 2 ^ p"
      using of_int_le_iff [of "rne (x / 2 powi ex)" "2 ^ p", where 'a = rat] by simp
    then have up: "fround p emin x \<le> 2 ^ p * 2 powi ex" by (simp add: fx mult_right_mono)
    have "2 powi (ey + (int p - 1)) \<le> y" using flog2_bounds [of y] x by (simp add: ey)
    moreover note powi_shift [OF p, of ey]
    ultimately have "of_int (2 ^ (p - 1)) \<le> y / 2 powi ey" by (simp add: field_simps)
    then have "2 ^ (p - 1) \<le> rne (y / 2 powi ey)"
      using rne_mono rne_of_int by metis
    then have "2 ^ (p - 1) \<le> rat_of_int (rne (y / 2 powi ey))"
      using of_int_le_iff [of "2 ^ (p - 1)" "rne (y / 2 powi ey)", where 'a = rat] by simp
    then have lo: "2 ^ (p - 1) * 2 powi ey \<le> fround p emin y" by (simp add: fy mult_right_mono)
    have "(2::rat) ^ p * 2 powi ex = 2 ^ (p - 1) * 2 powi (ex + 1)"
      using p by (cases p) (simp_all add: power_int_add)
    also have "\<dots> \<le> 2 ^ (p - 1) * 2 powi ey" using powi_mono [OF lt] by simp
    finally show ?thesis using up lo by linarith
  qed
qed

lemma fround_mono:
  assumes p: "1 \<le> p" and le: "x \<le> y" shows "fround p emin x \<le> fround p emin y"
proof -
  consider "0 < x" | "x \<le> 0" "0 \<le> y" | "y < 0" by linarith
  then show ?thesis
  proof cases
    case 1 then show ?thesis using fround_mono_pos [OF p] le by simp
  next
    case 2
    have "fround p emin x \<le> 0" using fround_nonneg [of "- x" p emin] 2 by (simp add: fround_minus)
    then show ?thesis using fround_nonneg [of y p emin] 2 by simp
  next
    case 3
    then have "fround p emin (- y) \<le> fround p emin (- x)" using fround_mono_pos [OF p] le by simp
    then show ?thesis by (simp add: fround_minus)
  qed
qed

lemma fround_exact_pos:
  assumes rep: "representable p emin x" and x: "0 < x" and p: "1 \<le> p"
  shows "fround p emin x = x"
proof -
  obtain m e where xm: "x = of_int m * 2 powi e" and m: "\<bar>m\<bar> \<le> 2 ^ p" and e: "emin \<le> e"
    using rep by (auto simp: representable_def)
  define ex where "ex = max (flog2 x - (int p - 1)) emin"
  have "\<exists>k. x / 2 powi ex = of_int k"
  proof (cases "ex \<le> e")
    case True
    then have "x / 2 powi ex = of_int (m * 2 ^ nat (e - ex))"
      using power_int_diff [of "2::rat" e ex] powi_nat [of "e - ex"] by (simp add: xm)
    then show ?thesis by blast
  next
    case False
    with e have ex: "ex = flog2 x - (int p - 1)" and gt: "e + 1 \<le> ex" by (auto simp: ex_def)
    have lo: "2 powi (ex + int p - 1) \<le> x" using flog2_bounds [OF x] by (simp add: ex)
    have "rat_of_int m \<le> 2 ^ p" using m of_int_le_iff [of m "2 ^ p", where 'a = rat] by simp
    then have "x \<le> 2 ^ p * 2 powi e" by (simp add: xm mult_right_mono)
    also have "\<dots> = 2 powi (int p + e)" by (simp add: power_int_add)
    finally have up: "x \<le> 2 powi (int p + e)" .
    have "\<not> int p + e < ex + int p - 1"
    proof
      assume "int p + e < ex + int p - 1"
      then have "(2::rat) powi (int p + e) < 2 powi (ex + int p - 1)"
        by (intro power_int_strict_increasing) auto
      with lo up show False by linarith
    qed
    with gt have eq: "ex = e + 1" by linarith
    with lo up have "x = 2 powi (ex + (int p - 1))" by (simp add: algebra_simps)
    also note powi_shift [OF p, of ex]
    finally have "x / 2 powi ex = of_int (2 ^ (p - 1))" by simp
    then show ?thesis by blast
  qed
  then obtain k where "x / 2 powi ex = of_int k" by blast
  then show ?thesis using x
    by (simp add: fround_def Let_def ex_def [symmetric]) (simp add: field_simps)
qed

lemma fround_exact:
  assumes p: "1 \<le> p" and rep: "representable p emin x" shows "fround p emin x = x"
proof -
  have "representable p emin (- x)" using rep unfolding representable_def
    by (metis abs_minus_cancel mult_minus_left of_int_minus)
  then show ?thesis
    using fround_exact_pos [OF rep _ p] fround_exact_pos [of p emin "- x", OF _ _ p]
    by (cases x "0 :: rat" rule: linorder_cases) (simp_all add: fround_minus)
qed

lemma representable_of_int: "emin \<le> 0 \<Longrightarrow> \<bar>n\<bar> \<le> 2 ^ p \<Longrightarrow> representable p emin (of_int n)"
  unfolding representable_def by (intro exI [of _ n] exI [of _ 0]) simp

lemma fround_representable:
  assumes p: "1 \<le> p" shows "representable p emin (fround p emin x)"
proof (cases "x = 0")
  case True
  then show ?thesis unfolding representable_def by (auto intro!: exI [of _ 0] exI [of _ emin])
next
  case False
  define e where "e = max (flog2 \<bar>x\<bar> - (int p - 1)) emin"
  have "\<bar>x\<bar> < 2 powi (flog2 \<bar>x\<bar> + 1)" using flog2_bounds [of "\<bar>x\<bar>"] False by simp
  also have "\<dots> \<le> 2 powi (e + int p)" by (intro powi_mono) (auto simp: e_def)
  finally have "\<bar>x\<bar> / 2 powi e \<le> of_int (2 ^ p)" by (simp add: power_int_add field_simps)
  then have "- of_int (2 ^ p) \<le> x / 2 powi e" "x / 2 powi e \<le> of_int (2 ^ p)"
    by (simp_all add: field_simps abs_le_iff)
  then have "- (2 ^ p) \<le> rne (x / 2 powi e)" "rne (x / 2 powi e) \<le> 2 ^ p"
    using rne_mono rne_of_int by (metis of_int_minus)+
  then show ?thesis unfolding representable_def using False
    by (intro exI [of _ "rne (x / 2 powi e)"] exI [of _ e]) (auto simp: fround_def Let_def e_def)
qed


lemma fround_error:
  assumes "\<bar>x\<bar> < 2 powi k" shows "\<bar>fround p emin x - x\<bar> \<le> 2 powi (max (k - int p) emin) / 2"
proof (cases "x = 0")
  case True
  then show ?thesis by simp
next
  case False
  define e where "e = max (flog2 \<bar>x\<bar> - (int p - 1)) emin"
  have "2 powi flog2 \<bar>x\<bar> \<le> \<bar>x\<bar>" using flog2_bounds [of "\<bar>x\<bar>"] False by simp
  then have "(2::rat) powi flog2 \<bar>x\<bar> < 2 powi k" using assms by linarith
  then have "flog2 \<bar>x\<bar> < k" using powi_mono [of k "flog2 \<bar>x\<bar>"] by linarith
  then have e: "(2::rat) powi e \<le> 2 powi (max (k - int p) emin)" by (intro powi_mono) (auto simp: e_def)
  have "\<bar>of_int (rne y) - y\<bar> \<le> 1/2" for y using rne_near [of y] unfolding abs_le_iff by linarith
  from this [of "x / 2 powi e"]
  have "\<bar>of_int (rne (x / 2 powi e)) - x / 2 powi e\<bar> \<le> 1/2" .
  then have "\<bar>of_int (rne (x / 2 powi e)) - x / 2 powi e\<bar> * 2 powi e \<le> 1/2 * 2 powi e"
    by (intro mult_right_mono) auto
  moreover have "\<bar>of_int (rne (x / 2 powi e)) - x / 2 powi e\<bar> * 2 powi e
      = \<bar>of_int (rne (x / 2 powi e)) * 2 powi e - x\<bar>"
    by (simp add: abs_mult_pos left_diff_distrib)
  ultimately show ?thesis using False e by (simp add: fround_def Let_def e_def [symmetric])
qed

lemma fround_relative_error:
  assumes "emin + int p \<le> 1" "1 \<le> \<bar>x\<bar>" shows "\<bar>fround p emin x - x\<bar> \<le> \<bar>x\<bar> / 2 ^ p"
proof -
  let ?k = "flog2 \<bar>x\<bar>"
  have b: "2 powi ?k \<le> \<bar>x\<bar>" "\<bar>x\<bar> < 2 powi (?k + 1)" using flog2_bounds [of "\<bar>x\<bar>"] assms by auto
  have "0 \<le> ?k" using flog2_mono [of 1 "\<bar>x\<bar>"] assms by (simp add: flog2_def [of 1] ilog2.simps)
  then have "max (?k + 1 - int p) emin = ?k + 1 - int p" using assms(1) by simp
  then have "\<bar>fround p emin x - x\<bar> \<le> 2 powi (?k + 1 - int p) / 2" using fround_error [OF b(2), of p emin] by simp
  also have "\<dots> = 2 powi ?k / 2 ^ p" by (simp add: power_int_add power_int_diff)
  also have "\<dots> \<le> \<bar>x\<bar> / 2 ^ p" using b(1) by (simp add: divide_right_mono)
  finally show ?thesis .
qed

section \<open>The contract of a rounding operation\<close>

locale rounding =
  fixes rnd :: "rat \<Rightarrow> rat"
    and repr :: "rat \<Rightarrow> bool"
  assumes mono: "x \<le> y \<Longrightarrow> rnd x \<le> rnd y"
    and exact: "repr x \<Longrightarrow> rnd x = x"
    and closed: "repr (rnd x)"
    and minus: "rnd (- x) = - rnd x"
    and ints: "\<bar>n\<bar> \<le> 2 ^ 24 \<Longrightarrow> repr (of_int n)"
begin

lemma lower: "repr a \<Longrightarrow> a \<le> x \<Longrightarrow> a \<le> rnd x"
  using mono [of a x] exact by simp

lemma upper: "repr a \<Longrightarrow> x \<le> a \<Longrightarrow> rnd x \<le> a"
  using mono [of x a] exact by simp

lemma zero [simp]: "rnd 0 = 0"
  using exact ints [of 0] by simp

lemma one [simp]: "rnd 1 = 1"
  using exact ints [of 1] by simp

lemma nat_exact: "n \<le> 2 ^ 24 \<Longrightarrow> rnd (of_nat n) = of_nat n"
  using exact [OF ints [of "int n"]] by simp

lemma int_exact: "\<bar>n\<bar> \<le> 2 ^ 24 \<Longrightarrow> rnd (of_int n) = of_int n"
  using exact ints by blast

lemma nonneg: "0 \<le> x \<Longrightarrow> 0 \<le> rnd x"
  using mono [of 0 x] by simp

lemma nonpos: "x \<le> 0 \<Longrightarrow> rnd x \<le> 0"
  using mono [of x 0] by simp

lemma idem [simp]: "rnd (rnd x) = rnd x"
  using exact closed by blast

lemma unit: "0 \<le> x \<Longrightarrow> x \<le> 1 \<Longrightarrow> 0 \<le> rnd x \<and> rnd x \<le> 1"
  using mono [of x 1] nonneg by simp

lemma abs_upper: "repr a \<Longrightarrow> \<bar>x\<bar> \<le> a \<Longrightarrow> \<bar>rnd x\<bar> \<le> a"
  using upper [of a x] upper [of a "- x"] by (auto simp: minus abs_le_iff)

end

definition is_f32 :: "rat \<Rightarrow> bool" where "is_f32 = representable 24 (- 149)"
definition is_f64 :: "rat \<Rightarrow> bool" where "is_f64 = representable 53 (- 1074)"

lemma representable_mono:
  "representable p e x \<Longrightarrow> p \<le> q \<Longrightarrow> e' \<le> e \<Longrightarrow> representable q e' x"
proof -
  assume a: "representable p e x" "p \<le> q" "e' \<le> e"
  then obtain m i where x: "x = of_int m * 2 powi i" "\<bar>m\<bar> \<le> 2 ^ p" "e \<le> i"
    by (auto simp: representable_def)
  have "(2::int) ^ p \<le> 2 ^ q" using a(2) by (intro power_increasing) auto
  with x a(3) show ?thesis unfolding representable_def
    by (intro exI [of _ m] exI [of _ i]) linarith
qed

lemma is_f32_is_f64: "is_f32 x \<Longrightarrow> is_f64 x"
  unfolding is_f32_def is_f64_def by (erule representable_mono) simp_all

interpretation single: rounding f32 is_f32
  by unfold_locales
    (simp_all add: f32_def is_f32_def fround_mono fround_exact fround_representable fround_minus
      representable_of_int)

interpretation double: rounding f64 is_f64
  by unfold_locales
    (auto simp: f64_def is_f64_def fround_mono fround_exact fround_representable fround_minus
      intro!: representable_of_int)

lemma representable_div_pow2:
  "\<bar>n\<bar> \<le> 2 ^ p \<Longrightarrow> emin \<le> - int k \<Longrightarrow> representable p emin (of_int n / 2 ^ k)"
  unfolding representable_def
  by (intro exI [of _ n] exI [of _ "- int k"]) (simp add: power_int_minus field_simps)

lemma f32_error: "\<bar>x\<bar> \<le> 1 \<Longrightarrow> \<bar>f32 x - x\<bar> \<le> 1 / 2 ^ 24"
  using fround_error [of x 1 24 "- 149"] by (simp add: f32_def power_int_def power_divide)

lemma f32_relative_error: "1 \<le> \<bar>x\<bar> \<Longrightarrow> \<bar>f32 x - x\<bar> \<le> \<bar>x\<bar> / 2 ^ 24"
  unfolding f32_def by (rule fround_relative_error) simp_all

lemma rne_unique: "\<bar>y - of_int m\<bar> < 1 / 2 \<Longrightarrow> rne y = m"
proof -
  assume "\<bar>y - of_int m\<bar> < 1 / 2"
  moreover note rne_near [of y]
  ultimately have "\<bar>rat_of_int (rne y) - of_int m\<bar> < 1" unfolding abs_less_iff by linarith
  then have "\<bar>rat_of_int (rne y - m)\<bar> < of_int 1" by simp
  then have "\<bar>rne y - m\<bar> < 1" by (simp only: of_int_abs [symmetric] of_int_less_iff)
  then show ?thesis by simp
qed

lemma flog2_unique: "0 < x \<Longrightarrow> 2 powi e \<le> x \<Longrightarrow> x < 2 powi (e + 1) \<Longrightarrow> flog2 x = e"
proof -
  assume x: "0 < x" "2 powi e \<le> x" "x < 2 powi (e + 1)"
  note b = flog2_bounds [OF x(1)]
  have "\<not> flog2 x + 1 \<le> e" using powi_mono [of "flog2 x + 1" e] b x by linarith
  moreover have "\<not> e + 1 \<le> flog2 x" using powi_mono [of "e + 1" "flog2 x"] b x by linarith
  ultimately show ?thesis by simp
qed

text \<open>A certificate for the value of a rounded operation that plain arithmetic can check.\<close>

lemma f64_value:
  assumes m: "2 ^ 52 < \<bar>m\<bar>" "\<bar>m\<bar> < 2 ^ 53" and k: "k \<le> 1074" and near: "\<bar>x * 2 ^ k - of_int m\<bar> < 1 / 2"
  shows "f64 x = of_int m / 2 ^ k"
proof -
  have m': "2 ^ 52 + 1 \<le> \<bar>rat_of_int m\<bar>" "\<bar>rat_of_int m\<bar> \<le> 2 ^ 53 - 1"
  proof -
    have "2 ^ 52 + 1 \<le> \<bar>m\<bar>" "\<bar>m\<bar> \<le> 2 ^ 53 - 1" using m by simp_all
    then have "rat_of_int (2 ^ 52 + 1) \<le> of_int \<bar>m\<bar>" "rat_of_int \<bar>m\<bar> \<le> of_int (2 ^ 53 - 1)"
      by (simp_all only: of_int_le_iff)
    then show "2 ^ 52 + 1 \<le> \<bar>rat_of_int m\<bar>" "\<bar>rat_of_int m\<bar> \<le> 2 ^ 53 - 1" by simp_all
  qed
  have "\<bar>rat_of_int m\<bar> - 1 / 2 \<le> \<bar>x * 2 ^ k\<bar>" "\<bar>x * 2 ^ k\<bar> \<le> \<bar>rat_of_int m\<bar> + 1 / 2"
    using near by linarith+
  with m' have b: "2 ^ 52 \<le> \<bar>x\<bar> * 2 ^ k" "\<bar>x\<bar> * 2 ^ k < 2 ^ 53"
    by (simp_all add: abs_mult)
  have pk: "2 powi (52 - int k) = (2 ^ 52 / 2 ^ k :: rat)" "2 powi (52 - int k + 1) = (2 ^ 53 / 2 ^ k :: rat)"
    by (simp_all add: power_int_diff power_int_add)
  have x0: "0 < \<bar>x\<bar>" using b(1) by (cases "x = 0") auto
  have "flog2 \<bar>x\<bar> = 52 - int k"
    using x0 b by (intro flog2_unique) (simp_all only: pk, simp_all add: field_simps)
  then have e: "max (flog2 \<bar>x\<bar> - (int 53 - 1)) (- 1074) = - int k" using k by simp
  have "x / 2 powi (- int k) = x * 2 ^ k" by (simp only: power_int_minus power_int_of_nat) (simp add: field_simps)
  with near have "rne (x / 2 powi (- int k)) = m" by (intro rne_unique) (simp only:)
  then show ?thesis
    using x0 unfolding f64_def fround_def Let_def e by (simp add: power_int_minus field_simps)
qed

section \<open>Conversions\<close>

definition ctrunc :: "rat \<Rightarrow> int" where
  "ctrunc x = (if 0 \<le> x then \<lfloor>x\<rfloor> else \<lceil>x\<rceil>)"

definition u16_of_double :: "rat \<Rightarrow> 16 word option" where
  "u16_of_double x = (let n = ctrunc x in if 0 \<le> n \<and> n < 2 ^ 16 then Some (word_of_int n) else None)"

lemma ctrunc_mono: "0 \<le> x \<Longrightarrow> x \<le> y \<Longrightarrow> ctrunc x \<le> ctrunc y"
  by (auto simp: ctrunc_def floor_mono)



end
