(* ===== verification/Frame.thy ===== *)
theory Frame
  imports Prelude
begin

text \<open>
  Images as functions of the row and the column, as in \<open>mask[y][x]\<close>, and the raster loops
  \<open>for (y ...) for (x ...)\<close> that all image operations share. An access outside the frame would be
  undefined in C; the operations below only access pixels inside it, which their frame lemmas show.
\<close>


type_synonym 'a image = "nat \<Rightarrow> nat \<Rightarrow> 'a"
type_synonym mask = "u8 image"

definition WIDTH :: nat where "WIDTH = 640"
definition HEIGHT :: nat where "HEIGHT = 480"

definition put_pixel :: "'a image \<Rightarrow> nat \<Rightarrow> nat \<Rightarrow> 'a \<Rightarrow> 'a image" where
  "put_pixel im y x v = im(y := (im y)(x := v))"

definition raster :: "nat list \<Rightarrow> nat list \<Rightarrow> (nat \<Rightarrow> nat \<Rightarrow> 's \<Rightarrow> 's) \<Rightarrow> 's \<Rightarrow> 's" where
  "raster ys xs body = fold (\<lambda>y. fold (\<lambda>x. body y x) xs) ys"

lemma put_pixel_apply [simp]:
  "put_pixel im y x v y' x' = (if y' = y \<and> x' = x then v else im y' x')"
  by (simp add: put_pixel_def)

lemma fold_row:
  "fold (\<lambda>x im. put_pixel im y x (f x)) xs im y' x' =
     (if y' = y \<and> x' \<in> set xs then f x' else im y' x')"
  by (induction xs arbitrary: im) auto

lemma raster_put_pixel:
  "raster ys xs (\<lambda>y x im. put_pixel im y x (f y x)) im y' x' =
     (if y' \<in> set ys \<and> x' \<in> set xs then f y' x' else im y' x')"
  unfolding raster_def by (induction ys arbitrary: im) (auto simp: fold_row)

lemma raster_product:
  "raster ys xs body s = fold (\<lambda>(y, x). body y x) (List.product ys xs) s"
  unfolding raster_def by (induction ys arbitrary: s) (simp_all add: fold_map comp_def)

lemma fold_row_update:
  "distinct xs \<Longrightarrow> fold (\<lambda>x im. put_pixel im y x (f y x (im y x))) xs im y' x' =
     (if y' = y \<and> x' \<in> set xs then f y' x' (im y' x') else im y' x')"
  by (induction xs arbitrary: im) auto

lemma raster_update:
  "distinct ys \<Longrightarrow> distinct xs \<Longrightarrow>
   raster ys xs (\<lambda>y x im. put_pixel im y x (f y x (im y x))) im y' x' =
     (if y' \<in> set ys \<and> x' \<in> set xs then f y' x' (im y' x') else im y' x')"
  unfolding raster_def by (induction ys arbitrary: im) (auto simp: fold_row_update)

lemma fold_two_rows:
  "fold (\<lambda>x im. put_pixel (put_pixel im a x v) b x v) xs im y' x' =
     (if (y' = a \<or> y' = b) \<and> x' \<in> set xs then v else im y' x')"
  by (induction xs arbitrary: im) auto

lemma fold_two_columns:
  "fold (\<lambda>y im. put_pixel (put_pixel im y a v) y b v) ys im y' x' =
     (if (x' = a \<or> x' = b) \<and> y' \<in> set ys then v else im y' x')"
  by (induction ys arbitrary: im) auto



end
