(* ===== verification/Com_Calculator.thy ===== *)
theory Com_Calculator
  imports Machine_Floats Frame Spsc_Queue
begin

text \<open>
  \<open>calculate_com\<close> (com_calculator.c:15-43) with its 32-bit sums and single precision quotients,
  and the hand-over of the result with the overflow path (com_calculator.c:69-76).
\<close>


definition MIN_GREEN_PIXELS :: u32 where
  "MIN_GREEN_PIXELS = 1000"

record com_sums =
  sum_x :: u32
  sum_y :: u32
  green_count :: u32

definition com_pixel :: "mask \<Rightarrow> nat \<Rightarrow> nat \<Rightarrow> com_sums \<Rightarrow> com_sums" where
  "com_pixel m y x s =
     (if m y x \<noteq> 0
      then s\<lparr>sum_x := sum_x s + of_nat x, sum_y := sum_y s + of_nat y, green_count := green_count s + 1\<rparr>
      else s)"

definition com_sums_of :: "nat \<Rightarrow> nat \<Rightarrow> mask \<Rightarrow> com_sums" where
  "com_sums_of H W m =
     raster [0..<H] [0..<W] (com_pixel m) \<lparr>sum_x = 0, sum_y = 0, green_count = 0\<rparr>"

definition float_of_ulong :: "u32 \<Rightarrow> rat" where
  "float_of_ulong n = f32 (of_nat (unat n))"

definition calculate_com :: "nat \<Rightarrow> nat \<Rightarrow> mask \<Rightarrow> COM" where
  "calculate_com H W m =
     (let s = com_sums_of H W m
      in if green_count s \<ge> MIN_GREEN_PIXELS
         then \<lparr>com_x = f32 (float_of_ulong (sum_x s) / float_of_ulong (green_count s)),
               com_y = f32 (float_of_ulong (sum_y s) / float_of_ulong (green_count s))\<rparr>
         else \<lparr>com_x = -1, com_y = -1\<rparr>)"

definition com_publish :: "SPSCQueue \<Rightarrow> COM \<Rightarrow> SPSCQueue" where
  "com_publish q v =
     (case spsc_enqueue q v of (q1, ok) \<Rightarrow>
        if \<not> ok
        then (case spsc_dequeue q1 \<lparr>com_x = 0, com_y = 0\<rparr> of (q2, discarded_com, _) \<Rightarrow> fst (spsc_enqueue q2 v))
        else q1)"

text \<open>One round of the thread after it has taken a mask, with the stop flag as it reads it at the end.\<close>

datatype com_action = Send_Com COM | Unlock_Mutex

definition com_iteration ::
    "nat \<Rightarrow> nat \<Rightarrow> mask \<Rightarrow> bool \<Rightarrow> SPSCQueue \<Rightarrow> SPSCQueue \<times> com_action list \<times> bool" where
  "com_iteration H W m stop_image_processing q =
     (let value = calculate_com H W m;
          q = com_publish q value
      in if stop_image_processing then (q, [Send_Com value, Unlock_Mutex], False)
         else (q, [Send_Com value], True))"

fun com_thread :: "nat \<Rightarrow> nat \<Rightarrow> (mask \<times> bool) list \<Rightarrow> SPSCQueue \<Rightarrow> SPSCQueue \<times> com_action list \<times> bool" where
  "com_thread H W [] q = (q, [], True)"
| "com_thread H W ((m, stop) # ms) q =
     (case com_iteration H W m stop q of (q, acts, go) \<Rightarrow>
        if go then (case com_thread H W ms q of (q, acts', go) \<Rightarrow> (q, acts @ acts', go))
        else (q, acts, False))"

section \<open>The sums\<close>

definition green_pixels :: "nat \<Rightarrow> nat \<Rightarrow> mask \<Rightarrow> (nat \<times> nat) set" where
  "green_pixels H W m = {(y, x). y < H \<and> x < W \<and> m y x \<noteq> 0}"

lemma finite_green_pixels [simp]: "finite (green_pixels H W m)"
  by (rule finite_subset [of _ "{..<H} \<times> {..<W}"]) (auto simp: green_pixels_def)

lemma card_green_pixels: "card (green_pixels H W m) \<le> H * W"
proof -
  have "card (green_pixels H W m) \<le> card ({..<H} \<times> {..<W})" by (intro card_mono) (auto simp: green_pixels_def)
  then show ?thesis by simp
qed

lemma fold_com_pixel:
  "fold (\<lambda>(y, x). com_pixel m y x) ps s =
     (let gs = filter (\<lambda>(y, x). m y x \<noteq> 0) ps
      in s\<lparr>sum_x := sum_x s + of_nat (sum_list (map snd gs)),
           sum_y := sum_y s + of_nat (sum_list (map fst gs)),
           green_count := green_count s + of_nat (length gs)\<rparr>)"
  by (induction ps arbitrary: s) (auto simp: com_pixel_def Let_def algebra_simps)

lemma com_sums_of_eq:
  "com_sums_of H W m =
     \<lparr>sum_x = of_nat (\<Sum>p \<in> green_pixels H W m. snd p),
      sum_y = of_nat (\<Sum>p \<in> green_pixels H W m. fst p),
      green_count = of_nat (card (green_pixels H W m))\<rparr>"
proof -
  let ?ps = "List.product [0..<H] [0..<W]"
  let ?gs = "filter (\<lambda>(y, x). m y x \<noteq> 0) ?ps"
  have d: "distinct ?gs" by (intro distinct_filter distinct_product) simp_all
  have s: "set ?gs = green_pixels H W m" by (auto simp: green_pixels_def)
  have "com_sums_of H W m = fold (\<lambda>(y, x). com_pixel m y x) ?ps \<lparr>sum_x = 0, sum_y = 0, green_count = 0\<rparr>"
    unfolding com_sums_of_def by (rule raster_product)
  then show ?thesis
    unfolding fold_com_pixel Let_def sum_list_distinct_conv_sum_set [OF d]
      distinct_card [OF d, symmetric] s by simp
qed

lemma unat_of_nat_small: "n < 2 ^ 32 \<Longrightarrow> unat (of_nat n :: u32) = n"
  by (simp add: unat_of_nat)

lemma sum_x_le: "(\<Sum>p \<in> green_pixels H W m. snd p) \<le> card (green_pixels H W m) * (W - 1)"
  using sum_bounded_above [of "green_pixels H W m" snd "W - 1"] by (fastforce simp: green_pixels_def)

lemma sum_y_le: "(\<Sum>p \<in> green_pixels H W m. fst p) \<le> card (green_pixels H W m) * (H - 1)"
  using sum_bounded_above [of "green_pixels H W m" fst "H - 1"] by (fastforce simp: green_pixels_def)

lemma frame_sums:
  fixes m :: mask
  assumes "H \<le> 480" "W \<le> 640"
  defines "G \<equiv> green_pixels H W m"
  shows "unat (sum_x (com_sums_of H W m)) = (\<Sum>p \<in> G. snd p)"
    and "unat (sum_y (com_sums_of H W m)) = (\<Sum>p \<in> G. fst p)"
    and "unat (green_count (com_sums_of H W m)) = card G"
    and "card G \<le> 307200" "(\<Sum>p \<in> G. snd p) \<le> card G * 639" "(\<Sum>p \<in> G. fst p) \<le> card G * 479"
proof -
  have "H * W \<le> 480 * 640" using assms(1,2) by (intro mult_le_mono)
  then show c: "card G \<le> 307200" using card_green_pixels [of H W m] unfolding G_def by simp
  have "card G * (W - 1) \<le> card G * 639" "card G * (H - 1) \<le> card G * 479"
    using assms(1,2) by (auto intro: mult_le_mono)
  then show x: "(\<Sum>p \<in> G. snd p) \<le> card G * 639" and y: "(\<Sum>p \<in> G. fst p) \<le> card G * 479"
    using sum_x_le [of H W m] sum_y_le [of H W m] unfolding G_def by linarith+
  show "unat (sum_x (com_sums_of H W m)) = (\<Sum>p \<in> G. snd p)"
    "unat (sum_y (com_sums_of H W m)) = (\<Sum>p \<in> G. fst p)"
    "unat (green_count (com_sums_of H W m)) = card G"
    unfolding com_sums_of_eq G_def [symmetric] com_sums.select_convs
    using c x y by (intro unat_of_nat_small; simp)+
qed

section \<open>Accuracy of the single precision quotient\<close>

lemma f32_quotient:
  fixes s c k :: nat
  assumes "s \<le> c * k" "1 \<le> c" "c \<le> 307200" "k \<le> 639"
  defines "q \<equiv> f32 (f32 (of_nat s) / f32 (of_nat c))"
  shows "0 \<le> q" "q \<le> of_nat k + 1/2" "\<bar>q - of_nat s / of_nat c\<bar> \<le> 1 / 2 ^ 13"
proof -
  have c: "f32 (of_nat c) = of_nat c" using assms by (intro single.nat_exact) simp
  have c0: "1 \<le> (of_nat c :: rat)" using assms(2) of_nat_le_iff [of 1 c, where 'a = rat] by simp
  have k: "0 \<le> rat_of_nat k" "rat_of_nat k \<le> 639"
    using assms(4) of_nat_le_iff [of k 639, where 'a = rat] by simp_all
  have "rat_of_nat s \<le> of_nat (c * k)" using assms(1) by (simp only: of_nat_le_iff)
  then have sk: "rat_of_nat s / of_nat c \<le> of_nat k" using c0 by (simp add: field_simps)
  have es: "\<bar>f32 (of_nat s) - of_nat s\<bar> \<le> of_nat s / 2 ^ 24"
  proof (cases s)
    case (Suc n)
    then show ?thesis using f32_relative_error [of "of_nat s"] by simp
  qed simp
  define r where "r = f32 (of_nat s) / of_nat c"
  have "\<bar>r - of_nat s / of_nat c\<bar> = \<bar>f32 (of_nat s) - of_nat s\<bar> / of_nat c"
    using c0 by (simp add: r_def diff_divide_distrib [symmetric])
  also have "\<dots> \<le> of_nat s / 2 ^ 24 / of_nat c" using es c0 by (intro divide_right_mono) simp_all
  also have "\<dots> \<le> of_nat k / 2 ^ 24" using sk by (simp add: field_simps)
  finally have er: "\<bar>r - of_nat s / of_nat c\<bar> \<le> of_nat k / 2 ^ 24" .
  have r0: "0 \<le> r" unfolding r_def using c0 by (intro divide_nonneg_nonneg single.nonneg) simp_all
  have q: "q = f32 r" by (simp add: q_def c r_def)
  show "0 \<le> q" unfolding q by (rule single.nonneg [OF r0])
  have "r \<le> of_nat k + of_nat k / 2 ^ 24" using er sk unfolding abs_le_iff by linarith
  then have rk: "r \<le> of_int (2 * int k + 1) / 2 ^ 1" using k by (simp add: field_simps)
  have "is_f32 (of_int (2 * int k + 1) / 2 ^ 1)"
    unfolding is_f32_def using assms(4) by (intro representable_div_pow2) auto
  from single.upper [OF this rk] show "q \<le> of_nat k + 1/2" by (simp add: q field_simps)
  have "\<bar>r\<bar> < 2 powi 10" using r0 rk k by (simp add: power_int_def)
  from fround_error [OF this, of 24 "- 149"] have "\<bar>q - r\<bar> \<le> 1 / 2 ^ 15"
    by (simp add: q f32_def power_int_def power_divide)
  moreover have "rat_of_nat k / 2 ^ 24 \<le> 639 / 2 ^ 24" using k(2) by (intro divide_right_mono) simp_all
  moreover have "\<bar>q - of_nat s / of_nat c\<bar> \<le> \<bar>q - r\<bar> + \<bar>r - of_nat s / of_nat c\<bar>" by linarith
  ultimately show "\<bar>q - of_nat s / of_nat c\<bar> \<le> 1 / 2 ^ 13" using er by simp
qed

section \<open>The centre of mass of a frame\<close>

definition centroid :: "(nat \<times> nat) set \<Rightarrow> rat \<times> rat" where
  "centroid G = (of_nat (\<Sum>p \<in> G. snd p) / of_nat (card G), of_nat (\<Sum>p \<in> G. fst p) / of_nat (card G))"

lemma green_count_ge:
  fixes m :: mask
  assumes "H \<le> 480" "W \<le> 640"
  shows "green_count (com_sums_of H W m) \<ge> MIN_GREEN_PIXELS \<longleftrightarrow> 1000 \<le> card (green_pixels H W m)"
  using frame_sums(3) [OF assms, of m] by (simp add: word_le_nat_alt MIN_GREEN_PIXELS_def)

lemma calculate_com_value:
  fixes m :: mask
  assumes "H \<le> 480" "W \<le> 640"
  defines "G \<equiv> green_pixels H W m"
  shows "calculate_com H W m =
     (if 1000 \<le> card G
      then \<lparr>com_x = f32 (f32 (of_nat (\<Sum>p \<in> G. snd p)) / f32 (of_nat (card G))),
            com_y = f32 (f32 (of_nat (\<Sum>p \<in> G. fst p)) / f32 (of_nat (card G)))\<rparr>
      else \<lparr>com_x = -1, com_y = -1\<rparr>)"
  using frame_sums(1-3) [OF assms(1,2), of m] green_count_ge [OF assms(1,2), of m]
  by (simp add: calculate_com_def Let_def float_of_ulong_def G_def)

lemma com_publish_contents:
  assumes "spsc_wf q"
  shows "spsc_wf (com_publish q v)
    \<and> spsc_contents (com_publish q v) =
        (if length (spsc_contents q) = 255 then List.tl (spsc_contents q) else spsc_contents q) @ [v]"
proof (cases "spsc_put q v")
  case (Some q')
  then have "com_publish q v = q'"
    by (auto simp: spsc_put_def com_publish_def split: prod.splits if_splits)
  moreover have "length (spsc_contents q) \<noteq> 255" using spsc.put_None [OF assms, of v] Some by auto
  ultimately show ?thesis using spsc.put_Some [OF assms Some] by simp
next
  case None
  have full: "length (spsc_contents q) = 255" using spsc.put_None [OF assms] None by blast
  then obtain x xs where c: "spsc_contents q = x # xs" by (cases "spsc_contents q") auto
  obtain q2 where q2: "spsc_dequeue q \<lparr>com_x = 0, com_y = 0\<rparr> = (q2, x, True)" "spsc_wf q2" "spsc_contents q2 = xs"
    using spsc_dequeue_ok [OF assms c] by metis
  have "spsc_count q2 \<noteq> 255" using full c q2(3) length_spsc_contents [of q2] by simp
  then obtain q3 where "spsc_enqueue q2 v = (q3, True)" "spsc_wf q3" "spsc_contents q3 = xs @ [v]"
    using spsc_enqueue_ok [OF q2(2), of v] q2(3) by metis
  moreover have "spsc_enqueue q v = (q, False)"
    using spsc_enqueue_full [OF assms] full by (simp add: length_spsc_contents)
  ultimately show ?thesis using q2 full c by (simp add: com_publish_def)
qed

lemma calculate_com_close:
  fixes m :: mask
  assumes "H \<le> 480" "W \<le> 640"
  defines "G \<equiv> green_pixels H W m"
  assumes c: "1000 \<le> card G"
  shows "\<bar>com_x (calculate_com H W m) - fst (centroid G)\<bar> \<le> 1 / 2 ^ 13"
    and "\<bar>com_y (calculate_com H W m) - snd (centroid G)\<bar> \<le> 1 / 2 ^ 13"
    and "0 \<le> com_x (calculate_com H W m)" "com_x (calculate_com H W m) < 640"
    and "0 \<le> com_y (calculate_com H W m)" "com_y (calculate_com H W m) < 480"
proof -
  note s = frame_sums(4-6) [OF assms(1,2), of m, folded G_def]
  have c1: "1 \<le> card G" using c by simp
  have k: "(639 :: nat) \<le> 639" "(479 :: nat) \<le> 639" by simp_all
  note q = f32_quotient [OF s(2) c1 s(1) k(1)] f32_quotient [OF s(3) c1 s(1) k(2)]
  show "\<bar>com_x (calculate_com H W m) - fst (centroid G)\<bar> \<le> 1 / 2 ^ 13"
    "\<bar>com_y (calculate_com H W m) - snd (centroid G)\<bar> \<le> 1 / 2 ^ 13"
    "0 \<le> com_x (calculate_com H W m)" "com_x (calculate_com H W m) < 640"
    "0 \<le> com_y (calculate_com H W m)" "com_y (calculate_com H W m) < 480"
    using c calculate_com_value [OF assms(1,2), of m] q by (simp_all add: G_def [symmetric] centroid_def)
qed

section \<open>The rounds of the thread\<close>

fun until_stop :: "(mask \<times> bool) list \<Rightarrow> mask list" where
  "until_stop [] = []"
| "until_stop ((m, stop) # ms) = m # (if stop then [] else until_stop ms)"

lemma com_thread_result:
  "com_thread H W ms q =
     (fold (\<lambda>m q. com_publish q (calculate_com H W m)) (until_stop ms) q,
      map (\<lambda>m. Send_Com (calculate_com H W m)) (until_stop ms)
        @ (if list_ex snd ms then [Unlock_Mutex] else []),
      \<not> list_ex snd ms)"
  by (induction H W ms q rule: com_thread.induct) (auto simp: com_iteration_def Let_def)

lemma com_thread_queue:
  "spsc_wf q \<Longrightarrow> length (spsc_contents q) + length (until_stop ms) \<le> 255 \<Longrightarrow>
   spsc_contents (fst (com_thread H W ms q)) = spsc_contents q @ map (calculate_com H W) (until_stop ms)"
proof -
  have "spsc_wf q \<Longrightarrow> length (spsc_contents q) + length xs \<le> 255 \<Longrightarrow>
      spsc_contents (fold (\<lambda>m q. com_publish q (calculate_com H W m)) xs q)
        = spsc_contents q @ map (calculate_com H W) xs" for xs
    by (induction xs arbitrary: q) (auto simp: com_publish_contents)
  then show "spsc_wf q \<Longrightarrow> length (spsc_contents q) + length (until_stop ms) \<le> 255 \<Longrightarrow> ?thesis"
    by (simp add: com_thread_result)
qed

section \<open>Properties\<close>

text \<open>
  C19: on a frame of at most 640 by 480 pixels the unsigned sums do not wrap; with fewer than 1000 set
  pixels the result is (-1, -1); otherwise both coordinates are within 1/8192 of a pixel of the exact
  centroid of the set pixels and inside the frame.
\<close>

theorem calculate_com_accuracy:
  fixes m :: mask
  assumes "H \<le> 480" "W \<le> 640"
  defines "G \<equiv> green_pixels H W m"
  shows "if 1000 \<le> card G
         then \<bar>com_x (calculate_com H W m) - fst (centroid G)\<bar> \<le> 1 / 2 ^ 13
            \<and> \<bar>com_y (calculate_com H W m) - snd (centroid G)\<bar> \<le> 1 / 2 ^ 13
            \<and> 0 \<le> com_x (calculate_com H W m) \<and> com_x (calculate_com H W m) < 640
            \<and> 0 \<le> com_y (calculate_com H W m) \<and> com_y (calculate_com H W m) < 480
         else calculate_com H W m = \<lparr>com_x = -1, com_y = -1\<rparr>"
proof (cases "1000 \<le> card G")
  case True
  then show ?thesis using calculate_com_close [OF assms(1,2), of m] by (simp add: G_def)
next
  case False
  then show ?thesis using calculate_com_value [OF assms(1,2), of m] by (simp add: G_def)
qed

theorem calculate_com_accuracy_witness:
  "\<bar>com_x (calculate_com 40 40 (\<lambda>y x. 1)) - 39 / 2\<bar> \<le> 1 / 2 ^ 13"
proof -
  have G: "green_pixels 40 40 (\<lambda>y x. 1) = {..<40} \<times> {..<40}" by (auto simp: green_pixels_def)
  have "(\<Sum>i<40. i) = (780 :: nat)" by code_simp
  moreover have "(\<Sum>p \<in> {..<40 :: nat} \<times> {..<40}. snd p) = (\<Sum>x<40::nat. \<Sum>y<40. y :: nat)"
    by (simp only: sum.cartesian_product case_prod_unfold snd_conv)
  ultimately have "(\<Sum>p \<in> {..<40 :: nat} \<times> {..<40}. snd p) = (31200 :: nat)" by simp
  then have c: "fst (centroid ({..<40} \<times> {..<40})) = 39 / 2"
    by (simp only: centroid_def card_cartesian_product card_lessThan) simp
  have k: "1000 \<le> card ({..<40 :: nat} \<times> {..<40 :: nat})" by simp
  have "\<bar>com_x (calculate_com 40 40 (\<lambda>y x. 1)) - fst (centroid ({..<40} \<times> {..<40}))\<bar> \<le> 1 / 2 ^ 13"
    using calculate_com_accuracy [of 40 40 "\<lambda>y x. 1", unfolded G if_P [OF k]] by simp
  then show ?thesis unfolding c .
qed



end
