(* ===== verification/Data_Path.thy ===== *)
theory Data_Path
  imports Mask_Queue Spsc_Concurrent Com_Calculator
begin

text \<open>
  The way of the data through the three threads: the green mask thread puts masks into the queue
  (green_mask.c:300-314), the centre of mass thread takes them out, computes the centre and publishes it in
  the ring (com_calculator.c:55-76), the control thread takes it from there (main.c:155). The state is the
  product of \<open>Mask_Queue\<close> and \<open>Spsc_Concurrent\<close>, a step is one step of either, so the ring is interleaved at
  every memory access. The centre of mass thread is at the queue while its side of the ring is idle; with
  \<open>dp_publish\<close> it turns to the ring and it returns to the queue when the call is finished. \<open>overflowed\<close>
  records that the overflow path (com_calculator.c:72-76) has been taken. Neither thread is stopped here.
\<close>


section \<open>The three threads\<close>

record data_path =
  pipe :: "mask pipeline"
  ring :: spsc_sys
  overflowed :: bool

fun starts_fallback :: "prod_pc \<Rightarrow> bool" where
  "starts_fallback (F_Start v) = True"
| "starts_fallback p = False"

inductive dp_step :: "nat \<Rightarrow> nat \<Rightarrow> data_path \<Rightarrow> data_path \<Rightarrow> bool" for H W where
  dp_green: "green_mask_step (pipe s) t \<Longrightarrow> dp_step H W s (s\<lparr>pipe := t\<rparr>)"
| dp_take: "com_calculator_step (pipe s) t \<Longrightarrow> consumer (pipe s) = C_Want \<or> consumer (pipe s) = C_Hold \<Longrightarrow>
     prod (ring s) = P_Idle \<Longrightarrow> dp_step H W s (s\<lparr>pipe := t\<rparr>)"
| dp_publish: "consumer (pipe s) = C_Work m \<Longrightarrow> com_calculator_step (pipe s) t \<Longrightarrow> prod (ring s) = P_Idle \<Longrightarrow>
     dp_step H W s (s\<lparr>pipe := t,
       ring := (ring s)\<lparr>prod := P_Head False (calculate_com H W m) (head (queue (ring s)))\<rparr>\<rparr>)"
| dp_ring: "com_step (ring s) r \<Longrightarrow> prod (ring s) \<noteq> P_Idle \<or> prod r = P_Idle \<Longrightarrow>
     dp_step H W s (s\<lparr>ring := r, overflowed := overflowed s \<or> starts_fallback (prod r)\<rparr>)"
| dp_wake: "spurious_wakeup (pipe s) t \<Longrightarrow> dp_step H W s (s\<lparr>pipe := t\<rparr>)"

definition dp_start :: "SPSCQueue \<Rightarrow> mask list \<Rightarrow> data_path" where
  "dp_start q init = \<lparr>pipe = start_pipeline init, ring = start_sys q, overflowed = False\<rparr>"

inductive dp_reachable :: "nat \<Rightarrow> nat \<Rightarrow> SPSCQueue \<Rightarrow> mask list \<Rightarrow> data_path \<Rightarrow> bool" for H W q init where
  dp_init: "dp_reachable H W q init (dp_start q init)"
| dp_run: "dp_reachable H W q init s \<Longrightarrow> dp_step H W s t \<Longrightarrow> dp_reachable H W q init t"

section \<open>Without overflow\<close>

fun publishing :: "prod_pc \<Rightarrow> COM list" where
  "publishing (P_Head again v h) = [v]"
| "publishing (P_Tail again v h t) = [v]"
| "publishing (P_Full again v) = [v]"
| "publishing (P_Store v h) = [v]"
| "publishing p = []"

fun working :: "(mask \<Rightarrow> COM) \<Rightarrow> mask consumer_pc \<Rightarrow> COM list" where
  "working f (C_Work m) = [f m]"
| "working f c = []"

fun first_try :: "prod_pc \<Rightarrow> bool" where
  "first_try P_Idle = True"
| "first_try (P_Head again v h) = (\<not> again)"
| "first_try (P_Tail again v h t) = (\<not> again)"
| "first_try (P_Full again v) = (\<not> again)"
| "first_try (P_Store v h) = True"
| "first_try p = False"

definition order_inv :: "nat \<Rightarrow> nat \<Rightarrow> data_path \<Rightarrow> bool" where
  "order_inv H W s \<longleftrightarrow>
     spsc_inv (ring s) \<and> first_try (prod (ring s))
     \<and> (prod (ring s) = P_Idle \<or> consumer (pipe s) = C_Want)
     \<and> map (calculate_com H W) (received (pipe s)) =
         pushed (ring s) @ publishing (prod (ring s)) @ working (calculate_com H W) (consumer (pipe s))"

lemma working_signal [simp]: "working f (signal_not_empty c) = working f c"
  by (cases c) auto

lemma want_signal [simp]: "c = C_Want \<Longrightarrow> signal_not_empty c = C_Want"
  by simp

lemma green_frame:
  "green_mask_step t u \<Longrightarrow> received u = received t \<and> working f (consumer u) = working f (consumer t)
     \<and> (consumer t = C_Want \<longrightarrow> consumer u = C_Want)"
  by (induction rule: green_mask_step.induct) auto

lemma wake_frame:
  "spurious_wakeup t u \<Longrightarrow> received u = received t \<and> working f (consumer u) = working f (consumer t)
     \<and> (consumer t = C_Want \<longrightarrow> consumer u = C_Want)"
  by (induction rule: spurious_wakeup.induct) auto

lemma take_frame:
  "com_calculator_step t u \<Longrightarrow> consumer t = C_Want \<or> consumer t = C_Hold \<Longrightarrow>
     map f (received u) = map f (received t) @ working f (consumer u)"
  by (induction rule: com_calculator_step.induct) auto

lemma done_frame:
  "com_calculator_step t u \<Longrightarrow> consumer t = C_Work m \<Longrightarrow> received u = received t \<and> consumer u = C_Want"
  by (induction rule: com_calculator_step.induct) auto

lemma ring_frame:
  "com_step r u \<Longrightarrow> first_try (prod r) \<Longrightarrow> prod r \<noteq> P_Idle \<or> prod u = P_Idle \<Longrightarrow> \<not> starts_fallback (prod u) \<Longrightarrow>
     spsc_inv r \<Longrightarrow>
     spsc_inv u \<and> first_try (prod u) \<and> pushed u @ publishing (prod u) = pushed r @ publishing (prod r)
     \<and> (prod r = P_Idle \<longrightarrow> prod u = P_Idle)"
proof (induction rule: com_step.induct)
  case (com_api r u)
  from api_step_inv [OF com_api.hyps com_api.prems(4)]
  show ?case using com_api by (auto elim!: api_step.cases)
qed auto

lemma order_step:
  assumes "dp_step H W s t" "order_inv H W s" "\<not> overflowed t"
  shows "order_inv H W t \<and> \<not> overflowed s"
  using assms
proof (induction rule: dp_step.induct)
  case (dp_green s t)
  then show ?case using green_frame [of "pipe s" t] by (auto simp: order_inv_def)
next
  case (dp_take s t)
  then have "working (calculate_com H W) (consumer (pipe s)) = []" by auto
  with dp_take take_frame [of "pipe s" t "calculate_com H W"] show ?case by (simp add: order_inv_def)
next
  case (dp_publish s m t)
  then show ?case using done_frame [of "pipe s" t m]
    by (cases "cons (ring s)") (auto simp: order_inv_def spsc_inv_def)
next
  case (dp_ring s r)
  then have f: "first_try (prod (ring s))" "spsc_inv (ring s)" "\<not> starts_fallback (prod r)"
    by (simp_all add: order_inv_def)
  note r = ring_frame [OF dp_ring.hyps(1) f(1) dp_ring.hyps(2) f(3,2)]
  then have "pushed r @ publishing (prod r) @ ws = pushed (ring s) @ publishing (prod (ring s)) @ ws" for ws
    by (metis append_assoc)
  with r dp_ring show ?case by (auto simp: order_inv_def)
next
  case (dp_wake s t)
  then show ?case using wake_frame [of "pipe s" t] by (auto simp: order_inv_def)
qed

lemma dp_mq_inv:
  "dp_reachable H W q init s \<Longrightarrow> length init = GREEN_MASK_QUEUE_SIZE \<Longrightarrow> mq_inv (pipe s)"
proof (induction rule: dp_reachable.induct)
  case dp_init
  then show ?case by (simp add: dp_start_def mq_inv_start)
next
  case (dp_run s t)
  from dp_run.hyps(2) dp_run.IH [OF dp_run.prems] show ?case
    by (induction rule: dp_step.induct) (auto intro: green_mask_inv com_calculator_inv spurious_inv)
qed

lemma order_reachable:
  "dp_reachable H W q init s \<Longrightarrow> length (buffer q) = 256 \<Longrightarrow> \<not> overflowed s \<Longrightarrow> order_inv H W s"
proof (induction rule: dp_reachable.induct)
  case dp_init
  then show ?case using spsc_inv_start [of q] by (simp add: order_inv_def dp_start_def start_sys_def start_pipeline_def)
next
  case (dp_run s t)
  have "\<not> overflowed s" using dp_run.hyps(2) dp_run.prems(2) by (induction rule: dp_step.induct) auto
  with dp_run order_step show ?case by blast
qed


section \<open>With overflow\<close>

fun prod_known :: "COM set \<Rightarrow> SPSCQueue \<Rightarrow> nat \<Rightarrow> prod_pc \<Rightarrow> bool" where
  "prod_known G q np P_Idle = True"
| "prod_known G q np (P_Retry v) = (v \<in> G)"
| "prod_known G q np (P_Head again v h) = (v \<in> G \<and> h = head q)"
| "prod_known G q np (P_Tail again v h t) = (v \<in> G \<and> h = head q)"
| "prod_known G q np (P_Full again v) = (v \<in> G)"
| "prod_known G q np (P_Store v h) = (v \<in> G \<and> h = head q \<and> buffer q ! unat h \<in> G)"
| "prod_known G q np (F_Start v) = (v \<in> G)"
| "prod_known G q np (F_Tail v t) = (v \<in> G \<and> unat t \<le> np \<and> unat t < 256)"
| "prod_known G q np (F_Head v t h) = (v \<in> G \<and> (h \<noteq> t \<longrightarrow> unat t < np))"
| "prod_known G q np (F_Store v t) = (v \<in> G \<and> unat t < np)"

fun cons_known :: "COM set \<Rightarrow> nat \<Rightarrow> cons_pc \<Rightarrow> bool" where
  "cons_known G np C_Idle = True"
| "cons_known G np (C_Tail t) = (unat t \<le> np \<and> unat t < 256)"
| "cons_known G np (C_Head t h) = (unat t < 256 \<and> (h \<noteq> t \<longrightarrow> unat t < np))"
| "cons_known G np (C_Store t x) = (unat t < np \<and> x \<in> G)"

definition ring_known :: "COM set \<Rightarrow> spsc_sys \<Rightarrow> bool" where
  "ring_known G r \<longleftrightarrow>
     length (buffer (queue r)) = 256
     \<and> unat (head (queue r)) = length (pushed r) mod 256 \<and> unat (tail (queue r)) \<le> length (pushed r)
     \<and> unat (tail (queue r)) < 256
     \<and> (\<forall>i < 256. i < length (pushed r) \<longrightarrow> buffer (queue r) ! i \<in> G)
     \<and> set (popped r) \<subseteq> G
     \<and> prod_known G (queue r) (length (pushed r)) (prod r)
     \<and> cons_known G (length (pushed r)) (cons r)"


lemma written_slot:
  assumes "unat t \<le> np" "unat t < 256" "unat h = np mod 256" "h \<noteq> t"
  shows "unat t < np"
  using assms by (cases "np < 256") (auto simp: word_unat_eq_iff)

lemma next_tail:
  assumes "unat t < np" shows "unat (spsc_next t) \<le> np" "unat (spsc_next t) < 256"
  using assms mod_less_eq_dividend [of "Suc (unat t)" 256] by (simp_all add: unat_spsc_next)

lemma cons_known_push: "cons_known G np c \<Longrightarrow> cons_known G (Suc np) c"
  by (cases c) auto

lemma known_write:
  assumes "ring_known G r" "prod r = P_Tail again v h t"
  shows "ring_known G (r\<lparr>queue := (queue r)\<lparr>buffer := (buffer (queue r))[unat h := v]\<rparr>, prod := P_Store v h\<rparr>)"
  using assms by (auto simp: ring_known_def nth_list_update)

lemma known_push:
  assumes "ring_known G r" "prod r = P_Store v h"
  shows "ring_known G (r\<lparr>queue := (queue r)\<lparr>head := spsc_next h\<rparr>, prod := P_Idle, pushed := pushed r @ [v]\<rparr>)"
proof -
  have "buffer (queue r) ! i \<in> G" if "i < 256" "i < Suc (length (pushed r))" for i
    using assms that by (cases "i = length (pushed r)") (auto simp: ring_known_def)
  then show ?thesis using assms by (auto simp: ring_known_def unat_spsc_next mod_Suc_eq cons_known_push le_SucI)
qed

lemma known_api:
  "api_step r u \<Longrightarrow> prod r \<noteq> P_Idle \<or> prod u = P_Idle \<Longrightarrow> ring_known G r \<Longrightarrow> ring_known G u"
proof (induction rule: api_step.induct)
  case (enq_write s again v h t)
  then show ?case using known_write by simp
next
  case (enq_store_head s v h)
  then show ?case using known_push by simp
next
  case (deq_load_head s t)
  then show ?case using written_slot [of t _ "head (queue s)"] by (auto simp: ring_known_def)
next
  case (deq_store_tail s t x)
  then show ?case using next_tail [of t "length (pushed s)"] by (cases "prod s") (auto simp: ring_known_def)
qed (auto simp: ring_known_def)

lemma known_com:
  "com_step r u \<Longrightarrow> prod r \<noteq> P_Idle \<or> prod u = P_Idle \<Longrightarrow> ring_known G r \<Longrightarrow> ring_known G u"
proof (induction rule: com_step.induct)
  case (com_api s t)
  then show ?case using known_api by simp
next
  case (fb_load_head s v t)
  then show ?case using written_slot [of t _ "head (queue s)"] by (auto simp: ring_known_def)
next
  case (fb_store_tail s v t)
  then show ?case using next_tail [of t "length (pushed s)"] by (cases "cons s") (auto simp: ring_known_def)
qed (auto simp: ring_known_def)

lemma known_mono:
  assumes "ring_known G r" "G \<subseteq> G'" shows "ring_known G' r"
  using assms by (cases "prod r"; cases "cons r") (auto simp: ring_known_def)

definition known_inv :: "nat \<Rightarrow> nat \<Rightarrow> data_path \<Rightarrow> bool" where
  "known_inv H W s \<longleftrightarrow>
     ring_known (calculate_com H W ` set (received (pipe s))) (ring s)
     \<and> (\<forall>m. consumer (pipe s) = C_Work m \<longrightarrow> m \<in> set (received (pipe s)))"

lemma pipe_frame:
  "green_mask_step t u \<or> spurious_wakeup t u \<Longrightarrow> received u = received t \<and> (consumer u = C_Work m \<longrightarrow> consumer t = C_Work m)"
  by (auto elim!: green_mask_step.cases spurious_wakeup.cases) (cases "consumer t"; simp)+

lemma take_work:
  "com_calculator_step t u \<Longrightarrow> set (received t) \<subseteq> set (received u) \<and> (consumer u = C_Work m \<longrightarrow> m \<in> set (received u))"
  by (induction rule: com_calculator_step.induct) auto

lemma known_step: "dp_step H W s t \<Longrightarrow> known_inv H W s \<Longrightarrow> known_inv H W t"
proof (induction rule: dp_step.induct)
  case (dp_green s t)
  then show ?case using pipe_frame [of "pipe s" t] by (auto simp: known_inv_def)
next
  case (dp_take s t)
  then show ?case using take_work [of "pipe s" t] known_mono [OF _ image_mono [of "set (received (pipe s))" "set (received t)"]]
    by (auto simp: known_inv_def)
next
  case (dp_publish s m t)
  then show ?case using done_frame [of "pipe s" t m] by (auto simp: known_inv_def ring_known_def)
next
  case (dp_ring s r)
  then show ?case using known_com by (auto simp: known_inv_def)
next
  case (dp_wake s t)
  then show ?case using pipe_frame [of "pipe s" t] by (auto simp: known_inv_def)
qed

lemma known_start: "length (buffer q) = 256 \<Longrightarrow> known_inv H W (dp_start q init)"
  by (simp add: known_inv_def ring_known_def dp_start_def start_sys_def start_pipeline_def spsc_init_def)

lemma known_reachable: "dp_reachable H W q init s \<Longrightarrow> length (buffer q) = 256 \<Longrightarrow> known_inv H W s"
  by (induction rule: dp_reachable.induct) (auto intro: known_start known_step)


section \<open>A run that delivers a centre of mass\<close>

definition taken_state :: "SPSCQueue \<Rightarrow> mask list \<Rightarrow> mask \<Rightarrow> data_path" where
  "taken_state q init m =
     \<lparr>pipe = \<lparr>mqueue = \<lparr>slots = init[0 := m], front = 1, rear = 1, count = 0\<rparr>, owner = None,
        producer = P_Work, consumer = C_Work m, sent = [m], received = [m]\<rparr>,
      ring = start_sys q, overflowed = False\<rparr>"

definition delivered_state :: "nat \<Rightarrow> nat \<Rightarrow> SPSCQueue \<Rightarrow> mask list \<Rightarrow> mask \<Rightarrow> data_path" where
  "delivered_state H W q init m =
     (taken_state q init m)
       \<lparr>pipe := (pipe (taken_state q init m))\<lparr>consumer := C_Want\<rparr>,
        ring := \<lparr>queue = \<lparr>buffer = (buffer q)[0 := calculate_com H W m], head = 1, tail = 1\<rparr>,
          prod = P_Idle, cons = C_Idle, pushed = [calculate_com H W m], popped = [calculate_com H W m]\<rparr>\<rparr>"

lemma taken_reachable:
  assumes "init \<noteq> []"
  shows "dp_reachable H W q init (taken_state q init m)"
proof -
  let ?d = "\<lambda>mq ow p c ss rs. \<lparr>pipe = \<lparr>mqueue = mq, owner = ow, producer = p, consumer = c, sent = ss, received = rs\<rparr>,
     ring = start_sys q, overflowed = False\<rparr>"
  let ?e = "\<lparr>slots = init, front = 0, rear = 0, count = 0\<rparr>"
  let ?f = "\<lparr>slots = init[0 := m], front = 0, rear = 1, count = 1\<rparr>"
  let ?g = "\<lparr>slots = init[0 := m], front = 1, rear = 1, count = 0\<rparr>"
  let ?R = "dp_reachable H W q init"
  note run = dp_run [where H = H and W = W and q = q and init = init]
  have idle: "prod (start_sys q) = P_Idle" by (simp add: start_sys_def)
  have 1: "?R (?d ?e None P_Work C_Want [] [])"
    using dp_init [of H W q init] by (simp add: dp_start_def start_pipeline_def)
  have 2: "?R (?d ?e None (P_Want m) C_Want [] [])"
    using run [OF 1 dp_green [OF p_frame [of _ m]]] by simp
  have 3: "?R (?d ?e (Some Green_Mask) (P_Hold m) C_Want [] [])"
    using run [OF 2 dp_green [OF p_lock [of _ m]]] by simp
  have 4: "?R (?d ?f None P_Work C_Want [m] [])"
    using run [OF 3 dp_green [OF p_put [of _ m ?f]]] by (simp add: mask_put_def GREEN_MASK_QUEUE_SIZE_def)
  have 5: "?R (?d ?f (Some Com_Calculator) P_Work C_Hold [m] [])"
    using run [OF 4 dp_take [OF c_lock]] idle by simp
  show ?thesis
    using run [OF 5 dp_take [OF c_get [of _ m ?g]]] idle assms
    by (simp add: mask_get_def GREEN_MASK_QUEUE_SIZE_def taken_state_def)
qed

lemma delivered_reachable:
  assumes "init \<noteq> []" "length (buffer q) = 256"
  shows "dp_reachable H W q init (delivered_state H W q init m)"
proof -
  let ?v = "calculate_com H W m"
  let ?p = "\<lparr>mqueue = \<lparr>slots = init[0 := m], front = 1, rear = 1, count = 0\<rparr>, owner = None,
     producer = P_Work, consumer = C_Want, sent = [m], received = [m]\<rparr>"
  let ?d = "\<lambda>b h t pc cc pu po. \<lparr>pipe = ?p, ring = \<lparr>queue = \<lparr>buffer = b, head = h, tail = t\<rparr>,
     prod = pc, cons = cc, pushed = pu, popped = po\<rparr>, overflowed = False\<rparr>"
  let ?a = "buffer q" and ?b = "(buffer q)[0 := ?v]"
  let ?R = "dp_reachable H W q init"
  note run = dp_run [where H = H and W = W and q = q and init = init]
  have n: "spsc_next 0 = 1" by (simp add: word_unat_eq_iff unat_spsc_next)
  have q: "\<lparr>buffer = buffer q, head = 0, tail = 0\<rparr> = spsc_init q" by (cases q) (simp add: spsc_init_def)
  have 1: "?R (?d ?a 0 0 (P_Head False ?v 0) C_Idle [] [])"
    using run [OF taken_reachable [OF assms(1)] dp_publish [OF _ c_done], of m m] unfolding q
    by (simp add: taken_state_def start_sys_def spsc_init_def)
  have 2: "?R (?d ?a 0 0 (P_Tail False ?v 0 0) C_Idle [] [])"
    using run [OF 1 dp_ring [OF com_api [OF enq_load_tail [of _ False ?v 0]]]] by simp
  have 3: "?R (?d ?b 0 0 (P_Store ?v 0) C_Idle [] [])"
    using run [OF 2 dp_ring [OF com_api [OF enq_write [of _ False ?v 0 0]]]] n by simp
  have 4: "?R (?d ?b 1 0 P_Idle C_Idle [?v] [])"
    using run [OF 3 dp_ring [OF com_api [OF enq_store_head [of _ ?v 0]]]] n by simp
  have 5: "?R (?d ?b 1 0 P_Idle (C_Tail 0) [?v] [])"
    using run [OF 4 dp_ring [OF com_api [OF deq_load_tail]]] by simp
  have 6: "?R (?d ?b 1 0 P_Idle (C_Head 0 1) [?v] [])"
    using run [OF 5 dp_ring [OF com_api [OF deq_load_head [of _ 0]]]] by simp
  have 7: "?R (?d ?b 1 0 P_Idle (C_Store 0 ?v) [?v] [])"
    using run [OF 6 dp_ring [OF com_api [OF deq_read [of _ 0 1]]]] assms(2) by simp
  show ?thesis
    using run [OF 7 dp_ring [OF com_api [OF deq_store_tail [of _ 0 ?v]]]] n
    by (simp add: delivered_state_def taken_state_def spsc_init_def)
qed

section \<open>Properties\<close>

text \<open>
  C2: as long as the ring has not overflowed, under every interleaving of the three threads and with spurious
  wake-ups, the centres of all masks the green mask thread has handed over are, in order and without loss or
  repetition, those the control thread has received, those in the ring, at most one that is being published and
  those of at most five masks still queued.
\<close>

theorem data_path_in_order:
  assumes "dp_reachable H W q init s" "length (buffer q) = 256" "length init = GREEN_MASK_QUEUE_SIZE"
    and "\<not> overflowed s"
  shows "\<exists>vs. map (calculate_com H W) (sent (pipe s)) =
       popped (ring s) @ spsc_contents (queue (ring s)) @ vs @ map (calculate_com H W) (mask_contents (mqueue (pipe s)))
     \<and> length vs \<le> 1 \<and> length (spsc_contents (queue (ring s))) \<le> 255
     \<and> length (mask_contents (mqueue (pipe s))) \<le> 5"
proof -
  let ?p = "publishing (prod (ring s))" and ?w = "working (calculate_com H W) (consumer (pipe s))"
  have o: "order_inv H W s" by (rule order_reachable [OF assms(1,2,4)])
  have m: "mq_inv (pipe s)" by (rule dp_mq_inv [OF assms(1,3)])
  have d: "data_inv (queue (ring s)) (pushed (ring s)) (popped (ring s))"
    using o by (simp add: order_inv_def spsc_inv_def)
  have "length (?p @ ?w) \<le> 1"
    using o by (cases "prod (ring s)"; cases "consumer (pipe s)") (simp_all add: order_inv_def)
  moreover have "length (spsc_contents (queue (ring s))) \<le> 255"
    using d unfolding data_inv_contents [OF d] data_inv_def length_drop by linarith
  moreover have "length (mask_contents (mqueue (pipe s))) \<le> 5"
    using m mq.bounded [of "mqueue (pipe s)"] by (auto simp: mq_inv_def GREEN_MASK_QUEUE_SIZE_def)
  ultimately show ?thesis using o m data_inv_fifo [OF d]
    by (intro exI [of _ "?p @ ?w"]) (simp add: order_inv_def mq_inv_def)
qed

theorem data_path_in_order_witness:
  "\<exists>s. dp_reachable 4 4 \<lparr>buffer = replicate 256 \<lparr>com_x = 0, com_y = 0\<rparr>, head = 7, tail = 9\<rparr> (replicate 5 (\<lambda>y x. 0)) s
     \<and> popped (ring s) = [calculate_com 4 4 (\<lambda>y x. 1)]
     \<and> (\<exists>vs. map (calculate_com 4 4) (sent (pipe s)) =
          popped (ring s) @ spsc_contents (queue (ring s)) @ vs @ map (calculate_com 4 4) (mask_contents (mqueue (pipe s))))"
proof -
  let ?q = "\<lparr>buffer = replicate 256 \<lparr>com_x = 0, com_y = 0\<rparr>, head = 7, tail = 9\<rparr>"
  let ?i = "replicate 5 (\<lambda>y x. 0) :: mask list"
  let ?s = "delivered_state 4 4 ?q ?i (\<lambda>y x. 1)"
  have r: "dp_reachable 4 4 ?q ?i ?s" by (rule delivered_reachable) simp_all
  have l: "length (buffer ?q) = 256" "length ?i = GREEN_MASK_QUEUE_SIZE" by (simp_all add: GREEN_MASK_QUEUE_SIZE_def)
  have "\<not> overflowed ?s" by (simp add: delivered_state_def taken_state_def)
  from data_path_in_order [OF r l this] r show ?thesis
    by (intro exI [of _ ?s]) (auto simp: delivered_state_def)
qed



end
