(* ===== verification/Hsv.thy ===== *)
theory Hsv
  imports Machine_Floats
begin

text \<open>
  \<open>rgb_to_hsv\<close> (green_mask.c:137-176) and the HSV threshold of the green mask thread
  (green_mask.c:286-289), in single precision with every rounding of the code. The thresholds
  are those of \<open>config.mk\<close>; \<open>GREEN_V_MIN\<close> is the double 0.1 that the float is compared with.
\<close>


definition byte :: "u8 \<Rightarrow> rat" where
  "byte c = of_nat (unat c)"

definition rgb_to_hsv :: "u8 \<Rightarrow> u8 \<Rightarrow> u8 \<Rightarrow> rat \<times> rat \<times> rat" where
  "rgb_to_hsv r g b =
     (let fr = f32 (byte r / 255);
          fg = f32 (byte g / 255);
          fb = f32 (byte b / 255);
          mx = max (max fr fg) fb;
          mn = min (min fr fg) fb;
          delta = f32 (mx - mn);
          v = mx;
          s = (if mx = 0 then 0 else f32 (delta / mx));
          h = (if delta = 0 then 0
               else if mx = fr then
                 (let temp_h = f32 (f32 (fg - fb) / delta);
                      temp_h = (if temp_h < 0 then f32 (temp_h + 6) else temp_h)
                  in f32 (60 * temp_h))
               else if mx = fg then f32 (60 * f32 (f32 (f32 (fb - fr) / delta) + 2))
               else f32 (60 * f32 (f32 (f32 (fr - fg) / delta) + 4)));
          h = (if h < 0 then f32 (h + 360) else h)
      in (h, s, v))"

definition GREEN_H_MIN :: rat where "GREEN_H_MIN = 90"
definition GREEN_H_MAX :: rat where "GREEN_H_MAX = 180"
definition GREEN_S_MIN :: rat where "GREEN_S_MIN = 1 / 4"
definition GREEN_V_MIN :: rat where "GREEN_V_MIN = f64 (1 / 10)"

definition green_pixel :: "u8 \<Rightarrow> u8 \<Rightarrow> u8 \<Rightarrow> u8" where
  "green_pixel r g b =
     (case rgb_to_hsv r g b of (h, s, v) \<Rightarrow>
        if h \<ge> GREEN_H_MIN \<and> h \<le> GREEN_H_MAX \<and> s \<ge> GREEN_S_MIN \<and> v \<ge> GREEN_V_MIN then 1 else 0)"

definition chan :: "u8 \<Rightarrow> rat" where
  "chan c = f32 (byte c / 255)"

lemma u8_le: "unat (c :: u8) \<le> 255"
  using unsigned_less [of c, where 'a = nat] by simp

lemma byte_le: "byte c \<le> 255"
  using u8_le [of c] unfolding byte_def by (metis of_nat_le_iff of_nat_numeral)

lemma byte_nonneg: "0 \<le> byte c"
  unfolding byte_def by (rule of_nat_0_le_iff)

lemma byte_mono: "c \<le> d \<Longrightarrow> byte c \<le> byte d"
  unfolding byte_def word_le_nat_alt by (metis of_nat_le_iff)

lemma byte_less: "c < d \<Longrightarrow> byte c + 1 \<le> byte d"
  unfolding byte_def word_less_nat_alt
  by (metis Suc_eq_plus1 Suc_leI of_nat_1 of_nat_add of_nat_le_iff)

lemma chan_unit: "0 \<le> chan c" "chan c \<le> 1"
  using single.unit [of "byte c / 255"] byte_le [of c] byte_nonneg [of c] by (simp_all add: chan_def)

lemma chan_mono: "c \<le> d \<Longrightarrow> chan c \<le> chan d"
  unfolding chan_def by (intro single.mono) (simp add: byte_mono divide_right_mono)

lemma chan_error: "\<bar>chan c - byte c / 255\<bar> \<le> 1 / 2 ^ 24"
  unfolding chan_def using byte_le [of c] byte_nonneg [of c] by (intro f32_error) simp

lemma chan_less: assumes "c < d" shows "chan c + 1 / 256 \<le> chan d"
proof -
  show ?thesis using byte_less [OF assms] chan_error [of c] chan_error [of d] unfolding abs_le_iff by simp
qed

lemma chan_less_iff: "chan c < chan d \<longleftrightarrow> c < d"
  using chan_mono [of d c] chan_less [of c d] by (auto simp: not_less [symmetric])

lemma chan_eq_iff: "chan c = chan d \<longleftrightarrow> c = d"
  by (metis chan_less_iff linorder_neq_iff)

lemma f32_diff_error:
  assumes "0 \<le> x" "x \<le> 1" "0 \<le> y" "y \<le> 1" shows "\<bar>f32 (x - y) - (x - y)\<bar> \<le> 1 / 2 ^ 24"
  using assms by (intro f32_error) (auto simp: abs_le_iff)

lemma is_f32_div: "\<bar>n\<bar> \<le> 2 ^ 24 \<Longrightarrow> k \<le> 149 \<Longrightarrow> is_f32 (of_int n / 2 ^ k)"
  unfolding is_f32_def by (rule representable_div_pow2) auto

lemma f32_lower: "of_int n / 2 ^ k \<le> x \<Longrightarrow> \<bar>n\<bar> \<le> 2 ^ 24 \<Longrightarrow> k \<le> 149 \<Longrightarrow> of_int n / 2 ^ k \<le> f32 x"
  by (rule single.lower [OF is_f32_div])

lemma f32_upper: "x \<le> of_int n / 2 ^ k \<Longrightarrow> \<bar>n\<bar> \<le> 2 ^ 24 \<Longrightarrow> k \<le> 149 \<Longrightarrow> f32 x \<le> of_int n / 2 ^ k"
  by (rule single.upper [OF is_f32_div])


lemma f32_quot_unit:
  assumes "\<bar>x\<bar> \<le> y" "0 < f32 y" shows "\<bar>f32 (f32 x / f32 y)\<bar> \<le> 1"
proof -
  have "f32 x \<le> f32 y" "f32 (- x) \<le> f32 y" using assms by (auto intro: single.mono simp: abs_le_iff)
  then have "\<bar>f32 x / f32 y\<bar> \<le> 1" using assms(2) by (simp add: single.minus abs_le_iff field_simps)
  then show ?thesis using single.abs_upper [of 1] single.ints [of 1] by simp
qed

lemma f32_int_lower: "of_int n \<le> x \<Longrightarrow> \<bar>n\<bar> \<le> 2 ^ 24 \<Longrightarrow> of_int n \<le> f32 x"
  by (rule single.lower [OF single.ints])

lemma f32_int_upper: "x \<le> of_int n \<Longrightarrow> \<bar>n\<bar> \<le> 2 ^ 24 \<Longrightarrow> f32 x \<le> of_int n"
  by (rule single.upper [OF single.ints])

lemma f32_between:
  assumes "of_int lo \<le> x" "x \<le> of_int hi" "\<bar>lo\<bar> \<le> 2 ^ 24" "\<bar>hi\<bar> \<le> 2 ^ 24"
  shows "of_int lo \<le> f32 x \<and> f32 x \<le> of_int hi"
  using assms f32_int_lower f32_int_upper by blast

lemma hue_range:
  assumes "\<bar>f32 q\<bar> \<le> 1" "0 \<le> k" "k \<le> 100"
  shows "60 * of_int (k - 1) \<le> f32 (60 * f32 (f32 q + of_int k))
       \<and> f32 (60 * f32 (f32 q + of_int k)) \<le> 60 * of_int (k + 1)"
proof -
  have "of_int (k - 1) \<le> f32 (f32 q + of_int k) \<and> f32 (f32 q + of_int k) \<le> of_int (k + 1)"
    using assms by (intro f32_between) (auto simp: abs_le_iff)
  then show ?thesis using assms f32_between [of "60 * (k - 1)" "60 * f32 (f32 q + of_int k)" "60 * (k + 1)"]
    by simp
qed


definition hue :: "u8 \<Rightarrow> u8 \<Rightarrow> u8 \<Rightarrow> rat" where
  "hue r g b = fst (rgb_to_hsv r g b)"

lemma delta_pos: "c < d \<Longrightarrow> 1 / 256 \<le> f32 (chan d - chan c)"
  using chan_less [of c d] f32_lower [of 1 8 "chan d - chan c"] by simp

lemma delta_pos': "c < d \<Longrightarrow> 0 < f32 (chan d - chan c)"
  using delta_pos [of c d] by linarith

lemma f32_byte: "f32 (byte c / 255) = chan c"
  by (simp add: chan_def)

lemma min_chan: "min (chan c) (chan d) = chan (min c d)"
  using chan_mono [of c d] chan_mono [of d c] by (auto simp: min_def)

lemma max_chan: "max (chan c) (chan d) = chan (max c d)"
  using chan_mono [of c d] chan_mono [of d c] by (auto simp: max_def intro!: antisym)

lemma rgb_to_hsv_eq:
  "rgb_to_hsv r g b =
     (let M = max (max r g) b; m = min (min r g) b; D = f32 (chan M - chan m);
          h = (if D = 0 then 0
               else if M = r then
                 (let t = f32 (f32 (chan g - chan b) / D)
                  in f32 (60 * (if t < 0 then f32 (t + 6) else t)))
               else if M = g then f32 (60 * f32 (f32 (f32 (chan b - chan r) / D) + 2))
               else f32 (60 * f32 (f32 (f32 (chan r - chan g) / D) + 4)))
      in (if h < 0 then f32 (h + 360) else h,
          if chan M = 0 then 0 else f32 (D / chan M), chan M))"
  unfolding rgb_to_hsv_def f32_byte Let_def min_chan max_chan chan_eq_iff by simp

lemma hue_gray: "hue c c c = 0"
  by (simp add: hue_def rgb_to_hsv_eq)

lemma chan_diff_le:
  assumes "m \<le> x" "x \<le> M" "m \<le> y" "y \<le> M"
  shows "\<bar>chan x - chan y\<bar> \<le> chan M - chan m"
  using assms chan_mono [of m x] chan_mono [of x M] chan_mono [of m y] chan_mono [of y M]
  by (auto simp: abs_le_iff)

lemma chan_quot:
  assumes "m \<le> x" "x \<le> M" "m \<le> y" "y \<le> M" "m < M"
  shows "\<bar>f32 (f32 (chan x - chan y) / f32 (chan M - chan m))\<bar> \<le> 1"
  using f32_quot_unit [OF chan_diff_le [OF assms(1-4)] delta_pos' [OF assms(5)]] .

lemma hue_red:
  assumes "g \<le> r" "b \<le> r" "min g b < r"
  shows "0 \<le> hue r g b \<and> hue r g b \<le> 60 \<or> 300 \<le> hue r g b \<and> hue r g b \<le> 360"
proof -
  let ?t = "f32 (f32 (chan g - chan b) / f32 (chan r - chan (min g b)))"
  have M: "max (max r g) b = r" "min (min r g) b = min g b" using assms by (auto simp: max_def min_def)
  have t: "\<bar>?t\<bar> \<le> 1" using assms by (intro chan_quot) auto
  have D: "f32 (chan r - chan (min g b)) \<noteq> 0" using delta_pos' [OF assms(3)] by simp
  define T where "T = (if ?t < 0 then f32 (?t + 6) else ?t)"
  have T: "0 \<le> T \<and> T \<le> 1 \<or> 5 \<le> T \<and> T \<le> 6"
    using t f32_between [of 5 "?t + 6" 6] by (auto simp: T_def abs_le_iff)
  have h: "0 \<le> f32 (60 * T) \<and> f32 (60 * T) \<le> 60 \<or> 300 \<le> f32 (60 * T) \<and> f32 (60 * T) \<le> 360"
    using T f32_between [of 0 "60 * T" 60] f32_between [of 300 "60 * T" 360] by auto
  have "hue r g b = (if f32 (60 * T) < 0 then f32 (f32 (60 * T) + 360) else f32 (60 * T))"
    using D by (simp add: hue_def rgb_to_hsv_eq M T_def Let_def)
  with h show ?thesis by auto
qed

lemma hue_green:
  assumes "r < g" "b \<le> g"
  shows "hue r g b = f32 (60 * f32 (f32 (f32 (chan b - chan r) / f32 (chan g - chan (min r b))) + 2))"
    and "60 \<le> hue r g b \<and> hue r g b \<le> 180"
proof -
  let ?q = "f32 (chan b - chan r) / f32 (chan g - chan (min r b))"
  have M: "max (max r g) b = g" "min (min r g) b = min r b" "g \<noteq> r"
    using assms by (auto simp: max_def min_def)
  have lt: "min r b < g" using assms by (simp add: min_less_iff_disj)
  have D: "f32 (chan g - chan (min r b)) \<noteq> 0" using delta_pos' [OF lt] by simp
  have "\<bar>f32 ?q\<bar> \<le> 1" using assms lt by (intro chan_quot) auto
  from hue_range [OF this, of 2] have h: "60 \<le> f32 (60 * f32 (f32 ?q + 2))"
    "f32 (60 * f32 (f32 ?q + 2)) \<le> 180" by simp_all
  then show "hue r g b = f32 (60 * f32 (f32 ?q + 2))"
    using D M(3) by (simp add: hue_def rgb_to_hsv_eq M Let_def)
  with h show "60 \<le> hue r g b \<and> hue r g b \<le> 180" by simp
qed

lemma hue_blue:
  assumes "r < b" "g < b"
  shows "hue r g b = f32 (60 * f32 (f32 (f32 (chan r - chan g) / f32 (chan b - chan (min r g))) + 4))"
    and "180 \<le> hue r g b \<and> hue r g b \<le> 300"
proof -
  let ?q = "f32 (chan r - chan g) / f32 (chan b - chan (min r g))"
  have M: "max (max r g) b = b" "min (min r g) b = min r g" "b \<noteq> r" "b \<noteq> g"
    using assms by (auto simp: max_def min_def)
  have lt: "min r g < b" using assms by (simp add: min_less_iff_disj)
  have D: "f32 (chan b - chan (min r g)) \<noteq> 0" using delta_pos' [OF lt] by simp
  have "\<bar>f32 ?q\<bar> \<le> 1" using assms lt by (intro chan_quot) auto
  from hue_range [OF this, of 4] have h: "180 \<le> f32 (60 * f32 (f32 ?q + 4))"
    "f32 (60 * f32 (f32 ?q + 4)) \<le> 300" by simp_all
  then show "hue r g b = f32 (60 * f32 (f32 ?q + 4))"
    using D M(3,4) by (simp add: hue_def rgb_to_hsv_eq M Let_def)
  with h show "180 \<le> hue r g b \<and> hue r g b \<le> 300" by simp
qed

lemma hue_sector:
  fixes r g b :: "'a::linorder"
  obtains "r = g" "g = b" | "g \<le> r" "b \<le> r" "min g b < r" | "r < g" "b \<le> g" | "r < b" "g < b"
proof (cases "r < b \<and> g < b")
  case True
  then show thesis using that(4) by blast
next
  case nb: False
  show thesis
  proof (cases "g \<le> r")
    case True
    have br: "b \<le> r"
    proof (rule ccontr)
      assume "\<not> b \<le> r"
      then have "r < b" by simp
      moreover from True this have "g < b" by (rule le_less_trans)
      ultimately show False using nb by blast
    qed
    show thesis
    proof (cases "g = r \<and> b = r")
      case True
      then show thesis using that(1) by simp
    next
      case False
      then have "min g b < r" using \<open>g \<le> r\<close> br by (auto simp: min_less_iff_disj le_less)
      then show thesis using that(2) \<open>g \<le> r\<close> br by blast
    qed
  next
    case False
    then have rg: "r < g" by simp
    have "b \<le> g"
    proof (rule ccontr)
      assume "\<not> b \<le> g"
      then have "g < b" by simp
      moreover from rg this have "r < b" by (rule less_trans)
      ultimately show False using nb by blast
    qed
    then show thesis using that(3) rg by blast
  qed
qed

lemma chan_repr: "is_f32 (chan c)"
  unfolding chan_def by (rule single.closed)

lemma saturation_range:
  "0 \<le> fst (snd (rgb_to_hsv r g b)) \<and> fst (snd (rgb_to_hsv r g b)) \<le> 1"
proof -
  define M where "M = max (max r g) b"
  define m where "m = min (min r g) b"
  have mM: "m \<le> M" unfolding M_def m_def by (meson max.cobounded2 min.cobounded2 order.trans)
  have "chan M - chan m \<le> chan M" "0 \<le> chan M - chan m"
    using chan_unit [of m] chan_mono [OF mM] by simp_all
  then have D: "0 \<le> f32 (chan M - chan m)" "f32 (chan M - chan m) \<le> chan M"
    using single.nonneg [of "chan M - chan m"] single.upper [OF chan_repr, of "chan M - chan m" M]
    by simp_all
  show ?thesis
  proof (cases "chan M = 0")
    case True
    then show ?thesis by (simp add: rgb_to_hsv_eq Let_def M_def)
  next
    case False
    then have "0 < chan M" using chan_unit [of M] by simp
    then have "0 \<le> f32 (chan M - chan m) / chan M" "f32 (chan M - chan m) / chan M \<le> 1"
      using D by (simp_all add: field_simps)
    then have "0 \<le> f32 (f32 (chan M - chan m) / chan M) \<and> f32 (f32 (chan M - chan m) / chan M) \<le> 1"
      by (rule single.unit)
    then show ?thesis using False by (simp add: rgb_to_hsv_eq Let_def M_def m_def)
  qed
qed


lemma f32_chan_diff:
  "\<bar>f32 (chan x - chan y) - (byte x - byte y) / 255\<bar> \<le> 3 / 2 ^ 24"
proof -
  have "\<bar>f32 (chan x - chan y) - (chan x - chan y)\<bar> \<le> 1 / 2 ^ 24"
    using chan_unit by (intro f32_diff_error) auto
  then show ?thesis using chan_error [of x] chan_error [of y]
    unfolding abs_le_iff by (simp add: diff_divide_distrib)
qed

lemma f32_chan_diff_le1: "f32 (chan x - chan y) \<le> 1"
  using single.upper [of 1] single.ints [of 1] chan_unit [of x] chan_unit [of y] by simp

lemma byte_int: obtains i where "byte c = of_int i" "uint c = i"
proof
  show "byte c = of_int (uint c)" unfolding byte_def uint_nat by (rule of_int_of_nat_eq [symmetric])
qed (rule refl)

lemma hue_blue_above:
  assumes "r < b" "g < b" shows "180 < hue r g b"
proof -
  let ?m = "min r g"
  let ?n = "f32 (chan r - chan g)" and ?D = "f32 (chan b - chan ?m)"
  have lt: "?m < b" using assms by (simp add: min_less_iff_disj)
  have D: "0 < ?D" "?D \<le> 1" using delta_pos' [OF lt] f32_chan_diff_le1 by auto
  have "byte r - byte g + (byte b - byte ?m) \<ge> 1"
    using byte_less [OF assms(1)] byte_less [OF assms(2)] byte_mono [of g r]
    by (cases rule: le_cases [of r g]) (auto simp: min_def)
  then have "1 / 256 \<le> ?n + ?D"
    using f32_chan_diff [of r g] f32_chan_diff [of b ?m] unfolding abs_le_iff
    by (simp add: diff_divide_distrib)
  moreover have "?D / 256 \<le> 1 / 256" using D by simp
  ultimately have "- 255 / 256 * ?D \<le> ?n" by (simp add: field_simps)
  then have "of_int (- 255) / 2 ^ 8 \<le> ?n / ?D" using D by (simp add: field_simps)
  then have "of_int (- 255) / 2 ^ 8 \<le> f32 (?n / ?D)" by (rule f32_lower) auto
  then have "of_int 769 / 2 ^ 8 \<le> f32 (?n / ?D) + 4" by simp
  then have "of_int 769 / 2 ^ 8 \<le> f32 (f32 (?n / ?D) + 4)" by (rule f32_lower) auto
  then have "of_int 11535 / 2 ^ 6 \<le> 60 * f32 (f32 (?n / ?D) + 4)" by simp
  then have "of_int 11535 / 2 ^ 6 \<le> f32 (60 * f32 (f32 (?n / ?D) + 4))" by (rule f32_lower) auto
  then show ?thesis unfolding hue_blue(1) [OF assms] by simp
qed

lemma green_pixel_iff:
  "green_pixel r g b = 1 \<longleftrightarrow>
     90 \<le> hue r g b \<and> hue r g b \<le> 180 \<and> 1 / 4 \<le> fst (snd (rgb_to_hsv r g b))
     \<and> GREEN_V_MIN \<le> snd (snd (rgb_to_hsv r g b))"
  by (auto simp: green_pixel_def hue_def GREEN_H_MIN_def GREEN_H_MAX_def GREEN_S_MIN_def split: prod.splits)

lemma hue_in_green_sector:
  assumes "90 \<le> hue r g b" "hue r g b \<le> 180" shows "r < g" "b \<le> g"
proof -
  have "r < g \<and> b \<le> g"
  proof (cases rule: hue_sector [of r g b])
    case 1
    then show ?thesis using assms hue_gray by simp
  next
    case 2
    then show ?thesis using hue_red [OF 2] assms by auto
  next
    case 4
    then show ?thesis using hue_blue_above [OF 4] assms by simp
  qed auto
  then show "r < g" "b \<le> g" by auto
qed

lemma hue_green_ge_90:
  assumes "r < g" "b \<le> g"
  shows "2 * (uint r - uint b) < uint g - uint (min r b) \<Longrightarrow> 90 \<le> hue r g b"
    and "90 \<le> hue r g b \<Longrightarrow> 2 * (uint r - uint b) \<le> uint g - uint (min r b)"
proof -
  let ?m = "min r b"
  let ?n = "f32 (chan b - chan r)" and ?D = "f32 (chan g - chan ?m)"
  have lt: "?m < g" using assms by (simp add: min_less_iff_disj)
  have D: "0 < ?D" "?D \<le> 1" using delta_pos' [OF lt] f32_chan_diff_le1 by auto
  note err = f32_chan_diff [of b r, unfolded abs_le_iff] f32_chan_diff [of g ?m, unfolded abs_le_iff]
  obtain i j k l where c: "byte r = of_int i" "uint r = i" "byte b = of_int j" "uint b = j"
    "byte g = of_int k" "uint g = k" "byte ?m = of_int l" "uint ?m = l" by (metis byte_int)
  show "90 \<le> hue r g b" if "2 * (uint r - uint b) < uint g - uint ?m"
  proof -
    from that have "2 * (i - j) + 1 \<le> k - l" by (simp add: c)
    then have "rat_of_int (2 * (i - j) + 1) \<le> of_int (k - l)" by (simp only: of_int_le_iff)
    then have "2 * (byte r - byte b) + 1 \<le> byte g - byte ?m" by (simp add: c)
    then have "0 \<le> ?n + ?D / 2" using err by (simp add: diff_divide_distrib)
    then have "of_int (- 1) / 2 ^ 1 \<le> ?n / ?D" using D by (simp add: field_simps)
    then have "of_int (- 1) / 2 ^ 1 \<le> f32 (?n / ?D)" by (rule f32_lower) auto
    then have "of_int 3 / 2 ^ 1 \<le> f32 (?n / ?D) + 2" by simp
    then have "of_int 3 / 2 ^ 1 \<le> f32 (f32 (?n / ?D) + 2)" by (rule f32_lower) auto
    then have "of_int 90 \<le> 60 * f32 (f32 (?n / ?D) + 2)" by simp
    then have "of_int 90 \<le> f32 (60 * f32 (f32 (?n / ?D) + 2))" by (rule f32_int_lower) simp
    then show ?thesis unfolding hue_green(1) [OF assms] by simp
  qed
  show "2 * (uint r - uint b) \<le> uint g - uint ?m" if h: "90 \<le> hue r g b"
  proof (rule ccontr)
    assume "\<not> ?thesis"
    then have "k - l + 1 \<le> 2 * (i - j)" by (simp add: c)
    then have "rat_of_int (k - l + 1) \<le> of_int (2 * (i - j))" by (simp only: of_int_le_iff)
    then have "byte g - byte ?m + 1 \<le> 2 * (byte r - byte b)" by (simp add: c)
    then have "?n + ?D / 2 \<le> - 1 / 512" using err by (simp add: diff_divide_distrib)
    moreover have "?D / 512 \<le> 1 / 512" using D by simp
    ultimately have "?n \<le> - 257 / 512 * ?D" by (simp add: field_simps)
    then have "?n / ?D \<le> of_int (- 257) / 2 ^ 9" using D by (simp add: field_simps)
    then have "f32 (?n / ?D) \<le> of_int (- 257) / 2 ^ 9" by (rule f32_upper) auto
    then have "f32 (?n / ?D) + 2 \<le> of_int 767 / 2 ^ 9" by simp
    then have "f32 (f32 (?n / ?D) + 2) \<le> of_int 767 / 2 ^ 9" by (rule f32_upper) auto
    then have "60 * f32 (f32 (?n / ?D) + 2) \<le> of_int 11505 / 2 ^ 7" by simp
    then have "f32 (60 * f32 (f32 (?n / ?D) + 2)) \<le> of_int 11505 / 2 ^ 7" by (rule f32_upper) auto
    then show False using h unfolding hue_green(1) [OF assms] by simp
  qed
qed

lemma saturation_ge_quarter:
  assumes "r < g" "b \<le> g"
  shows "4 * uint (min r b) < 3 * uint g \<Longrightarrow> 1 / 4 \<le> fst (snd (rgb_to_hsv r g b))"
    and "1 / 4 \<le> fst (snd (rgb_to_hsv r g b)) \<Longrightarrow> 4 * uint (min r b) \<le> 3 * uint g"
proof -
  let ?m = "min r b"
  let ?D = "f32 (chan g - chan ?m)"
  have M: "max (max r g) b = g" "min (min r g) b = ?m" using assms by (auto simp: max_def min_def)
  have "0 < byte g" using byte_less [OF assms(1)] byte_nonneg [of r] by simp
  have g0: "1 / 256 \<le> chan g" using chan_less [OF assms(1)] chan_unit [of r] by simp
  have s: "fst (snd (rgb_to_hsv r g b)) = f32 (?D / chan g)"
    using g0 by (simp add: rgb_to_hsv_eq Let_def M)
  note err = f32_chan_diff [of g ?m, unfolded abs_le_iff] chan_error [of g, unfolded abs_le_iff]
  obtain k l where c: "byte g = of_int k" "uint g = k" "byte ?m = of_int l" "uint ?m = l"
    by (metis byte_int)
  show "1 / 4 \<le> fst (snd (rgb_to_hsv r g b))" if "4 * uint ?m < 3 * uint g"
  proof -
    from that have "4 * l + 1 \<le> 3 * k" by (simp add: c)
    then have "rat_of_int (4 * l + 1) \<le> of_int (3 * k)" by (simp only: of_int_le_iff)
    then have "4 * byte ?m + 1 \<le> 3 * byte g" by (simp add: c)
    then have "chan g / 4 \<le> ?D" using err by (simp add: diff_divide_distrib)
    then have "of_int 1 / 2 ^ 2 \<le> ?D / chan g" using g0 by (simp add: field_simps)
    then have "of_int 1 / 2 ^ 2 \<le> f32 (?D / chan g)" by (rule f32_lower) auto
    then show ?thesis by (simp add: s)
  qed
  show "4 * uint ?m \<le> 3 * uint g" if h: "1 / 4 \<le> fst (snd (rgb_to_hsv r g b))"
  proof (rule ccontr)
    assume "\<not> ?thesis"
    then have "3 * k + 1 \<le> 4 * l" by (simp add: c)
    then have "rat_of_int (3 * k + 1) \<le> of_int (4 * l)" by (simp only: of_int_le_iff)
    then have "3 * byte g + 1 \<le> 4 * byte ?m" by (simp add: c)
    then have "?D \<le> chan g / 4 - 1 / 1024" using err by (simp add: diff_divide_distrib)
    moreover have "chan g / 1024 \<le> 1 / 1024" using chan_unit [of g] by simp
    ultimately have "?D \<le> 255 / 1024 * chan g" by (simp add: field_simps)
    then have "?D / chan g \<le> of_int 255 / 2 ^ 10" using g0 by (simp add: field_simps)
    then have "f32 (?D / chan g) \<le> of_int 255 / 2 ^ 10" by (rule f32_upper) auto
    with h show False by (simp add: s)
  qed
qed

lemma value_ge_tenth:
  assumes "r < g" "b \<le> g"
  shows "GREEN_V_MIN \<le> snd (snd (rgb_to_hsv r g b)) \<longleftrightarrow> 26 \<le> uint g"
proof -
  have M: "max (max r g) b = g" using assms by (auto simp: max_def)
  have v: "snd (snd (rgb_to_hsv r g b)) = chan g" by (simp add: rgb_to_hsv_eq Let_def M)
  have "GREEN_V_MIN \<le> chan 26" by code_simp
  moreover have "chan 25 < GREEN_V_MIN" by code_simp
  moreover have "26 \<le> uint g \<longleftrightarrow> 26 \<le> g" by (simp add: word_le_def)
  moreover have "\<not> 26 \<le> g \<longleftrightarrow> g \<le> 25" by (simp add: word_le_def not_le) linarith
  ultimately show ?thesis using chan_mono [of 26 g] chan_mono [of g 25] by (auto simp: v)
qed

section \<open>Properties\<close>

text \<open>
  For every pixel, with all roundings, the hue lies in [0, 360] degrees and saturation and value in
  [0, 1]: the sixfold wrap and the negative wrap of the code are enough.
\<close>

lemma rgb_to_hsv_range:
  "case rgb_to_hsv r g b of (h, s, v) \<Rightarrow> 0 \<le> h \<and> h \<le> 360 \<and> 0 \<le> s \<and> s \<le> 1 \<and> 0 \<le> v \<and> v \<le> 1"
proof -
  have "0 \<le> hue r g b \<and> hue r g b \<le> 360"
  proof (cases rule: hue_sector [of r g b])
    case 1
    then show ?thesis using hue_gray by simp
  next
    case 2
    then show ?thesis using hue_red [OF 2] by auto
  next
    case 3
    then show ?thesis using hue_green(2) [OF 3] by auto
  next
    case 4
    then show ?thesis using hue_blue(2) [OF 4] by auto
  qed
  moreover have "0 \<le> snd (snd (rgb_to_hsv r g b)) \<and> snd (snd (rgb_to_hsv r g b)) \<le> 1"
    using chan_unit by (simp add: rgb_to_hsv_eq Let_def)
  ultimately show ?thesis
    using saturation_range [of r g b] by (simp add: hue_def case_prod_beta)
qed

text \<open>
  C20: the HSV threshold, with all its float roundings, in terms of the integer channels: a pixel it marks has
  green strictly above red, at least blue and at least 26, the smaller of red and blue at most three quarters of
  green, and twice the excess of red over blue at most the chroma; and every pixel that satisfies these
  conditions with the last two strict is marked.
\<close>

theorem green_pixel_channels:
  "(green_pixel r g b = 1 \<longrightarrow>
      uint r < uint g \<and> uint b \<le> uint g \<and> 26 \<le> uint g
      \<and> 4 * uint (min r b) \<le> 3 * uint g \<and> 2 * (uint r - uint b) \<le> uint g - uint (min r b))
   \<and> (uint r < uint g \<and> uint b \<le> uint g \<and> 26 \<le> uint g
      \<and> 4 * uint (min r b) < 3 * uint g \<and> 2 * (uint r - uint b) < uint g - uint (min r b)
      \<longrightarrow> green_pixel r g b = 1)"
proof (intro conjI impI)
  assume m: "green_pixel r g b = 1"
  have h: "90 \<le> hue r g b" "hue r g b \<le> 180" "1 / 4 \<le> fst (snd (rgb_to_hsv r g b))"
    "GREEN_V_MIN \<le> snd (snd (rgb_to_hsv r g b))"
    using m unfolding green_pixel_iff by blast+
  note g = hue_in_green_sector [OF h(1,2)]
  show "uint r < uint g" "uint b \<le> uint g" using g by (simp_all add: word_less_def word_le_def)
  show "26 \<le> uint g" "4 * uint (min r b) \<le> 3 * uint g" "2 * (uint r - uint b) \<le> uint g - uint (min r b)"
    using hue_green_ge_90(2) [OF g h(1)] saturation_ge_quarter(2) [OF g h(3)] value_ge_tenth [OF g] h(4) by blast+
next
  assume c: "uint r < uint g \<and> uint b \<le> uint g \<and> 26 \<le> uint g
      \<and> 4 * uint (min r b) < 3 * uint g \<and> 2 * (uint r - uint b) < uint g - uint (min r b)"
  then have g: "r < g" "b \<le> g" by (simp_all add: word_less_def word_le_def)
  then show "green_pixel r g b = 1" unfolding green_pixel_iff
    using hue_green_ge_90(1) [OF g] hue_green(2) [OF g] saturation_ge_quarter(1) [OF g]
      value_ge_tenth [OF g] c by blast
qed

theorem green_pixel_channels_witness:
  "green_pixel 10 200 30 = 1 \<and> green_pixel 200 10 30 \<noteq> 1"
  using green_pixel_channels [of 10 200 30] green_pixel_channels [of 200 10 30] by (simp add: min_def)

end
