(* ===== verification/Morphology.thy ===== *)
theory Morphology
  imports Frame
begin

text \<open>
  \<open>erode_mask\<close> and \<open>dilate_mask\<close> (green_mask.c:28-74): the two 3x3 operators with their early exit,
  their separate output buffer and the black border they write.
\<close>


text \<open>The nine \<open>(dy, dx)\<close> pairs in the order of the two inner loops.\<close>

definition offsets :: "(int \<times> int) list" where
  "offsets = [(dy, dx). dy \<leftarrow> [-1, 0, 1], dx \<leftarrow> [-1, 0, 1]]"

fun erode_check :: "mask \<Rightarrow> nat \<Rightarrow> nat \<Rightarrow> (int \<times> int) list \<Rightarrow> u8" where
  "erode_check m y x [] = 1"
| "erode_check m y x ((dy, dx) # ds) =
     (if m (nat (int y + dy)) (nat (int x + dx)) = 0 then 0 else erode_check m y x ds)"

fun dilate_check :: "mask \<Rightarrow> nat \<Rightarrow> nat \<Rightarrow> (int \<times> int) list \<Rightarrow> u8" where
  "dilate_check m y x [] = 0"
| "dilate_check m y x ((dy, dx) # ds) =
     (if m (nat (int y + dy)) (nat (int x + dx)) \<noteq> 0 then 1 else dilate_check m y x ds)"

definition clear_border :: "nat \<Rightarrow> nat \<Rightarrow> mask \<Rightarrow> mask" where
  "clear_border H W temp =
     fold (\<lambda>y t. put_pixel (put_pixel t y 0 0) y (W - 1) 0) [0..<H]
       (fold (\<lambda>x t. put_pixel (put_pixel t 0 x 0) (H - 1) x 0) [0..<W] temp)"

definition erode_mask :: "nat \<Rightarrow> nat \<Rightarrow> mask \<Rightarrow> mask \<Rightarrow> mask" where
  "erode_mask H W m temp =
     clear_border H W
       (raster [1..<H - 1] [1..<W - 1]
         (\<lambda>y x t. put_pixel t y x (erode_check m y x offsets)) temp)"

definition dilate_mask :: "nat \<Rightarrow> nat \<Rightarrow> mask \<Rightarrow> mask \<Rightarrow> mask" where
  "dilate_mask H W m temp =
     clear_border H W
       (raster [1..<H - 1] [1..<W - 1]
         (\<lambda>y x t. put_pixel t y x (dilate_check m y x offsets)) temp)"

definition near :: "nat \<Rightarrow> nat \<Rightarrow> bool" where
  "near a b \<longleftrightarrow> a \<le> b + 1 \<and> b \<le> a + 1"

definition interior :: "nat \<Rightarrow> nat \<Rightarrow> nat \<Rightarrow> nat \<Rightarrow> bool" where
  "interior H W y x \<longleftrightarrow> 1 \<le> y \<and> y < H - 1 \<and> 1 \<le> x \<and> x < W - 1"

lemma set_offsets: "(dy, dx) \<in> set offsets \<longleftrightarrow> dy \<in> {-1, 0, 1} \<and> dx \<in> {-1, 0, 1}"
  by (auto simp: offsets_def)

lemma erode_check_iff:
  "erode_check m y x ds =
     (if \<forall>(dy, dx) \<in> set ds. m (nat (int y + dy)) (nat (int x + dx)) \<noteq> 0 then 1 else 0)"
  by (induction ds) (auto split: if_splits)

lemma dilate_check_iff:
  "dilate_check m y x ds =
     (if \<exists>(dy, dx) \<in> set ds. m (nat (int y + dy)) (nat (int x + dx)) \<noteq> 0 then 1 else 0)"
  by (induction ds) (auto split: if_splits)

lemma near_offset: "1 \<le> y \<Longrightarrow> (\<exists>dy \<in> {-1, 0, 1}. y' = nat (int y + dy)) \<longleftrightarrow> near y' y"
  by (auto simp: near_def)

lemma offsets_near:
  assumes "1 \<le> y" "1 \<le> x"
  shows "(\<exists>(dy, dx) \<in> set offsets. P (nat (int y + dy)) (nat (int x + dx)))
           \<longleftrightarrow> (\<exists>y' x'. near y' y \<and> near x' x \<and> P y' x')"
proof -
  have "(\<exists>(dy, dx) \<in> set offsets. P (nat (int y + dy)) (nat (int x + dx)))
      \<longleftrightarrow> (\<exists>y' x'. (\<exists>dy \<in> {-1, 0, 1}. y' = nat (int y + dy)) \<and> (\<exists>dx \<in> {-1, 0, 1}. x' = nat (int x + dx)) \<and> P y' x')"
    by (simp add: offsets_def) blast
  then show ?thesis by (simp only: near_offset [OF assms(1)] near_offset [OF assms(2)])
qed

lemma clear_border_apply:
  assumes "y < H" "x < W"
  shows "clear_border H W temp y x = (if interior H W y x then temp y x else 0)"
  using assms by (auto simp: clear_border_def fold_two_rows fold_two_columns interior_def)

lemma clear_border_frame:
  "\<not> y < H \<or> \<not> x < W \<Longrightarrow> 0 < H \<Longrightarrow> 0 < W \<Longrightarrow> clear_border H W temp y x = temp y x"
  by (auto simp: clear_border_def fold_two_rows fold_two_columns)

theorem erode_mask_apply:
  assumes "y < H" "x < W"
  shows "erode_mask H W m temp y x =
     (if interior H W y x \<and> (\<forall>y' x'. near y' y \<and> near x' x \<longrightarrow> m y' x' \<noteq> 0) then 1 else 0)"
proof -
  have "(\<forall>(dy, dx) \<in> set offsets. m (nat (int y + dy)) (nat (int x + dx)) \<noteq> 0)
      \<longleftrightarrow> (\<forall>y' x'. near y' y \<and> near x' x \<longrightarrow> m y' x' \<noteq> 0)" if "interior H W y x"
    using offsets_near [of y x "\<lambda>y' x'. m y' x' = 0"] that by (fastforce simp: interior_def)
  then show ?thesis
    using assms by (auto simp: erode_mask_def clear_border_apply raster_put_pixel erode_check_iff interior_def)
qed

theorem dilate_mask_apply:
  assumes "y < H" "x < W"
  shows "dilate_mask H W m temp y x =
     (if interior H W y x \<and> (\<exists>y' x'. near y' y \<and> near x' x \<and> m y' x' \<noteq> 0) then 1 else 0)"
  using assms offsets_near [of y x "\<lambda>y' x'. m y' x' \<noteq> 0"]
  by (auto simp: dilate_mask_def clear_border_apply raster_put_pixel dilate_check_iff interior_def)

section \<open>Properties\<close>

text \<open>
  \<open>erode_mask\<close> sets a pixel of the frame exactly when it is not on the border and its whole 3x3
  neighbourhood is set; \<open>dilate_mask\<close> exactly when it is not on the border and some pixel of the
  neighbourhood is set. The old contents of the output buffer do not matter and no pixel outside the
  frame is read.
\<close>

lemma morphology_pixels:
  assumes "y < H" "x < W"
  shows "erode_mask H W m temp y x =
      (if interior H W y x \<and> (\<forall>y' x'. near y' y \<and> near x' x \<longrightarrow> m y' x' \<noteq> 0) then 1 else 0)
    \<and> dilate_mask H W m temp y x =
      (if interior H W y x \<and> (\<exists>y' x'. near y' y \<and> near x' x \<and> m y' x' \<noteq> 0) then 1 else 0)"
  using erode_mask_apply [OF assms] dilate_mask_apply [OF assms] by simp

lemma morphology_pixels_example:
  "erode_mask 3 3 (\<lambda>y x. 1) (\<lambda>y x. 7) 1 1 = 1 \<and> dilate_mask 3 3 (\<lambda>y x. 0) (\<lambda>y x. 7) 1 1 = 0"
  using morphology_pixels [of 1 3 1 3 "\<lambda>y x. 1" "\<lambda>y x. 7"] morphology_pixels [of 1 3 1 3 "\<lambda>y x. 0" "\<lambda>y x. 7"]
  by (simp add: interior_def)

end
