(* ===== verification/Blob_Filter.thy ===== *)
theory Blob_Filter
  imports Frame "HOL-Library.While_Combinator"
begin

text \<open>
  \<open>filter_small_blobs\<close> (green_mask.c:76-135): labels the connected components of the mask by a
  breadth first flood over a queue array, counts their pixels, and erases the components smaller
  than \<open>min_size\<close>; it gives up, leaving the mask as it is, when the labels run out. The loop over
  the queue is a \<open>while_option\<close>, so that termination is a theorem. Labels, sizes and queue indices
  are naturals: they stay below 10000 and at most the number of pixels.
\<close>


definition MAX_LABELS :: nat where
  "MAX_LABELS = 10000"

type_synonym Point = "nat \<times> nat"

record flood =
  label_map :: "nat image"
  flood_queue :: "Point list"
  queue_start :: nat
  blob_size :: nat

definition neighbors :: "Point \<Rightarrow> (int \<times> int) list" where
  "neighbors p =
     (case p of (px, py) \<Rightarrow>
        [(int px - 1, int py), (int px + 1, int py), (int px, int py - 1), (int px, int py + 1)])"

definition in_frame :: "nat \<Rightarrow> nat \<Rightarrow> int \<times> int \<Rightarrow> bool" where
  "in_frame H W n = (case n of (nx, ny) \<Rightarrow> nx \<ge> 0 \<and> nx < int W \<and> ny \<ge> 0 \<and> ny < int H)"

definition visit :: "nat \<Rightarrow> nat \<Rightarrow> mask \<Rightarrow> nat \<Rightarrow> int \<times> int \<Rightarrow> flood \<Rightarrow> flood" where
  "visit H W m current_label n st =
     (if in_frame H W n then
        (let nx = nat (fst n); ny = nat (snd n)
         in if m ny nx \<noteq> 0 \<and> label_map st ny nx = 0
            then st\<lparr>label_map := put_pixel (label_map st) ny nx current_label,
                    flood_queue := flood_queue st @ [(nx, ny)],
                    blob_size := blob_size st + 1\<rparr>
            else st)
      else st)"

definition flood_more :: "flood \<Rightarrow> bool" where
  "flood_more st \<longleftrightarrow> queue_start st < length (flood_queue st)"

definition flood_step :: "nat \<Rightarrow> nat \<Rightarrow> mask \<Rightarrow> nat \<Rightarrow> flood \<Rightarrow> flood" where
  "flood_step H W m current_label st =
     (let p = flood_queue st ! queue_start st
      in fold (visit H W m current_label) (neighbors p) (st\<lparr>queue_start := queue_start st + 1\<rparr>))"

definition flood_start :: "nat image \<Rightarrow> nat \<Rightarrow> Point \<Rightarrow> flood" where
  "flood_start labels current_label p =
     \<lparr>label_map = put_pixel labels (snd p) (fst p) current_label, flood_queue = [p],
      queue_start = 0, blob_size = 1\<rparr>"

definition flood_fill :: "nat \<Rightarrow> nat \<Rightarrow> mask \<Rightarrow> nat \<Rightarrow> nat image \<Rightarrow> Point \<Rightarrow> flood option" where
  "flood_fill H W m current_label labels p =
     while_option flood_more (flood_step H W m current_label) (flood_start labels current_label p)"

record labelling =
  labels :: "nat image"
  label_sizes :: "nat \<Rightarrow> nat"
  current_label :: nat

definition labelling_start :: labelling where
  "labelling_start = \<lparr>labels = (\<lambda>y x. 0), label_sizes = (\<lambda>l. 0), current_label = 1\<rparr>"

definition label_blob :: "nat \<Rightarrow> nat \<Rightarrow> mask \<Rightarrow> Point \<Rightarrow> labelling \<Rightarrow> labelling option" where
  "label_blob H W m p st =
     (case flood_fill H W m (current_label st) (labels st) p of
        None \<Rightarrow> None
      | Some f \<Rightarrow> Some \<lparr>labels = label_map f,
                        label_sizes = (label_sizes st)(current_label st := blob_size f),
                        current_label = current_label st + 1\<rparr>)"

datatype scan_result = Max_Blobs | Labelled labelling

fun label_scan :: "nat \<Rightarrow> nat \<Rightarrow> mask \<Rightarrow> Point list \<Rightarrow> labelling \<Rightarrow> scan_result option" where
  "label_scan H W m [] st = Some (Labelled st)"
| "label_scan H W m ((x, y) # ps) st =
     (if m y x = 0 \<or> labels st y x \<noteq> 0 then label_scan H W m ps st
      else case label_blob H W m (x, y) st of
             None \<Rightarrow> None
           | Some st' \<Rightarrow> if current_label st' \<ge> MAX_LABELS then Some Max_Blobs
                         else label_scan H W m ps st')"

definition frame_points :: "nat \<Rightarrow> nat \<Rightarrow> Point list" where
  "frame_points H W = [(x, y). y \<leftarrow> [0..<H], x \<leftarrow> [0..<W]]"

definition erase_small :: "nat \<Rightarrow> nat \<Rightarrow> int \<Rightarrow> labelling \<Rightarrow> mask \<Rightarrow> mask" where
  "erase_small H W min_size st m =
     raster [0..<H] [0..<W]
       (\<lambda>y x m. let lbl = labels st y x
                in if lbl \<noteq> 0 \<and> int (label_sizes st lbl) < min_size then put_pixel m y x 0 else m) m"

definition filter_small_blobs :: "nat \<Rightarrow> nat \<Rightarrow> mask \<Rightarrow> int \<Rightarrow> mask option" where
  "filter_small_blobs H W m min_size =
     (case label_scan H W m (frame_points H W) labelling_start of
        None \<Rightarrow> None
      | Some Max_Blobs \<Rightarrow> Some m
      | Some (Labelled st) \<Rightarrow> Some (erase_small H W min_size st m))"

section \<open>Connected components\<close>

definition white :: "nat \<Rightarrow> nat \<Rightarrow> mask \<Rightarrow> Point set" where
  "white H W m = {(x, y). x < W \<and> y < H \<and> m y x \<noteq> 0}"

definition adjacent :: "Point \<Rightarrow> Point \<Rightarrow> bool" where
  "adjacent p q \<longleftrightarrow> (int (fst q), int (snd q)) \<in> set (neighbors p)"

definition links :: "nat \<Rightarrow> nat \<Rightarrow> mask \<Rightarrow> (Point \<times> Point) set" where
  "links H W m = {(p, q). p \<in> white H W m \<and> q \<in> white H W m \<and> adjacent p q}"

definition blob :: "nat \<Rightarrow> nat \<Rightarrow> mask \<Rightarrow> Point \<Rightarrow> Point set" where
  "blob H W m p = {q. (p, q) \<in> (links H W m)\<^sup>*}"

definition blobs :: "nat \<Rightarrow> nat \<Rightarrow> mask \<Rightarrow> Point set set" where
  "blobs H W m = blob H W m ` white H W m"

lemma finite_white [simp]: "finite (white H W m)"
  by (rule finite_subset [of _ "{..<W} \<times> {..<H}"]) (auto simp: white_def)

lemma card_white_le: "card (white H W m) \<le> H * W"
proof -
  have "card (white H W m) \<le> card ({..<W} \<times> {..<H})" by (intro card_mono) (auto simp: white_def)
  then show ?thesis by (simp add: mult.commute)
qed

lemma adjacent_iff:
  "adjacent (x, y) (x', y') \<longleftrightarrow>
     y' = y \<and> (int x' = int x - 1 \<or> int x' = int x + 1) \<or>
     x' = x \<and> (int y' = int y - 1 \<or> int y' = int y + 1)"
  by (auto simp: adjacent_def neighbors_def)

lemma adjacent_sym: "adjacent p q \<longleftrightarrow> adjacent q p"
  by (cases p; cases q) (auto simp: adjacent_iff)

lemma sym_links: "sym ((links H W m)\<^sup>*)"
proof (rule sym_rtrancl, rule symI)
  fix p q assume "(p, q) \<in> links H W m"
  then show "(q, p) \<in> links H W m" using adjacent_sym [of p q] by (auto simp: links_def)
qed

lemma blob_refl [simp]: "p \<in> blob H W m p"
  by (simp add: blob_def)

lemma blob_subset: "p \<in> white H W m \<Longrightarrow> blob H W m p \<subseteq> white H W m"
proof
  fix q assume p: "p \<in> white H W m" and "q \<in> blob H W m p"
  then have "(p, q) \<in> (links H W m)\<^sup>*" by (simp add: blob_def)
  then show "q \<in> white H W m" using p by (induction rule: rtrancl_induct) (auto simp: links_def)
qed

lemma finite_blob: "p \<in> white H W m \<Longrightarrow> finite (blob H W m p)"
  by (rule finite_subset [OF blob_subset finite_white])

lemma blob_eq: assumes "q \<in> blob H W m p" shows "blob H W m q = blob H W m p"
proof -
  have pq: "(p, q) \<in> (links H W m)\<^sup>*" using assms by (simp add: blob_def)
  then have qp: "(q, p) \<in> (links H W m)\<^sup>*" by (rule symD [OF sym_links])
  show ?thesis unfolding blob_def using rtrancl_trans [OF pq] rtrancl_trans [OF qp] by blast
qed

lemma blob_step: "q \<in> blob H W m p \<Longrightarrow> (q, r) \<in> links H W m \<Longrightarrow> r \<in> blob H W m p"
  by (auto simp: blob_def intro: rtrancl_into_rtrancl)

lemma blob_closed:
  assumes "p \<in> Q" "\<And>q r. q \<in> Q \<Longrightarrow> (q, r) \<in> links H W m \<Longrightarrow> r \<in> Q"
  shows "blob H W m p \<subseteq> Q"
proof
  fix q assume "q \<in> blob H W m p"
  then have "(p, q) \<in> (links H W m)\<^sup>*" by (simp add: blob_def)
  then show "q \<in> Q" by (induction rule: rtrancl_induct) (auto simp: assms)
qed

section \<open>The flood fill labels exactly one component\<close>

definition point_of :: "Point \<Rightarrow> int \<times> int" where
  "point_of p = (int (fst p), int (snd p))"

definition flood_base :: "nat \<Rightarrow> nat \<Rightarrow> mask \<Rightarrow> nat \<Rightarrow> nat image \<Rightarrow> Point \<Rightarrow> flood \<Rightarrow> bool" where
  "flood_base H W m l L p st \<longleftrightarrow>
     distinct (flood_queue st) \<and> p \<in> set (flood_queue st) \<and> set (flood_queue st) \<subseteq> blob H W m p
     \<and> blob_size st = length (flood_queue st)
     \<and> label_map st = (\<lambda>y x. if (x, y) \<in> set (flood_queue st) then l else L y x)"

definition fresh :: "nat \<Rightarrow> nat \<Rightarrow> mask \<Rightarrow> nat \<Rightarrow> nat image \<Rightarrow> Point \<Rightarrow> bool" where
  "fresh H W m l L p \<longleftrightarrow>
     0 < l \<and> p \<in> white H W m \<and> (\<forall>x y. (x, y) \<in> blob H W m p \<longrightarrow> L y x = 0)"

lemma visit_base:
  assumes fr: "fresh H W m l L p" and base: "flood_base H W m l L p st"
    and q: "q \<in> blob H W m p" and n: "n \<in> set (neighbors q)"
  defines "st' \<equiv> visit H W m l n st"
  shows "flood_base H W m l L p st'"
    and "set (flood_queue st') = set (flood_queue st) \<union> {r \<in> white H W m. point_of r = n}"
    and "queue_start st' = queue_start st"
    and "\<exists>ys. flood_queue st' = flood_queue st @ ys"
proof -
  let ?x = "nat (fst n)" and ?y = "nat (snd n)"
  have iff: "{r \<in> white H W m. point_of r = n} =
      (if in_frame H W n \<and> m ?y ?x \<noteq> 0 then {(?x, ?y)} else {})"
    by (cases n) (auto simp: white_def point_of_def in_frame_def)
  have "flood_base H W m l L p st' \<and> set (flood_queue st') = set (flood_queue st) \<union> {r \<in> white H W m. point_of r = n}
      \<and> queue_start st' = queue_start st \<and> (\<exists>ys. flood_queue st' = flood_queue st @ ys)"
  proof (cases "in_frame H W n \<and> m ?y ?x \<noteq> 0")
    case False
    then have "st' = st" by (auto simp: st'_def visit_def Let_def)
    then show ?thesis using base False by (auto simp: iff)
  next
    case True
    have "(q, (?x, ?y)) \<in> links H W m"
      using True n blob_subset [of p H W m] q fr
      by (cases n) (auto simp: links_def adjacent_def fresh_def white_def in_frame_def)
    then have blob: "(?x, ?y) \<in> blob H W m p" by (rule blob_step [OF q])
    have L: "L ?y ?x = 0" using fr blob by (auto simp: fresh_def)
    show ?thesis
    proof (cases "(?x, ?y) \<in> set (flood_queue st)")
      case in_queue: True
      then have "st' = st" using base fr by (auto simp: st'_def visit_def Let_def flood_base_def fresh_def)
      then show ?thesis using base True in_queue by (auto simp: iff)
    next
      case new: False
      then have "st' = st\<lparr>label_map := put_pixel (label_map st) ?y ?x l,
          flood_queue := flood_queue st @ [(?x, ?y)], blob_size := blob_size st + 1\<rparr>"
        using base L True by (auto simp: st'_def visit_def Let_def flood_base_def)
      then show ?thesis using base new blob True
        by (auto simp: flood_base_def iff fun_eq_iff)
    qed
  qed
  then show "flood_base H W m l L p st'"
    "set (flood_queue st') = set (flood_queue st) \<union> {r \<in> white H W m. point_of r = n}"
    "queue_start st' = queue_start st" "\<exists>ys. flood_queue st' = flood_queue st @ ys" by blast+
qed

lemma fold_visit_base:
  assumes fr: "fresh H W m l L p" and q: "q \<in> blob H W m p"
  shows "flood_base H W m l L p st \<Longrightarrow> set ns \<subseteq> set (neighbors q) \<Longrightarrow>
    flood_base H W m l L p (fold (visit H W m l) ns st)
    \<and> set (flood_queue (fold (visit H W m l) ns st)) =
        set (flood_queue st) \<union> {r \<in> white H W m. point_of r \<in> set ns}
    \<and> queue_start (fold (visit H W m l) ns st) = queue_start st
    \<and> (\<exists>ys. flood_queue (fold (visit H W m l) ns st) = flood_queue st @ ys)"
proof (induction ns arbitrary: st)
  case Nil
  then show ?case by simp
next
  case (Cons n ns)
  then have n: "n \<in> set (neighbors q)" by simp
  note v = visit_base [OF fr Cons.prems(1) q n]
  from Cons.IH [OF v(1)] Cons.prems(2) v(2-4) show ?case by auto
qed

definition flood_inv :: "nat \<Rightarrow> nat \<Rightarrow> mask \<Rightarrow> nat \<Rightarrow> nat image \<Rightarrow> Point \<Rightarrow> flood \<Rightarrow> bool" where
  "flood_inv H W m l L p st \<longleftrightarrow>
     flood_base H W m l L p st
     \<and> (\<forall>q \<in> set (take (queue_start st) (flood_queue st)).
          \<forall>r. (q, r) \<in> links H W m \<longrightarrow> r \<in> set (flood_queue st))"

lemma flood_inv_start:
  "fresh H W m l L p \<Longrightarrow> flood_inv H W m l L p (flood_start L l p)"
  by (cases p) (auto simp: flood_inv_def flood_base_def flood_start_def fun_eq_iff)

lemma flood_inv_step:
  assumes fr: "fresh H W m l L p" and inv: "flood_inv H W m l L p st" and more: "flood_more st"
  shows "flood_inv H W m l L p (flood_step H W m l st)"
    and "queue_start (flood_step H W m l st) = Suc (queue_start st)"
proof -
  define q where "q = flood_queue st ! queue_start st"
  let ?st = "st\<lparr>queue_start := queue_start st + 1\<rparr>"
  have base: "flood_base H W m l L p ?st" and qin: "q \<in> set (flood_queue st)"
    using inv more by (auto simp: flood_inv_def flood_base_def flood_more_def q_def)
  then have q: "q \<in> blob H W m p" by (auto simp: flood_base_def)
  have step: "flood_step H W m l st = fold (visit H W m l) (neighbors q) ?st"
    by (simp add: flood_step_def q_def)
  note f = fold_visit_base [OF fr q base order.refl, folded step]
  obtain ys where ys: "flood_queue (flood_step H W m l st) = flood_queue st @ ys" using f by auto
  show start: "queue_start (flood_step H W m l st) = Suc (queue_start st)" using f by simp
  have tk: "take (Suc (queue_start st)) (flood_queue st @ ys) = take (queue_start st) (flood_queue st) @ [q]"
    using more by (simp add: flood_more_def q_def take_Suc_conv_app_nth nth_append)
  have "r \<in> set (flood_queue (flood_step H W m l st))" if "(q, r) \<in> links H W m" for r
    using that f by (auto simp: links_def adjacent_def point_of_def)
  then show "flood_inv H W m l L p (flood_step H W m l st)"
    using f inv unfolding flood_inv_def start ys tk by auto
qed

lemma flood_queue_bound:
  assumes "fresh H W m l L p" "flood_base H W m l L p st"
  shows "length (flood_queue st) \<le> card (blob H W m p)"
proof -
  have "card (set (flood_queue st)) \<le> card (blob H W m p)"
    using assms finite_blob [of p H W m] by (intro card_mono) (auto simp: fresh_def flood_base_def)
  then show ?thesis using assms by (simp add: flood_base_def distinct_card)
qed

lemma flood_fill_blob:
  assumes fr: "fresh H W m l L p"
  obtains f where "flood_fill H W m l L p = Some f" "blob_size f = card (blob H W m p)"
    "label_map f = (\<lambda>y x. if (x, y) \<in> blob H W m p then l else L y x)"
    "length (flood_queue f) = card (blob H W m p)"
proof -
  let ?P = "flood_inv H W m l L p"
  let ?f = "\<lambda>st. card (blob H W m p) - queue_start st"
  have "?P (flood_step H W m l st) \<and> ?f (flood_step H W m l st) < ?f st" if "?P st" "flood_more st" for st
    using flood_inv_step [OF fr that] flood_queue_bound [OF fr, of st] that
    by (auto simp: flood_inv_def flood_more_def)
  then have "\<exists>t. flood_fill H W m l L p = Some t"
    unfolding flood_fill_def using flood_inv_start [OF fr] by (rule measure_while_option_Some)
  then obtain f where f: "flood_fill H W m l L p = Some f" by blast
  have inv: "?P f"
    by (rule while_option_rule [OF _ f [unfolded flood_fill_def]])
      (rule flood_inv_step(1) [OF fr], assumption+, rule flood_inv_start [OF fr])
  have "\<not> flood_more f" using f unfolding flood_fill_def by (rule while_option_stop)
  with inv have "blob H W m p \<subseteq> set (flood_queue f)"
    by (intro blob_closed) (auto simp: flood_inv_def flood_base_def flood_more_def)
  with inv have eq: "set (flood_queue f) = blob H W m p" by (auto simp: flood_inv_def flood_base_def)
  have "distinct (flood_queue f)" using inv by (simp add: flood_inv_def flood_base_def)
  from distinct_card [OF this] have len: "length (flood_queue f) = card (blob H W m p)" by (simp add: eq)
  have "blob_size f = card (blob H W m p)"
    "label_map f = (\<lambda>y x. if (x, y) \<in> blob H W m p then l else L y x)"
    using inv unfolding flood_inv_def flood_base_def eq len by blast+
  with f show thesis using len by (rule that)
qed

section \<open>The scan visits every component once\<close>

definition scan_inv :: "nat \<Rightarrow> nat \<Rightarrow> mask \<Rightarrow> Point set \<Rightarrow> labelling \<Rightarrow> bool" where
  "scan_inv H W m done st \<longleftrightarrow>
     current_label st = Suc (card (blob H W m ` done))
     \<and> (\<forall>x y. labels st y x \<noteq> 0 \<longleftrightarrow> (\<exists>p \<in> done. (x, y) \<in> blob H W m p))
     \<and> (\<forall>x y. labels st y x \<noteq> 0 \<longrightarrow>
          labels st y x < current_label st
          \<and> label_sizes st (labels st y x) = card (blob H W m (x, y)))"

lemma scan_invD:
  assumes "scan_inv H W m done st"
  shows "current_label st = Suc (card (blob H W m ` done))"
    and "labels st y x \<noteq> 0 \<longleftrightarrow> (\<exists>p \<in> done. (x, y) \<in> blob H W m p)"
    and "labels st y x \<noteq> 0 \<Longrightarrow> labels st y x < current_label st"
    and "labels st y x \<noteq> 0 \<Longrightarrow> label_sizes st (labels st y x) = card (blob H W m (x, y))"
  using assms unfolding scan_inv_def by blast+

lemma scan_inv_start: "scan_inv H W m {} labelling_start"
  by (simp add: scan_inv_def labelling_start_def)

lemma scan_inv_skip:
  assumes inv: "scan_inv H W m done st" and lab: "labels st y x \<noteq> 0" and sub: "done \<subseteq> white H W m"
  shows "scan_inv H W m (insert (x, y) done) st"
proof -
  obtain p where p: "p \<in> done" "(x, y) \<in> blob H W m p" using inv lab by (auto simp: scan_inv_def)
  then have "blob H W m (x, y) = blob H W m p" by (intro blob_eq)
  then have "blob H W m ` insert (x, y) done = blob H W m ` done" using p by auto
  moreover have "(\<exists>q \<in> insert (x, y) done. z \<in> blob H W m q) \<longleftrightarrow> (\<exists>q \<in> done. z \<in> blob H W m q)" for z
    using p \<open>blob H W m (x, y) = blob H W m p\<close> by auto
  ultimately show ?thesis using inv unfolding scan_inv_def by metis
qed

lemma scan_inv_label:
  assumes inv: "scan_inv H W m done st" and lab: "labels st y x = 0"
    and sub: "done \<subseteq> white H W m" and p: "(x, y) \<in> white H W m"
  obtains st' where "label_blob H W m (x, y) st = Some st'"
    "scan_inv H W m (insert (x, y) done) st'"
proof -
  let ?B = "blob H W m (x, y)" and ?l = "current_label st"
  have zero: "labels st y' x' = 0" if b: "(x', y') \<in> ?B" for x' y'
  proof (rule ccontr)
    assume "labels st y' x' \<noteq> 0"
    then obtain q where q: "q \<in> done" "(x', y') \<in> blob H W m q" using inv by (auto simp: scan_inv_def)
    then have "(x, y) \<in> blob H W m q"
      using blob_eq [OF q(2)] blob_eq [OF b] by (metis blob_refl)
    with q lab scan_invD(2) [OF inv] show False by blast
  qed
  then have fr: "fresh H W m ?l (labels st) (x, y)" using inv p by (auto simp: fresh_def scan_inv_def)
  then obtain f where f: "flood_fill H W m ?l (labels st) (x, y) = Some f"
    "blob_size f = card ?B" "label_map f = (\<lambda>y x. if (x, y) \<in> ?B then ?l else labels st y x)"
    by (rule flood_fill_blob)
  let ?st = "\<lparr>labels = label_map f, label_sizes = (label_sizes st)(?l := blob_size f),
              current_label = ?l + 1\<rparr>"
  have new: "?B \<notin> blob H W m ` done"
  proof
    assume "?B \<in> blob H W m ` done"
    then obtain q where "q \<in> done" "(x, y) \<in> blob H W m q" using blob_refl by blast
    with lab scan_invD(2) [OF inv] show False by blast
  qed
  have fin: "finite (blob H W m ` done)" using sub finite_white finite_subset by blast
  have "label_blob H W m (x, y) st = Some ?st" by (simp add: label_blob_def f(1))
  moreover have "scan_inv H W m (insert (x, y) done) ?st"
    unfolding scan_inv_def
  proof (intro conjI allI impI)
    show "current_label ?st = Suc (card (blob H W m ` insert (x, y) done))"
      using inv new fin by (simp add: scan_inv_def)
    fix x' y'
    show "labels ?st y' x' \<noteq> 0 \<longleftrightarrow> (\<exists>p \<in> insert (x, y) done. (x', y') \<in> blob H W m p)"
      using inv by (auto simp: f scan_inv_def)
    show "labels ?st y' x' < current_label ?st" if "labels ?st y' x' \<noteq> 0"
      using that scan_invD(3) [OF inv, of y' x'] by (auto simp: f less_Suc_eq split: if_splits)
    show "label_sizes ?st (labels ?st y' x') = card (blob H W m (x', y'))" if nz: "labels ?st y' x' \<noteq> 0"
    proof (cases "(x', y') \<in> ?B")
      case True
      then show ?thesis using blob_eq [OF True] by (simp add: f)
    next
      case False
      with nz have "labels st y' x' \<noteq> 0" by (simp add: f)
      with scan_invD(3,4) [OF inv]
      have "labels st y' x' < ?l" "label_sizes st (labels st y' x') = card (blob H W m (x', y'))"
        by blast+
      with False show ?thesis by (simp add: f)
    qed
  qed
  ultimately show thesis by (rule that)
qed

definition labels_fit :: "nat \<Rightarrow> nat \<Rightarrow> mask \<Rightarrow> Point set \<Rightarrow> bool" where
  "labels_fit H W m S \<longleftrightarrow> Suc (card (blob H W m ` S)) < MAX_LABELS"

lemma labels_fit_mono:
  assumes "labels_fit H W m T" "S \<subseteq> T" "T \<subseteq> white H W m" shows "labels_fit H W m S"
proof -
  have "finite T" using assms finite_white finite_subset by blast
  then have "card (blob H W m ` S) \<le> card (blob H W m ` T)" using assms by (intro card_mono) auto
  then show ?thesis using assms by (simp add: labels_fit_def)
qed

lemma label_scan_result:
  assumes "scan_inv H W m done st" "done \<subseteq> white H W m" "labels_fit H W m done"
    and "set ps \<subseteq> {..<W} \<times> {..<H}"
  defines "all \<equiv> done \<union> (set ps \<inter> white H W m)"
  shows "if labels_fit H W m all
         then \<exists>st'. label_scan H W m ps st = Some (Labelled st') \<and> scan_inv H W m all st'
         else label_scan H W m ps st = Some Max_Blobs"
  using assms(1-4) unfolding all_def
proof (induction ps arbitrary: st "done")
  case Nil
  then show ?case by simp
next
  case (Cons p ps)
  obtain x y where p: "p = (x, y)" by (cases p)
  have xy: "x < W" "y < H" and ps: "set ps \<subseteq> {..<W} \<times> {..<H}" using Cons.prems(4) p by auto
  let ?all = "done \<union> (set (p # ps) \<inter> white H W m)"
  have all_white: "?all \<subseteq> white H W m" using Cons.prems(2) by auto
  show ?case
  proof (cases "m y x = 0")
    case True
    then have eq: "?all = done \<union> (set ps \<inter> white H W m)" by (auto simp: p white_def)
    have "label_scan H W m (p # ps) st = label_scan H W m ps st" using True by (simp add: p)
    with Cons.IH [OF Cons.prems(1-3) ps] show ?thesis unfolding eq by simp
  next
    case False
    then have w: "(x, y) \<in> white H W m" using xy by (simp add: white_def)
    then have sub: "insert (x, y) done \<subseteq> white H W m" using Cons.prems(2) by simp
    have eq: "?all = insert (x, y) done \<union> (set ps \<inter> white H W m)" using w by (auto simp: p)
    show ?thesis
    proof (cases "labels st y x = 0")
      case lab: False
      from scan_inv_skip [OF Cons.prems(1) lab Cons.prems(2)]
      have inv: "scan_inv H W m (insert (x, y) done) st" .
      have "labels_fit H W m (insert (x, y) done)"
        using inv Cons.prems(1,3) by (simp add: scan_inv_def labels_fit_def)
      note IH = Cons.IH [OF inv sub this ps]
      have "label_scan H W m (p # ps) st = label_scan H W m ps st" using lab by (simp add: p)
      then show ?thesis unfolding eq using IH by (simp only:)
    next
      case lab: True
      obtain st' where st': "label_blob H W m (x, y) st = Some st'"
        "scan_inv H W m (insert (x, y) done) st'"
        using scan_inv_label [OF Cons.prems(1) lab Cons.prems(2) w] .
      have cur: "MAX_LABELS \<le> current_label st' \<longleftrightarrow> \<not> labels_fit H W m (insert (x, y) done)"
        using st'(2) by (auto simp: scan_inv_def labels_fit_def)
      show ?thesis
      proof (cases "labels_fit H W m (insert (x, y) done)")
        case True
        have "label_scan H W m (p # ps) st = label_scan H W m ps st'"
          using True lab False cur st'(1) by (simp add: p)
        then show ?thesis unfolding eq using Cons.IH [OF st'(2) sub True ps] by (simp only:)
      next
        case nofit: False
        then have "\<not> labels_fit H W m ?all" using labels_fit_mono [OF _ _ all_white] eq by blast
        then show ?thesis using nofit lab False cur st'(1) by (simp add: p)
      qed
    qed
  qed
qed

lemma set_frame_points: "set (frame_points H W) = {..<W} \<times> {..<H}"
  by (auto simp: frame_points_def)

lemma erase_small_apply:
  "erase_small H W k st m y x =
     (if y < H \<and> x < W \<and> labels st y x \<noteq> 0 \<and> int (label_sizes st (labels st y x)) < k then 0 else m y x)"
proof -
  let ?f = "\<lambda>y x (v::u8). if labels st y x \<noteq> 0 \<and> int (label_sizes st (labels st y x)) < k then 0 else v"
  have "erase_small H W k st m = raster [0..<H] [0..<W] (\<lambda>y x m. put_pixel m y x (?f y x (m y x))) m"
    unfolding erase_small_def Let_def
    by (intro arg_cong2 [where f = "raster [0..<H] [0..<W]"] ext) (auto simp: put_pixel_def)
  then show ?thesis using raster_update [of "[0..<H]" "[0..<W]" ?f m y x] by auto
qed

lemma labels_fit_blobs: "labels_fit H W m (white H W m) \<longleftrightarrow> card (blobs H W m) + 1 < MAX_LABELS"
  by (simp add: labels_fit_def blobs_def)

lemma filter_small_blobs_result:
  "\<exists>m'. filter_small_blobs H W m k = Some m'
     \<and> (\<forall>y x. m' y x =
          (if card (blobs H W m) + 1 < MAX_LABELS \<and> (x, y) \<in> white H W m
              \<and> int (card (blob H W m (x, y))) < k then 0 else m y x))"
proof -
  have all: "{} \<union> (set (frame_points H W) \<inter> white H W m) = white H W m"
    by (auto simp: set_frame_points white_def)
  have fit0: "labels_fit H W m {}" by (simp add: labels_fit_def MAX_LABELS_def)
  note r = label_scan_result [OF scan_inv_start _ fit0, of "frame_points H W",
      unfolded set_frame_points [symmetric], simplified, unfolded all [simplified]]
  show ?thesis
  proof (cases "labels_fit H W m (white H W m)")
    case False
    with r show ?thesis by (simp add: filter_small_blobs_def labels_fit_blobs)
  next
    case True
    with r obtain st where st: "label_scan H W m (frame_points H W) labelling_start = Some (Labelled st)"
      "scan_inv H W m (white H W m) st" by auto
    have lab: "labels st y x \<noteq> 0 \<longleftrightarrow> (x, y) \<in> white H W m" for x y
      unfolding scan_invD(2) [OF st(2)] using blob_subset [of _ H W m] blob_refl by blast
    have "erase_small H W k st m y x =
        (if (x, y) \<in> white H W m \<and> int (card (blob H W m (x, y))) < k then 0 else m y x)" for y x
      using lab [of y x] scan_invD(4) [OF st(2), of y x]
      by (auto simp: erase_small_apply white_def)
    then show ?thesis using True st(1) by (simp add: filter_small_blobs_def labels_fit_blobs)
  qed
qed

section \<open>Properties\<close>

text \<open>
  C8: \<open>filter_small_blobs\<close> always returns, and when the frame has fewer than 9999 connected components
  (4-neighbourhood) the result is the mask without exactly those pixels whose component has fewer than
  \<open>min_size\<close> pixels; with 9999 components or more the mask is returned as it was.
\<close>

theorem filter_small_blobs_components:
  "\<exists>m'. filter_small_blobs H W m min_size = Some m'
     \<and> (\<forall>y x. m' y x =
          (if card (blobs H W m) + 1 < MAX_LABELS \<and> (x, y) \<in> white H W m
              \<and> int (card (blob H W m (x, y))) < min_size then 0 else m y x))"
  by (rule filter_small_blobs_result)

text \<open>
  C16: a flood fill started on an unlabelled component terminates, labels exactly the pixels of the
  component of its seed, counts them, and its queue array of \<open>HEIGHT * WIDTH\<close> points never overflows.
\<close>

theorem flood_fill_component:
  assumes "fresh H W m l L p"
  shows "\<exists>f. flood_fill H W m l L p = Some f \<and> blob_size f = card (blob H W m p)
     \<and> label_map f = (\<lambda>y x. if (x, y) \<in> blob H W m p then l else L y x)
     \<and> length (flood_queue f) \<le> H * W"
proof -
  obtain f where f: "flood_fill H W m l L p = Some f" "blob_size f = card (blob H W m p)"
    "label_map f = (\<lambda>y x. if (x, y) \<in> blob H W m p then l else L y x)"
    "length (flood_queue f) = card (blob H W m p)" by (rule flood_fill_blob [OF assms])
  have "card (blob H W m p) \<le> card (white H W m)"
    using assms blob_subset by (intro card_mono) (auto simp: fresh_def)
  with f card_white_le [of H W m] show ?thesis by auto
qed

theorem flood_fill_component_witness:
  "\<exists>f. flood_fill 1 1 (\<lambda>y x. 1) 1 (\<lambda>y x. 0) (0, 0) = Some f \<and> length (flood_queue f) \<le> 1"
  using flood_fill_component [of 1 1 "\<lambda>y x. 1" 1 "\<lambda>y x. 0" "(0, 0)"]
  by (auto simp: fresh_def white_def)

end
