(* ===== verification/Green_Frame.thy ===== *)
theory Green_Frame
  imports Hsv Morphology Blob_Filter
begin

text \<open>
  One iteration of \<open>green_mask_thread\<close> (green_mask.c:260-318): the thresholding loop over the
  camera's RGB buffer, the chain erode, dilate, filter, and what is handed to the queue when a
  sample is missing or cannot be mapped. The camera is an arbitrary sequence of events.
\<close>


definition MIN_BLOB :: int where "MIN_BLOB = 600"

definition threshold :: "nat \<Rightarrow> nat \<Rightarrow> (nat \<Rightarrow> u8) \<Rightarrow> mask \<Rightarrow> mask" where
  "threshold H W data green_mask =
     raster [0..<H] [0..<W]
       (\<lambda>y x green_mask.
          (let idx = (y * W + x) * 3;
               r = data idx;
               g = data (idx + 1);
               b = data (idx + 2)
           in put_pixel green_mask y x (green_pixel r g b))) green_mask"

record mask_buffers =
  green_mask :: mask
  temp_mask :: mask

definition process_frame :: "nat \<Rightarrow> nat \<Rightarrow> (nat \<Rightarrow> u8) \<Rightarrow> mask_buffers \<Rightarrow> mask_buffers option" where
  "process_frame H W data s =
     (let green = threshold H W data (green_mask s);
          temp = erode_mask H W green (temp_mask s);
          green = dilate_mask H W temp green
      in case filter_small_blobs H W green MIN_BLOB of
           None \<Rightarrow> None
         | Some green \<Rightarrow> Some \<lparr>green_mask = green, temp_mask = temp\<rparr>)"

datatype camera_event =
    No_Sample
  | Unmapped
  | Frame "nat \<Rightarrow> u8"

definition green_mask_iteration ::
    "nat \<Rightarrow> nat \<Rightarrow> camera_event \<Rightarrow> mask_buffers \<Rightarrow> (mask_buffers \<times> mask option) option" where
  "green_mask_iteration H W e s =
     (case e of
        No_Sample \<Rightarrow> Some (s, None)
      | Unmapped \<Rightarrow> Some (s, Some (green_mask s))
      | Frame data \<Rightarrow>
          (case process_frame H W data s of
             None \<Rightarrow> None
           | Some s' \<Rightarrow> Some (s', Some (green_mask s'))))"

fun green_mask_run :: "nat \<Rightarrow> nat \<Rightarrow> camera_event list \<Rightarrow> mask_buffers \<Rightarrow> mask list option" where
  "green_mask_run H W [] s = Some []"
| "green_mask_run H W (e # es) s =
     (case green_mask_iteration H W e s of
        None \<Rightarrow> None
      | Some (s', out) \<Rightarrow>
          (case green_mask_run H W es s' of
             None \<Rightarrow> None
           | Some ms \<Rightarrow> Some (case out of None \<Rightarrow> ms | Some m \<Rightarrow> m # ms)))"

lemma threshold_apply:
  "threshold H W data m y x =
     (if y < H \<and> x < W
      then green_pixel (data ((y * W + x) * 3)) (data ((y * W + x) * 3 + 1)) (data ((y * W + x) * 3 + 2))
      else m y x)"
  using raster_put_pixel [of "[0..<H]" "[0..<W]"
      "\<lambda>y x. green_pixel (data ((y * W + x) * 3)) (data ((y * W + x) * 3 + 1)) (data ((y * W + x) * 3 + 2))" m y x]
  by (simp add: threshold_def Let_def)

lemma frame_index: "y < H \<Longrightarrow> x < W \<Longrightarrow> (y * W + x) * 3 + 2 < H * W * (3::nat)"
proof -
  assume "y < H" "x < W"
  then have "Suc y * W \<le> H * W" by (intro mult_le_mono1) simp
  with \<open>x < W\<close> show ?thesis by (simp add: algebra_simps)
qed

lemma process_frame_reads:
  "process_frame H W (\<lambda>i. if i < H * W * 3 then data i else beyond i) s = process_frame H W data s"
proof -
  have "threshold H W (\<lambda>i. if i < H * W * 3 then data i else beyond i) m = threshold H W data m" for m
  proof (intro ext)
    fix y x
    show "threshold H W (\<lambda>i. if i < H * W * 3 then data i else beyond i) m y x = threshold H W data m y x"
      using frame_index [of y H x W] by (cases "y < H \<and> x < W") (auto simp: threshold_apply)
  qed
  then show ?thesis by (simp only: process_frame_def)
qed

definition green_at :: "nat \<Rightarrow> (nat \<Rightarrow> u8) \<Rightarrow> nat \<Rightarrow> nat \<Rightarrow> bool" where
  "green_at W data y x \<longleftrightarrow>
     green_pixel (data ((y * W + x) * 3)) (data ((y * W + x) * 3 + 1)) (data ((y * W + x) * 3 + 2)) = 1"

definition opened :: "nat \<Rightarrow> nat \<Rightarrow> (nat \<Rightarrow> nat \<Rightarrow> bool) \<Rightarrow> nat \<Rightarrow> nat \<Rightarrow> bool" where
  "opened H W P y x \<longleftrightarrow>
     interior H W y x
     \<and> (\<exists>a b. interior H W a b \<and> near a y \<and> near b x \<and> (\<forall>y' x'. near y' a \<and> near x' b \<longrightarrow> P y' x'))"

lemma open_mask_apply:
  assumes "y < H" "x < W"
  shows "dilate_mask H W (erode_mask H W m t) u y x = (if opened H W (\<lambda>y x. m y x \<noteq> 0) y x then 1 else 0)"
proof -
  have e: "erode_mask H W m t a b \<noteq> 0 \<longleftrightarrow>
      interior H W a b \<and> (\<forall>y' x'. near y' a \<and> near x' b \<longrightarrow> m y' x' \<noteq> 0)"
    if "interior H W y x" "near a y" "near b x" for a b
  proof -
    have "a < H" "b < W" using that by (auto simp: interior_def near_def)
    then show ?thesis by (simp add: erode_mask_apply)
  qed
  show ?thesis unfolding dilate_mask_apply [OF assms] opened_def using e by (intro if_cong) blast+
qed

lemma opened_subset: "opened H W P y x \<Longrightarrow> P y x"
  by (auto simp: opened_def near_def)

lemma opened_mono: "opened H W P y x \<Longrightarrow> (\<And>y x. P y x \<Longrightarrow> Q y x) \<Longrightarrow> opened H W Q y x"
  by (fastforce simp: opened_def)

lemma green_pixel_01: "green_pixel r g b \<in> {0, 1}"
  by (auto simp: green_pixel_def split: prod.splits)

lemma opened_frame_cong:
  assumes "\<And>y x. y < H \<Longrightarrow> x < W \<Longrightarrow> P y x \<longleftrightarrow> Q y x"
  shows "opened H W P y x \<longleftrightarrow> opened H W Q y x"
proof -
  have "(\<forall>y' x'. near y' a \<and> near x' b \<longrightarrow> P y' x') \<longleftrightarrow> (\<forall>y' x'. near y' a \<and> near x' b \<longrightarrow> Q y' x')"
    if "interior H W a b" for a b
  proof -
    have "y' < H \<and> x' < W" if "near y' a" "near x' b" for y' x'
      using that \<open>interior H W a b\<close> by (auto simp: interior_def near_def)
    with assms show ?thesis by blast
  qed
  then show ?thesis unfolding opened_def by blast
qed

definition frame_mask :: "nat \<Rightarrow> nat \<Rightarrow> (nat \<Rightarrow> u8) \<Rightarrow> mask" where
  "frame_mask H W data = (\<lambda>y x. if y < H \<and> x < W \<and> opened H W (green_at W data) y x then 1 else 0)"

lemma blob_cong:
  assumes "\<And>y x. y < H \<Longrightarrow> x < W \<Longrightarrow> m y x = n y x"
  shows "white H W m = white H W n" "blob H W m = blob H W n" "blobs H W m = blobs H W n"
proof -
  show w: "white H W m = white H W n" using assms by (auto simp: white_def)
  have "links H W m = links H W n" by (simp add: links_def w)
  then show b: "blob H W m = blob H W n" by (intro ext) (simp add: blob_def)
  show "blobs H W m = blobs H W n" by (simp add: blobs_def w b)
qed

lemma process_frame_result:
  "\<exists>s'. process_frame H W data s = Some s'
     \<and> (\<forall>y x. y < H \<and> x < W \<longrightarrow> green_mask s' y x =
          (if card (blobs H W (frame_mask H W data)) + 1 < MAX_LABELS
              \<and> int (card (blob H W (frame_mask H W data) (x, y))) < MIN_BLOB
           then 0 else frame_mask H W data y x))"
proof -
  let ?g = "threshold H W data (green_mask s)"
  let ?o = "dilate_mask H W (erode_mask H W ?g (temp_mask s)) ?g"
  have "?g y x \<noteq> 0 \<longleftrightarrow> green_at W data y x" if "y < H" "x < W" for y x
    using that green_pixel_01 by (fastforce simp: threshold_apply green_at_def)
  then have "opened H W (\<lambda>y x. ?g y x \<noteq> 0) y x \<longleftrightarrow> opened H W (green_at W data) y x" for y x
    by (rule opened_frame_cong)
  then have o: "?o y x = frame_mask H W data y x" if "y < H" "x < W" for y x
    using that by (simp add: open_mask_apply frame_mask_def)
  have c: "white H W ?o = white H W (frame_mask H W data)" "blob H W ?o = blob H W (frame_mask H W data)"
    "blobs H W ?o = blobs H W (frame_mask H W data)"
    by (rule blob_cong, erule o, assumption)+
  obtain m' where m': "filter_small_blobs H W ?o MIN_BLOB = Some m'"
    "\<forall>y x. m' y x = (if card (blobs H W ?o) + 1 < MAX_LABELS \<and> (x, y) \<in> white H W ?o
                   \<and> int (card (blob H W ?o (x, y))) < MIN_BLOB then 0 else ?o y x)"
    using filter_small_blobs_result by blast
  have "process_frame H W data s =
      Some \<lparr>green_mask = m', temp_mask = erode_mask H W ?g (temp_mask s)\<rparr>"
    by (simp add: process_frame_def Let_def m'(1))
  then show ?thesis using m'(2) [unfolded c] o by (auto simp: white_def)
qed

section \<open>Properties\<close>

text \<open>
  C15: for every RGB frame the chain threshold, erode, dilate, filter returns, and its result does not
  depend on what the two buffers held: a pixel is set exactly when it is covered by a 3x3 square of
  green pixels inside the frame (see \<open>opened\<close>) and its component in that opened mask has at least 600 pixels
  (components are kept whatever their size when there are 9999 of them or more). No byte of the buffer
  beyond the H * W * 3 of the frame is read.
\<close>

theorem process_frame_pixels:
  "\<exists>s'. process_frame H W data s = Some s'
     \<and> process_frame H W (\<lambda>i. if i < H * W * 3 then data i else beyond i) s = Some s'
     \<and> (\<forall>y x. y < H \<and> x < W \<longrightarrow> green_mask s' y x =
          (if card (blobs H W (frame_mask H W data)) + 1 < MAX_LABELS
              \<and> int (card (blob H W (frame_mask H W data) (x, y))) < MIN_BLOB
           then 0 else frame_mask H W data y x))"
  unfolding process_frame_reads using process_frame_result by blast

theorem process_frame_pixels_witness:
  "\<exists>s'. process_frame 1 1 (\<lambda>i. 0) \<lparr>green_mask = \<lambda>y x. 1, temp_mask = \<lambda>y x. 1\<rparr> = Some s' \<and> green_mask s' 0 0 = 0"
  using process_frame_pixels [of 1 1 "\<lambda>i. 0" "\<lparr>green_mask = \<lambda>y x. 1, temp_mask = \<lambda>y x. 1\<rparr>" "\<lambda>i. 255"]
  by (auto simp: frame_mask_def opened_def interior_def split: if_splits)

text \<open>
  When a sample cannot be mapped, the thread still enqueues its buffer: the mask of the previous
  frame is delivered a second time as if it were a new one (green_mask.c:274-310).
\<close>

lemma unmapped_sample_repeats_mask:
  assumes "process_frame H W data s = Some s'"
  shows "green_mask_run H W [Frame data, Unmapped] s = Some [green_mask s', green_mask s']"
  using assms by (simp add: green_mask_iteration_def)

lemma unmapped_sample_repeats_mask_example:
  "\<exists>s' :: mask_buffers. green_mask_run 1 1 [Frame (\<lambda>i. 0), Unmapped] \<lparr>green_mask = \<lambda>y x. 1, temp_mask = \<lambda>y x. 1\<rparr>
     = Some [green_mask s', green_mask s']"
proof -
  obtain s' where "process_frame 1 1 (\<lambda>i. 0) \<lparr>green_mask = \<lambda>y x. 1, temp_mask = \<lambda>y x. 1\<rparr> = Some s'"
    using process_frame_result by blast
  from unmapped_sample_repeats_mask [OF this] show ?thesis by blast
qed

end
