(* ===== verification/Hw_Interface.thy ===== *)
theory Hw_Interface
  imports Machine_Floats
begin

text \<open>
  \<open>app/src/hw_interface.c\<close> and its header: the PWM words, the exchange with the FPGA through the
  memory mapped registers of the DE10 and through the SPI link of the Raspberry Pi, device bring-up
  with its error paths, homing, and the conversion of encoder counts to radians. The FPGA is a
  record of what was written to it and an arbitrary stream of what it answers; results of operating
  system calls are arguments. The locale \<open>encoder_link\<close> is the contract of the exchange, on which
  homing and the control loop rest; both platforms interpret it.
\<close>


definition PWM_MID_POINT :: u16 where
  "PWM_MID_POINT = 2048"

definition get_pwm_value :: "int \<Rightarrow> u16 \<Rightarrow> u16" where
  "get_pwm_value dir requested_pwm1 = word_of_int (uint PWM_MID_POINT + uint requested_pwm1 * dir)"

section \<open>The register interface of the DE10\<close>

record fpga =
  pwm_writes :: "u32 list"
  encoder_reads :: nat
  encoder_reg :: "nat \<Rightarrow> u32"

definition store_pwm :: "u32 \<Rightarrow> fpga \<Rightarrow> fpga" where
  "store_pwm v d = d\<lparr>pwm_writes := pwm_writes d @ [v]\<rparr>"

definition load_encoders :: "fpga \<Rightarrow> u32 \<times> fpga" where
  "load_encoders d = (encoder_reg d (encoder_reads d), d\<lparr>encoder_reads := encoder_reads d + 1\<rparr>)"

definition pack_pwm :: "u16 \<Rightarrow> u16 \<Rightarrow> u32" where
  "pack_pwm pitch_pwm yaw_pwm = push_bit 16 (ucast pitch_pwm) OR ucast yaw_pwm"

definition unpack_encoders :: "u32 \<Rightarrow> u16 \<times> u16" where
  "unpack_encoders encoder_vals = (ucast (drop_bit 16 encoder_vals), ucast (encoder_vals AND 0xFFFF))"

definition de10_read_write_encoder_pwm :: "u16 \<Rightarrow> u16 \<Rightarrow> fpga \<Rightarrow> (u16 \<times> u16) \<times> fpga" where
  "de10_read_write_encoder_pwm pitch_pwm yaw_pwm d =
     (case load_encoders (store_pwm (pack_pwm pitch_pwm yaw_pwm) d) of
        (encoder_vals, d') \<Rightarrow> (unpack_encoders encoder_vals, d'))"

definition de10_reset_fpga :: "fpga \<Rightarrow> int \<times> fpga" where
  "de10_reset_fpga d = (0, store_pwm (pack_pwm PWM_MID_POINT PWM_MID_POINT) d)"

section \<open>The SPI link of the Raspberry Pi\<close>

text \<open>A \<open>char\<close> is a byte; whether its promotion to \<open>int\<close> extends the sign depends on the ABI.\<close>

definition char_to_u16 :: "bool \<Rightarrow> u8 \<Rightarrow> u16" where
  "char_to_u16 char_is_signed c = (if char_is_signed then scast c else ucast c)"

record spi_link =
  TXBuf :: "u8 list"
  RXBuf :: "u8 list"
  spi_sent :: "u8 list list"
  spi_xfers :: nat
  spi_reply :: "nat \<Rightarrow> u8 list option"

definition spiXfer :: "spi_link \<Rightarrow> int \<times> spi_link" where
  "spiXfer l =
     (let l' = l\<lparr>spi_sent := spi_sent l @ [TXBuf l], spi_xfers := spi_xfers l + 1\<rparr>
      in case spi_reply l (spi_xfers l) of
           None \<Rightarrow> (-1, l')
         | Some bytes \<Rightarrow> (4, l'\<lparr>RXBuf := bytes\<rparr>))"

definition tx_bytes :: "u16 \<Rightarrow> u16 \<Rightarrow> u8 list" where
  "tx_bytes pitch_pwm yaw_pwm =
     [ucast (drop_bit 8 pitch_pwm AND 0xFF), ucast (pitch_pwm AND 0xFF),
      ucast (drop_bit 8 yaw_pwm AND 0xFF), ucast (yaw_pwm AND 0xFF)]"

definition rx_word :: "bool \<Rightarrow> u8 \<Rightarrow> u8 \<Rightarrow> u16" where
  "rx_word sc hi lo = push_bit 8 (char_to_u16 sc hi) OR char_to_u16 sc lo"

definition rx_encoders :: "bool \<Rightarrow> u8 list \<Rightarrow> u16 \<times> u16" where
  "rx_encoders sc rx = (rx_word sc (rx ! 0) (rx ! 1), rx_word sc (rx ! 2) (rx ! 3))"

definition rpi_read_write_encoder_pwm :: "bool \<Rightarrow> u16 \<Rightarrow> u16 \<Rightarrow> spi_link \<Rightarrow> (u16 \<times> u16) \<times> spi_link" where
  "rpi_read_write_encoder_pwm sc pitch_pwm yaw_pwm l =
     (case spiXfer (l\<lparr>TXBuf := tx_bytes pitch_pwm yaw_pwm\<rparr>) of
        (err, l') \<Rightarrow> (rx_encoders sc (RXBuf l'), l'))"

section \<open>Bringing the devices up and down\<close>

datatype os_call =
    Open string
  | Ioctl string
  | Close
  | Gpio_Open string
  | Gpio_Line nat
  | Gpio_Output nat
  | Gpio_Set nat
  | Usleep nat
  | Gpio_Close bool

fun decimal :: "nat \<Rightarrow> string" where
  "decimal n = (if n < 10 then [char_of (48 + n)] else decimal (n div 10) @ [char_of (48 + n mod 10)])"
declare decimal.simps [simp del]

definition spi_dev :: "u32 \<Rightarrow> string" where
  "spi_dev spiChan =
     ''/dev/spidev0.'' @ (if sint spiChan < 0 then ''-'' @ decimal (nat (- sint spiChan))
                          else decimal (nat (sint spiChan)))"

definition spiOpen :: "int \<Rightarrow> int \<Rightarrow> int \<Rightarrow> int \<Rightarrow> u32 \<Rightarrow> int \<times> os_call list" where
  "spiOpen fd wr_mode wr_bits wr_speed spiChan =
     (let opened = [Open (spi_dev spiChan)] in
      if fd < 0 then (-1, opened)
      else if wr_mode < 0 then (-2, opened @ [Ioctl ''MODE'', Close])
      else if wr_bits < 0 then (-3, opened @ [Ioctl ''MODE'', Ioctl ''BITS'', Close])
      else if wr_speed < 0 then (-4, opened @ [Ioctl ''MODE'', Ioctl ''BITS'', Ioctl ''SPEED'', Close])
      else (fd, opened @ [Ioctl ''MODE'', Ioctl ''BITS'', Ioctl ''SPEED'']))"

definition RESET_GPIO :: nat where "RESET_GPIO = 23"

definition rpi_reset_fpga :: "bool \<Rightarrow> bool \<Rightarrow> int \<Rightarrow> int \<times> os_call list" where
  "rpi_reset_fpga chip line request =
     (let opened = [Gpio_Open ''gpiochip0'']
      in if \<not> chip then (1, opened)
         else if \<not> line then (1, opened @ [Gpio_Line RESET_GPIO, Gpio_Close True])
         else if request < 0 then (1, opened @ [Gpio_Line RESET_GPIO, Gpio_Output 1, Gpio_Close True])
         else (0, opened @ [Gpio_Line RESET_GPIO, Gpio_Output 1, Gpio_Set 0, Usleep 2000,
                            Gpio_Set 1, Usleep 2000, Gpio_Set 0, Usleep 1000]))"

definition rpi_release_reset_gpio :: "bool \<Rightarrow> os_call list" where
  "rpi_release_reset_gpio chip = [Gpio_Open ''gpiochip0'', Gpio_Close chip]"

section \<open>Homing and the conversion to radians\<close>

type_synonym 'd transfer = "u16 \<Rightarrow> u16 \<Rightarrow> 'd \<Rightarrow> (u16 \<times> u16) \<times> 'd"

record 'd rig =
  device :: 'd
  p_settings :: "u16 list"
  y_settings :: "u16 list"

definition transfer_to :: "'d transfer \<Rightarrow> nat \<Rightarrow> u16 \<Rightarrow> u16 \<Rightarrow> 'd rig \<Rightarrow> 'd rig" where
  "transfer_to xfer i pitch_pwm yaw_pwm s =
     (case xfer pitch_pwm yaw_pwm (device s) of
        ((p, y), d) \<Rightarrow> s\<lparr>device := d, p_settings := (p_settings s)[i := p],
                         y_settings := (y_settings s)[i := y]\<rparr>)"

definition homing_sequence :: "'d transfer \<Rightarrow> 'd rig \<Rightarrow> 'd rig" where
  "homing_sequence xfer s =
     (let s = transfer_to xfer 0 (get_pwm_value (-1) 0) (get_pwm_value (-1) 0) s;
          s = (transfer_to xfer 1 (get_pwm_value (-1) 128) (get_pwm_value (-1) 512) ^^ 1000) s;
          s = transfer_to xfer 1 (get_pwm_value (-1) 0) (get_pwm_value (-1) 0) s;
          s = transfer_to xfer 1 (get_pwm_value (-1) 0) (get_pwm_value (-1) 0) s;
          s = (transfer_to xfer 2 (get_pwm_value 1 128) (get_pwm_value 1 512) ^^ 1000) s;
          s = transfer_to xfer 2 (get_pwm_value 1 0) (get_pwm_value 1 0) s
      in transfer_to xfer 2 (get_pwm_value 1 0) (get_pwm_value 1 0) s)"

definition init_fpga :: "('d \<Rightarrow> 'd) \<Rightarrow> 'd transfer \<Rightarrow> 'd rig \<Rightarrow> 'd rig" where
  "init_fpga reset xfer s =
     transfer_to xfer 3 PWM_MID_POINT PWM_MID_POINT (s\<lparr>device := reset (device s)\<rparr>)"

definition PITCH_MIN_RAD :: rat where "PITCH_MIN_RAD = f64 (2617993878 / 10 ^ 10)"
definition PITCH_MAX_RAD :: rat where "PITCH_MAX_RAD = f64 (23561944902 / 10 ^ 10)"
definition YAW_MIN_RAD :: rat where "YAW_MIN_RAD = 0"
definition YAW_MAX_RAD :: rat where "YAW_MAX_RAD = f64 (31415926536 / 10 ^ 10)"

definition axis_rad :: "rat \<Rightarrow> rat \<Rightarrow> u16 list \<Rightarrow> rat" where
  "axis_rad lo hi settings =
     (let begin_v = settings ! 1; end_v = settings ! 2; current = settings ! 3
      in if begin_v = end_v then lo
         else (let ratio = f64 (of_int (uint current - uint begin_v) / of_int (uint end_v - uint begin_v))
               in f64 (lo + f64 (ratio * f64 (hi - lo)))))"

definition get_rad_from_encoder :: "u16 list \<Rightarrow> u16 list \<Rightarrow> rat \<times> rat" where
  "get_rad_from_encoder pitch_settings yaw_settings =
     (axis_rad PITCH_MIN_RAD PITCH_MAX_RAD pitch_settings, axis_rad YAW_MIN_RAD YAW_MAX_RAD yaw_settings)"

section \<open>The contract of the link to the FPGA\<close>

locale encoder_link =
  fixes xfer :: "'d transfer"
    and sent :: "'d \<Rightarrow> (u16 \<times> u16) list"
    and reply :: "'d \<Rightarrow> nat \<Rightarrow> u16 \<times> u16"
  assumes sent_xfer: "sent (snd (xfer p y d)) = sent d @ [(p, y)]"
    and xfer_reply: "fst (xfer p y d) = reply d 0"
    and reply_xfer: "reply (snd (xfer p y d)) n = reply d (Suc n)"
begin

lemma transfer_to_rig:
  "sent (device (transfer_to xfer i p y s)) = sent (device s) @ [(p, y)]"
  "reply (device (transfer_to xfer i p y s)) n = reply (device s) (Suc n)"
  "p_settings (transfer_to xfer i p y s) = (p_settings s)[i := fst (reply (device s) 0)]"
  "y_settings (transfer_to xfer i p y s) = (y_settings s)[i := snd (reply (device s) 0)]"
  using sent_xfer [of p y "device s"] xfer_reply [of p y "device s"] reply_xfer [of p y "device s" n]
  by (cases "reply (device s) 0"; auto simp: transfer_to_def split: prod.splits)+

lemma transfer_loop:
  "sent (device ((transfer_to xfer i p y ^^ n) s)) = sent (device s) @ replicate n (p, y)
   \<and> reply (device ((transfer_to xfer i p y ^^ n) s)) k = reply (device s) (n + k)
   \<and> p_settings ((transfer_to xfer i p y ^^ n) s) =
       (if n = 0 then p_settings s else (p_settings s)[i := fst (reply (device s) (n - 1))])
   \<and> y_settings ((transfer_to xfer i p y ^^ n) s) =
       (if n = 0 then y_settings s else (y_settings s)[i := snd (reply (device s) (n - 1))])"
proof (induction n arbitrary: k)
  case (Suc n)
  then show ?case by (cases n) (simp_all add: transfer_to_rig replicate_append_same [symmetric])
qed simp

end

lemma byte_masks: "(0xFF :: u16) = mask 8" "(0xFFFF :: u32) = mask 16"
  by (simp_all add: mask_eq_exp_minus_1)

lemma pack_pwm_unpack: "unpack_encoders (pack_pwm p y) = (p, y)"
proof -
  have "\<not> bit y (16 + n)" for n using bit_imp_le_length [of y "16 + n"] by auto
  then show ?thesis unfolding unpack_encoders_def pack_pwm_def byte_masks
    by (auto intro!: bit_word_eqI simp: bit_simps)
qed

definition rx_at :: "spi_link \<Rightarrow> nat \<Rightarrow> u8 list" where
  "rx_at l n = fold (\<lambda>i rx. case spi_reply l i of None \<Rightarrow> rx | Some b \<Rightarrow> b)
                 [spi_xfers l..<spi_xfers l + Suc n] (RXBuf l)"

definition spi_decode :: "u8 list \<Rightarrow> u16 \<times> u16" where
  "spi_decode b = rx_encoders False b"

lemma spi_roundtrip: "spi_decode (tx_bytes p y) = (p, y)"
proof -
  have "rx_word False (ucast (drop_bit 8 w AND mask 8)) (ucast (w AND mask 8)) = w" for w
    unfolding rx_word_def char_to_u16_def
    by (rule bit_word_eqI) (auto simp: bit_simps)
  then show ?thesis unfolding spi_decode_def rx_encoders_def tx_bytes_def byte_masks by simp
qed

interpretation de10: encoder_link de10_read_write_encoder_pwm
    "\<lambda>d. map unpack_encoders (pwm_writes d)"
    "\<lambda>d n. unpack_encoders (encoder_reg d (encoder_reads d + n))"
  by unfold_locales
    (simp_all add: de10_read_write_encoder_pwm_def load_encoders_def store_pwm_def pack_pwm_unpack)

interpretation rpi: encoder_link "rpi_read_write_encoder_pwm sc"
    "\<lambda>l. map spi_decode (spi_sent l)"
    "\<lambda>l n. rx_encoders sc (rx_at l n)" for sc
  by unfold_locales
    (simp_all add: rpi_read_write_encoder_pwm_def spiXfer_def Let_def spi_roundtrip rx_at_def
      upt_conv_Cons del: upt_Suc split: option.split)

section \<open>What homing does to the motors and to the settings\<close>

definition homing_commands :: "(u16 \<times> u16) list" where
  "homing_commands =
     [(2048, 2048)] @ replicate 1000 (1920, 1536) @ [(2048, 2048), (2048, 2048)]
     @ replicate 1000 (2176, 2560) @ [(2048, 2048), (2048, 2048)]"

lemma pwm_values:
  "get_pwm_value (- 1) 0 = 2048" "get_pwm_value 1 0 = 2048"
  "get_pwm_value (- 1) 128 = 1920" "get_pwm_value (- 1) 512 = 1536"
  "get_pwm_value 1 128 = 2176" "get_pwm_value 1 512 = 2560"
  by (simp_all add: get_pwm_value_def PWM_MID_POINT_def)

context encoder_link
begin

lemma homing_sent:
  "sent (device (homing_sequence xfer s)) = sent (device s) @ homing_commands"
  unfolding homing_sequence_def Let_def transfer_to_rig(1) transfer_loop [THEN conjunct1] pwm_values
    homing_commands_def by simp

lemma homing_settings:
  assumes "length (p_settings s) = 4" "length (y_settings s) = 4"
  shows "p_settings (homing_sequence xfer s) =
      [fst (reply (device s) 0), fst (reply (device s) 1002), fst (reply (device s) 2004), p_settings s ! 3]"
    and "y_settings (homing_sequence xfer s) =
      [snd (reply (device s) 0), snd (reply (device s) 1002), snd (reply (device s) 2004), y_settings s ! 3]"
proof -
  obtain a b c d where p: "p_settings s = [a, b, c, d]"
    using assms(1) by (auto simp: length_Suc_conv eval_nat_numeral)
  obtain a' b' c' d' where y: "y_settings s = [a', b', c', d']"
    using assms(2) by (auto simp: length_Suc_conv eval_nat_numeral)
  show "p_settings (homing_sequence xfer s) =
      [fst (reply (device s) 0), fst (reply (device s) 1002), fst (reply (device s) 2004), p_settings s ! 3]"
    unfolding homing_sequence_def Let_def by (simp add: transfer_to_rig transfer_loop p)
  show "y_settings (homing_sequence xfer s) =
      [snd (reply (device s) 0), snd (reply (device s) 1002), snd (reply (device s) 2004), y_settings s ! 3]"
    unfolding homing_sequence_def Let_def by (simp add: transfer_to_rig transfer_loop y)
qed

end

section \<open>Radians\<close>

lemma int_u16_exact: "f64 (of_int (uint (a :: u16) - uint (b :: u16))) = of_int (uint a - uint b)"
proof -
  have "0 \<le> uint a" "uint a < 65536" "0 \<le> uint b" "uint b < 65536"
    using uint_lt2p [of a] uint_lt2p [of b] by simp_all
  then have "\<bar>uint a - uint b\<bar> \<le> 65536" by linarith
  then have "\<bar>uint a - uint b\<bar> \<le> 2 ^ 24" by simp
  then show ?thesis by (rule double.int_exact)
qed

lemma quotient_unit:
  fixes b c e :: int
  assumes "b \<le> c \<and> c \<le> e \<or> e \<le> c \<and> c \<le> b"
  shows "0 \<le> rat_of_int (c - b) / of_int (e - b) \<and> rat_of_int (c - b) / of_int (e - b) \<le> 1"
  using assms
proof
  assume *: "b \<le> c \<and> c \<le> e"
  then have "rat_of_int (c - b) \<le> of_int (e - b)" "0 \<le> rat_of_int (c - b)" by (simp_all only: of_int_le_iff of_int_0_le_iff) simp_all
  then show ?thesis by (auto simp: divide_le_eq_1)
next
  assume *: "e \<le> c \<and> c \<le> b"
  then have "rat_of_int (e - b) \<le> of_int (c - b)" "rat_of_int (c - b) \<le> 0" by (simp_all only: of_int_le_iff of_int_le_0_iff) simp_all
  then show ?thesis by (auto simp: divide_le_eq_1 zero_le_divide_iff)
qed

definition toward :: "u16 list \<Rightarrow> bool" where
  "toward s \<longleftrightarrow>
     uint (s ! 1) \<le> uint (s ! 3) \<and> uint (s ! 3) \<le> uint (s ! 2) \<or>
     uint (s ! 2) \<le> uint (s ! 3) \<and> uint (s ! 3) \<le> uint (s ! 1)"

lemma axis_rad_range:
  assumes "toward s" "is_f64 lo" "lo \<le> hi"
  shows "lo \<le> axis_rad lo hi s" "axis_rad lo hi s \<le> f64 (lo + f64 (hi - lo))"
proof -
  let ?b = "uint (s ! 1)" and ?e = "uint (s ! 2)" and ?c = "uint (s ! 3)"
  let ?q = "rat_of_int (?c - ?b) / of_int (?e - ?b)"
  have "lo \<le> axis_rad lo hi s \<and> axis_rad lo hi s \<le> f64 (lo + f64 (hi - lo))"
  proof (cases "s ! 1 = s ! 2")
    case True
    have "lo \<le> f64 (lo + f64 (hi - lo))"
      using assms by (intro double.lower) (simp_all add: double.nonneg)
    then show ?thesis using True by (simp add: axis_rad_def)
  next
    case False
    have "0 \<le> ?q \<and> ?q \<le> 1" using assms(1) unfolding toward_def by (rule quotient_unit)
    then have r: "0 \<le> f64 ?q" "f64 ?q \<le> 1" using double.unit by blast+
    have D: "0 \<le> f64 (hi - lo)" using assms(3) by (intro double.nonneg) simp
    then have "0 \<le> f64 ?q * f64 (hi - lo)" "f64 ?q * f64 (hi - lo) \<le> f64 (hi - lo)"
      using r by (simp_all add: mult_left_le_one_le)
    then have "0 \<le> f64 (f64 ?q * f64 (hi - lo))" "f64 (f64 ?q * f64 (hi - lo)) \<le> f64 (hi - lo)"
      using double.nonneg double.upper [OF double.closed] by blast+
    then have "lo \<le> f64 (lo + f64 (f64 ?q * f64 (hi - lo)))"
      "f64 (lo + f64 (f64 ?q * f64 (hi - lo))) \<le> f64 (lo + f64 (hi - lo))"
      using assms(2) by (auto intro!: double.lower double.mono)
    then show ?thesis using False by (simp add: axis_rad_def Let_def)
  qed
  then show "lo \<le> axis_rad lo hi s" "axis_rad lo hi s \<le> f64 (lo + f64 (hi - lo))" by blast+
qed

lemma rad_limits:
  "is_f64 PITCH_MIN_RAD" "PITCH_MIN_RAD \<le> PITCH_MAX_RAD" "is_f64 YAW_MIN_RAD" "YAW_MIN_RAD \<le> YAW_MAX_RAD"
  using double.ints [of 0] double.nonneg [of "31415926536 / 10 ^ 10"]
    double.mono [of "2617993878 / 10 ^ 10" "23561944902 / 10 ^ 10"]
  by (simp_all add: PITCH_MIN_RAD_def PITCH_MAX_RAD_def YAW_MIN_RAD_def YAW_MAX_RAD_def double.closed)

lemma pitch_top: "f64 (PITCH_MIN_RAD + f64 (PITCH_MAX_RAD - PITCH_MIN_RAD)) = PITCH_MAX_RAD"
  by code_simp

lemma pitch_min_pos: "0 < PITCH_MIN_RAD"
  by code_simp

lemma yaw_top: "f64 (YAW_MIN_RAD + f64 (YAW_MAX_RAD - YAW_MIN_RAD)) = YAW_MAX_RAD"
  by (simp add: YAW_MIN_RAD_def YAW_MAX_RAD_def)

section \<open>Device names\<close>

lemma decimal_length: "n < 10 ^ Suc k \<Longrightarrow> length (decimal n) \<le> Suc k"
proof (induction k arbitrary: n)
  case 0
  then show ?case by (simp add: decimal.simps)
next
  case (Suc k)
  show ?case
  proof (cases "n < 10")
    case True
    then show ?thesis by (simp add: decimal.simps)
  next
    case False
    have "n div 10 < 10 ^ Suc k" using Suc.prems by (simp add: less_mult_imp_div_less)
    from Suc.IH [OF this] False show ?thesis by (simp add: decimal.simps [of n])
  qed
qed

lemma spi_dev_length: "length (spi_dev ch) \<le> 25"
proof -
  have "- (2 ^ 31) \<le> sint ch" "sint ch < 2 ^ 31"
    using sint_greater_eq [of ch] sint_less [of ch] by simp_all
  then have "nat (sint ch) < 10 ^ Suc 9" "nat (- sint ch) < 10 ^ Suc 9" by simp_all
  from this [THEN decimal_length] show ?thesis by (simp add: spi_dev_def)
qed

section \<open>Properties\<close>

text \<open>
  C21: the two wire formats are faithful: unpacking the packed register word gives back the PWM pair, and
  reading four SPI bytes with an unsigned \<open>char\<close> inverts writing them.
\<close>

theorem link_roundtrip:
  "unpack_encoders (pack_pwm p y) = (p, y) \<and> rx_encoders False (tx_bytes p y) = (p, y)"
  using pack_pwm_unpack spi_roundtrip [unfolded spi_decode_def] by simp

text \<open>
  C17: homing over the DE10 registers sends exactly the motion profile (stop, 1000 slow backward
  commands, two stops, 1000 slow forward commands, two stops, so the motors stand still at its end)
  whatever the encoders answer, and it stores the first answer as start, the answer to the last backward
  stop as begin and the answer to the last forward stop as end, keeping the current count.
\<close>

theorem de10_homing:
  assumes "length (p_settings s) = 4" "length (y_settings s) = 4"
  shows "let ans = (\<lambda>n. unpack_encoders (encoder_reg (device s) (encoder_reads (device s) + n)));
             s' = homing_sequence de10_read_write_encoder_pwm s
         in map unpack_encoders (pwm_writes (device s')) = map unpack_encoders (pwm_writes (device s)) @ homing_commands
            \<and> p_settings s' = [fst (ans 0), fst (ans 1002), fst (ans 2004), p_settings s ! 3]
            \<and> y_settings s' = [snd (ans 0), snd (ans 1002), snd (ans 2004), y_settings s ! 3]"
  using de10.homing_settings [OF assms] de10.homing_sent [of s] unfolding Let_def by (intro conjI) assumption+

theorem de10_homing_witness:
  "p_settings (homing_sequence de10_read_write_encoder_pwm
      \<lparr>device = \<lparr>pwm_writes = [], encoder_reads = 0, encoder_reg = (\<lambda>n. 0x00050007)\<rparr>,
       p_settings = [1, 1, 1, 1], y_settings = [2, 2, 2, 2]\<rparr>) = [5, 5, 5, 1]"
  using de10_homing [of "\<lparr>device = \<lparr>pwm_writes = [], encoder_reads = 0, encoder_reg = (\<lambda>n. 0x00050007)\<rparr>,
       p_settings = [1, 1, 1, 1], y_settings = [2, 2, 2, 2]\<rparr>"]
  by (simp add: unpack_encoders_def Let_def drop_bit_eq_div)

text \<open>
  C34: when the current count lies between the begin and end counts found by homing (in either
  direction, equal ends included), both angles are inside the limits of their axis after all roundings.
\<close>

theorem encoder_angles_in_range:
  assumes "toward ps" "toward ys"
  shows "case get_rad_from_encoder ps ys of (pitch, yaw) \<Rightarrow>
           PITCH_MIN_RAD \<le> pitch \<and> pitch \<le> PITCH_MAX_RAD \<and> YAW_MIN_RAD \<le> yaw \<and> yaw \<le> YAW_MAX_RAD"
  using axis_rad_range [OF assms(1) rad_limits(1,2)] axis_rad_range [OF assms(2) rad_limits(3,4)]
  by (simp add: get_rad_from_encoder_def pitch_top yaw_top)

theorem encoder_angles_in_range_witness:
  "case get_rad_from_encoder [9, 100, 300, 200] [9, 300, 100, 200] of (pitch, yaw) \<Rightarrow>
     PITCH_MIN_RAD \<le> pitch \<and> yaw \<le> YAW_MAX_RAD"
  using encoder_angles_in_range [of "[9, 100, 300, 200]" "[9, 300, 100, 200]"]
  by (simp add: toward_def split: prod.splits)

text \<open>
  Opening the SPI device: every failing call gives its own negative code and closes the
  descriptor when it was opened, success returns the descriptor and closes nothing, and the device
  name with its terminator always fits the 32-byte buffer.
\<close>

lemma spiOpen_outcomes:
  assumes "spiOpen fd a b c ch = (r, calls)"
  shows "r = (if fd < 0 then -1 else if a < 0 then -2 else if b < 0 then -3 else if c < 0 then -4 else fd)
     \<and> (Close \<in> set calls \<longleftrightarrow> 0 \<le> fd \<and> r < 0)
     \<and> length (spi_dev ch) < 32"
proof -
  have "length (spi_dev ch) \<le> 25" by (rule spi_dev_length)
  then show ?thesis using assms by (auto simp: spiOpen_def Let_def split: if_splits)
qed

lemma spiOpen_outcomes_example: "fst (spiOpen 3 0 (-1) 0 1) = -3"
  using spiOpen_outcomes [of 3 0 "-1" 0 1] by (cases "spiOpen 3 0 (-1) 0 1") simp

text \<open>
  The GPIO reset of the Raspberry Pi returns 0 exactly when all calls succeed, then it has pulsed
  the line 0, 1, 0; on failure it has set nothing, and it closes the chip exactly when it was opened.
\<close>

lemma rpi_reset_outcomes:
  "case rpi_reset_fpga chip line request of (r, calls) \<Rightarrow>
     (if chip \<and> line \<and> 0 \<le> request
      then r = 0 \<and> [v. Gpio_Set v \<leftarrow> calls] = [0, 1, 0] \<and> Gpio_Close True \<notin> set calls
      else r = 1 \<and> [v. Gpio_Set v \<leftarrow> calls] = [] \<and> (Gpio_Close True \<in> set calls) = chip)"
  by (auto simp: rpi_reset_fpga_def Let_def)

end
