(* ===== verification/Sim_Model.thy ===== *)
theory Sim_Model
  imports Machine_Floats
begin

text \<open>
  The data of the two 20-sim controllers: the parameter, initial value, variable, state and rate
  arrays of \<open>pitch_xxmodel.c\<close> and \<open>yaw_xxmodel.c\<close>, the abstract controller they are meant to compute
  (a PID with filtered derivative and limited output, every operation rounded to double), and the
  locale \<open>limited_pid\<close>: what a submodel promises its caller. Both controllers interpret it.
\<close>


record xx_model =
  xx_P :: "nat \<Rightarrow> rat"
  xx_I :: "nat \<Rightarrow> rat"
  xx_V :: "nat \<Rightarrow> rat"
  xx_s :: "nat \<Rightarrow> rat"
  xx_R :: "nat \<Rightarrow> rat"
  xx_time :: rat
  xx_steps :: int
  xx_initialize :: bool
  xx_major :: bool

definition static_model :: xx_model where
  "static_model = \<lparr>xx_P = (\<lambda>i. 0), xx_I = (\<lambda>i. 0), xx_V = (\<lambda>i. 0), xx_s = (\<lambda>i. 0), xx_R = (\<lambda>i. 0),
     xx_time = 0, xx_steps = 0, xx_initialize = True, xx_major = True\<rparr>"

definition xx_step_size :: rat where
  "xx_step_size = f64 (1 / 100)"

section \<open>The abstract controller\<close>

record pid_params =
  kp :: rat
  tauD :: rat
  beta :: rat
  tauI :: rat
  minimum :: rat
  maximum :: rat

record pid_state =
  uD :: rat
  err :: rat
  uI :: rat

definition pid_rest :: pid_state where
  "pid_rest = \<lparr>uD = 0, err = 0, uI = 0\<rparr>"

definition pid_factor :: "pid_params \<Rightarrow> rat" where
  "pid_factor c = f64 (1 / f64 (xx_step_size + f64 (tauD c * beta c)))"

definition pid_next :: "pid_params \<Rightarrow> rat \<Rightarrow> pid_state \<Rightarrow> pid_state" where
  "pid_next c e st =
     (let d = f64 (pid_factor c *
                f64 (f64 (f64 (f64 (tauD c * uD st) * beta c)
                          + f64 (f64 (tauD c * kp c) * f64 (e - err st)))
                     + f64 (f64 (xx_step_size * kp c) * e)))
      in \<lparr>uD = d, err = e, uI = f64 (uI st + f64 (f64 (xx_step_size * d) / tauI c))\<rparr>)"

definition limit :: "pid_params \<Rightarrow> rat \<Rightarrow> rat" where
  "limit c v = (if v < minimum c then minimum c else if v > maximum c then maximum c else v)"

definition pid_out :: "pid_params \<Rightarrow> pid_state \<Rightarrow> rat" where
  "pid_out c st = limit c (f64 (uI st + uD st))"

fun pid_run :: "pid_params \<Rightarrow> (rat \<times> rat) list \<Rightarrow> pid_state \<Rightarrow> rat list" where
  "pid_run c [] st = []"
| "pid_run c ((r, p) # us) st =
     (let st' = pid_next c (f64 (r - p)) st in pid_out c st' # pid_run c us st')"

definition pid_of_rates :: "xx_model \<Rightarrow> pid_state" where
  "pid_of_rates m = \<lparr>uD = xx_R m 0, err = xx_R m 1, uI = xx_R m 2\<rparr>"

lemma upt_3: "[0..<3] = [0, 1, 2]"
  by (simp add: upt_rec)

fun calc_outputs :: "(rat \<Rightarrow> rat \<Rightarrow> 'm \<Rightarrow> 'm) \<Rightarrow> ('m \<Rightarrow> rat) \<Rightarrow> (rat \<times> rat) list \<Rightarrow> 'm \<Rightarrow> rat list" where
  "calc_outputs calc out [] m = []"
| "calc_outputs calc out ((r, p) # us) m = (let m' = calc r p m in out m' # calc_outputs calc out us m')"

definition errors :: "(rat \<times> rat) list \<Rightarrow> rat list" where
  "errors us = map (\<lambda>(r, p). f64 (r - p)) us"

locale limited_pid =
  fixes c :: pid_params
    and ok :: "'m \<Rightarrow> bool"
    and abs :: "'m \<Rightarrow> pid_state"
    and calc :: "rat \<Rightarrow> rat \<Rightarrow> 'm \<Rightarrow> 'm"
    and out :: "'m \<Rightarrow> rat"
  assumes ok_calc: "ok m \<Longrightarrow> ok (calc r p m)"
    and abs_calc: "ok m \<Longrightarrow> abs (calc r p m) = pid_next c (f64 (r - p)) (abs m)"
    and out_calc: "ok m \<Longrightarrow> out m = pid_out c (abs m)"
    and limits: "minimum c \<le> 0" "0 \<le> maximum c"
    and gains: "0 \<le> kp c" "0 \<le> tauD c" "0 \<le> beta c" "0 < tauI c"
begin

lemma outputs_pid: "ok m \<Longrightarrow> calc_outputs calc out us m = pid_run c us (abs m)"
  by (induction us arbitrary: m) (auto simp: Let_def ok_calc out_calc abs_calc)

lemma out_bounds: "ok m \<Longrightarrow> minimum c \<le> out m \<and> out m \<le> maximum c"
  using limits by (auto simp: out_calc pid_out_def limit_def)

lemma outputs_bounds:
  "ok m \<Longrightarrow> y \<in> set (calc_outputs calc out us m) \<Longrightarrow> minimum c \<le> y \<and> y \<le> maximum c"
proof (induction us arbitrary: m)
  case (Cons u us)
  obtain r p where u: "u = (r, p)" by (cases u)
  show ?case using Cons.prems Cons.IH [of "calc r p m"] ok_calc out_bounds [of "calc r p m"]
    by (auto simp: u Let_def)
qed simp

lemma pid_next_rest: "pid_next c 0 pid_rest = pid_rest"
  by (simp add: pid_next_def pid_rest_def)

lemma out_rest: "ok m \<Longrightarrow> abs m = pid_rest \<Longrightarrow> out m = 0"
  using limits by (simp add: out_calc pid_out_def pid_rest_def limit_def)

lemma stays_at_rest:
  "ok m \<Longrightarrow> abs m = pid_rest \<Longrightarrow> \<forall>(r, p) \<in> set us. r = p \<Longrightarrow> set (calc_outputs calc out us m) \<subseteq> {0}"
proof (induction us arbitrary: m)
  case (Cons u us)
  then obtain p where u: "u = (p, p)" by (cases u) auto
  have "abs (calc p p m) = pid_rest" using Cons.prems by (simp add: abs_calc pid_next_rest)
  then show ?case using Cons ok_calc out_rest by (simp add: u Let_def)
qed simp

lemma step_size_nonneg: "0 \<le> xx_step_size"
  unfolding xx_step_size_def by (rule double.nonneg) simp

lemma pid_factor_nonneg: "0 \<le> pid_factor c"
  unfolding pid_factor_def using gains step_size_nonneg
  by (intro double.nonneg divide_nonneg_nonneg add_nonneg_nonneg mult_nonneg_nonneg) simp_all

lemma pid_next_forward:
  assumes "0 \<le> err st" "err st \<le> e" "0 \<le> uD st" "0 \<le> uI st"
  shows "0 \<le> uD (pid_next c e st)" "0 \<le> uI (pid_next c e st)" "err (pid_next c e st) = e"
proof -
  show d: "0 \<le> uD (pid_next c e st)"
    using assms gains step_size_nonneg pid_factor_nonneg unfolding pid_next_def Let_def pid_state.simps
    by (intro double.nonneg mult_nonneg_nonneg add_nonneg_nonneg) simp_all
  have "uI (pid_next c e st) = f64 (uI st + f64 (f64 (xx_step_size * uD (pid_next c e st)) / tauI c))"
    by (simp add: pid_next_def Let_def)
  then show "0 \<le> uI (pid_next c e st)"
    using d assms(4) gains(4) step_size_nonneg
    by (simp add: double.nonneg add_nonneg_nonneg divide_nonneg_nonneg mult_nonneg_nonneg)
  show "err (pid_next c e st) = e" by (simp add: pid_next_def Let_def)
qed

lemma pid_next_backward:
  assumes "err st \<le> 0" "e \<le> err st" "uD st \<le> 0" "uI st \<le> 0"
  shows "uD (pid_next c e st) \<le> 0" "uI (pid_next c e st) \<le> 0" "err (pid_next c e st) = e"
proof -
  show d: "uD (pid_next c e st) \<le> 0"
    using assms gains step_size_nonneg pid_factor_nonneg unfolding pid_next_def Let_def pid_state.simps
    by (intro double.nonpos mult_nonneg_nonpos mult_nonpos_nonneg add_nonpos_nonpos double.nonneg mult_nonneg_nonneg) simp_all
  have "uI (pid_next c e st) = f64 (uI st + f64 (f64 (xx_step_size * uD (pid_next c e st)) / tauI c))"
    by (simp add: pid_next_def Let_def)
  then show "uI (pid_next c e st) \<le> 0"
    using d assms(4) gains(4) step_size_nonneg
    by (simp add: double.nonpos add_nonpos_nonpos divide_nonpos_nonneg mult_nonneg_nonpos)
  show "err (pid_next c e st) = e" by (simp add: pid_next_def Let_def)
qed

lemma out_forward: "ok m \<Longrightarrow> 0 \<le> uD (abs m) \<Longrightarrow> 0 \<le> uI (abs m) \<Longrightarrow> 0 \<le> out m"
  using double.nonneg [of "uI (abs m) + uD (abs m)"] limits by (auto simp: out_calc pid_out_def limit_def)

lemma out_backward: "ok m \<Longrightarrow> uD (abs m) \<le> 0 \<Longrightarrow> uI (abs m) \<le> 0 \<Longrightarrow> out m \<le> 0"
  using double.nonpos [of "uI (abs m) + uD (abs m)"] limits by (auto simp: out_calc pid_out_def limit_def)

lemma drives_forward:
  "ok m \<Longrightarrow> 0 \<le> uD (abs m) \<Longrightarrow> 0 \<le> uI (abs m) \<Longrightarrow> 0 \<le> err (abs m) \<Longrightarrow> sorted (err (abs m) # errors us) \<Longrightarrow>
     v \<in> set (calc_outputs calc out us m) \<Longrightarrow> 0 \<le> v"
proof (induction us arbitrary: m)
  case (Cons u us)
  obtain r p where u: "u = (r, p)" by (cases u)
  let ?m = "calc r p m"
  have e: "err (abs m) \<le> f64 (r - p)" "sorted (f64 (r - p) # errors us)" using Cons.prems(5) by (simp_all add: errors_def u)
  have n: "ok ?m" "abs ?m = pid_next c (f64 (r - p)) (abs m)" using Cons.prems(1) by (simp_all add: ok_calc abs_calc)
  note f = pid_next_forward [OF Cons.prems(4) e(1) Cons.prems(2,3), folded n(2)]
  have "0 \<le> f64 (r - p)" using Cons.prems(4) e(1) by simp
  then show ?case using Cons.IH [OF n(1) f(1,2)] Cons.prems(6) out_forward [OF n(1) f(1,2)] e(2) f(3) by (auto simp: u Let_def)
qed simp

lemma drives_backward:
  "ok m \<Longrightarrow> uD (abs m) \<le> 0 \<Longrightarrow> uI (abs m) \<le> 0 \<Longrightarrow> err (abs m) \<le> 0 \<Longrightarrow>
     sorted (map uminus (err (abs m) # errors us)) \<Longrightarrow> v \<in> set (calc_outputs calc out us m) \<Longrightarrow> v \<le> 0"
proof (induction us arbitrary: m)
  case (Cons u us)
  obtain r p where u: "u = (r, p)" by (cases u)
  let ?m = "calc r p m"
  have e: "f64 (r - p) \<le> err (abs m)" "sorted (map uminus (f64 (r - p) # errors us))"
    using Cons.prems(5) by (simp_all add: errors_def u)
  have n: "ok ?m" "abs ?m = pid_next c (f64 (r - p)) (abs m)" using Cons.prems(1) by (simp_all add: ok_calc abs_calc)
  note f = pid_next_backward [OF Cons.prems(4) e(1) Cons.prems(2,3), folded n(2)]
  have "f64 (r - p) \<le> 0" using Cons.prems(4) e(1) by simp
  then show ?case using Cons.IH [OF n(1) f(1,2)] Cons.prems(6) out_backward [OF n(1) f(1,2)] e(2) f(3) by (auto simp: u Let_def)
qed simp

lemma never_drives_away:
  assumes "ok m" "abs m = pid_rest" "v \<in> set (calc_outputs calc out us m)"
  shows "sorted (0 # errors us) \<Longrightarrow> 0 \<le> v" "sorted (0 # map uminus (errors us)) \<Longrightarrow> v \<le> 0"
  using drives_forward [OF assms(1) _ _ _ _ assms(3)] drives_backward [OF assms(1) _ _ _ _ assms(3)]
  by (simp_all add: assms(2) pid_rest_def)

end



end
