(* ===== verification/Pitch_Model.thy ===== *)
theory Pitch_Model
  imports Sim_Model
begin

text \<open>
  The generated controller of the tilt axis: every function of \<open>pitch_xxmodel.c\<close>, \<open>pitch_xxinteg.c\<close> and
  \<open>pitch_xxsubmod.c\<close>, in their order; arrays are functions of the index (Model\_Bounds shows that their
  sizes are respected). The hooks the generator left empty (\<open>CalculateStatic\<close>, \<open>CalculateInput\<close>,
  \<open>CalculateFinal\<close>, \<open>ModelTerminate\<close>, \<open>DiscreteTerminate\<close>) are the identity.
  \<open>pitch_inputs[0]\<close> (\<open>corr\<close>) is never assigned by the caller; the model takes it as an arbitrary number.
\<close>


definition pitch_ModelInitialize_parameters :: "xx_model \<Rightarrow> xx_model" where
  "pitch_ModelInitialize_parameters m = m\<lparr>xx_P := (xx_P m)
     (0 := 0,
      1 := f64 (16 / 10),
      2 := f64 (5 / 100),
      3 := f64 (1 / 1000),
      4 := f64 (105 / 10),
      5 := - f64 (99 / 100),
      6 := f64 (99 / 100))\<rparr>"

definition pitch_ModelInitialize_initialvalues :: "xx_model \<Rightarrow> xx_model" where
  "pitch_ModelInitialize_initialvalues m = m\<lparr>xx_I := (xx_I m)(0 := 0, 1 := 0, 2 := 0)\<rparr>"

definition pitch_ModelInitialize_states :: "xx_model \<Rightarrow> xx_model" where
  "pitch_ModelInitialize_states m =
     m\<lparr>xx_s := (xx_s m)(0 := xx_I m 0, 1 := xx_I m 1, 2 := xx_I m 2)\<rparr>"

definition pitch_xx_variables_size :: nat where "pitch_xx_variables_size = 12"

definition pitch_ModelInitialize_variables :: "xx_model \<Rightarrow> xx_model" where
  "pitch_ModelInitialize_variables m = m\<lparr>xx_V := (\<lambda>i. if i < pitch_xx_variables_size then 0 else xx_V m i)\<rparr>"

definition pitch_ModelInitialize :: "xx_model \<Rightarrow> xx_model" where
  "pitch_ModelInitialize m =
     (let m = pitch_ModelInitialize_parameters m;
          m = pitch_ModelInitialize_variables m;
          m = pitch_ModelInitialize_initialvalues m
      in pitch_ModelInitialize_states m)"

definition pitch_CalculateInitial :: "xx_model \<Rightarrow> xx_model" where
  "pitch_CalculateInitial m = pitch_ModelInitialize_states m"

definition pitch_CalculateStatic :: "xx_model \<Rightarrow> xx_model" where
  [simp]: "pitch_CalculateStatic m = m"

definition pitch_CalculateInput :: "xx_model \<Rightarrow> xx_model" where
  [simp]: "pitch_CalculateInput m = m"

definition pitch_CalculateDynamic :: "xx_model \<Rightarrow> xx_model" where
  "pitch_CalculateDynamic m =
     (let P = xx_P m; s = xx_s m; V = xx_V m; R = xx_R m; h = xx_step_size;
          V = V(3 := f64 (1 / f64 (h + f64 (P 2 * P 3))));
          V = V(0 := V 8);
          V = V(5 := V 9);
          V = V(6 := V 10);
          V = V(1 := f64 (P 0 * V 0));
          R = R(1 := f64 (V 5 - V 6));
          R = R(0 := f64 (V 3 * f64 (f64 (f64 (f64 (P 2 * s 0) * P 3)
                                          + f64 (f64 (P 2 * P 1) * f64 (R 1 - s 1)))
                                     + f64 (f64 (h * P 1) * R 1))));
          R = R(2 := f64 (s 2 + f64 (f64 (h * R 0) / P 4)));
          V = V(2 := f64 (R 2 + R 0));
          V = V(4 := f64 (V 1 + V 2));
          V = V(7 := (if V 4 < P 5 then P 5 else if V 4 > P 6 then P 6 else V 4))
      in m\<lparr>xx_V := V, xx_R := R, xx_steps := xx_steps m + 1\<rparr>)"

definition pitch_CalculateOutput :: "xx_model \<Rightarrow> xx_model" where
  "pitch_CalculateOutput m = m\<lparr>xx_V := (xx_V m)(11 := xx_V m 7)\<rparr>"

definition pitch_CalculateFinal :: "xx_model \<Rightarrow> xx_model" where
  [simp]: "pitch_CalculateFinal m = m"

definition pitch_ModelTerminate :: "xx_model \<Rightarrow> xx_model" where
  [simp]: "pitch_ModelTerminate m = m"

definition pitch_DiscreteTerminate :: "xx_model \<Rightarrow> xx_model" where
  [simp]: "pitch_DiscreteTerminate m = m"

definition pitch_DiscreteInitialize :: "xx_model \<Rightarrow> xx_model" where
  "pitch_DiscreteInitialize m = m\<lparr>xx_major := True\<rparr>"

definition pitch_DiscreteStep :: "xx_model \<Rightarrow> xx_model" where
  "pitch_DiscreteStep m =
     (let m = m\<lparr>xx_s := fold (\<lambda>index s. s(index := xx_R m index)) [0..<3] (xx_s m)\<rparr>;
          m = m\<lparr>xx_time := f64 (xx_time m + xx_step_size)\<rparr>;
          m = m\<lparr>xx_major := True\<rparr>
      in pitch_CalculateDynamic m)"

definition pitch_CopyInputsToVariables :: "(nat \<Rightarrow> rat) \<Rightarrow> xx_model \<Rightarrow> xx_model" where
  "pitch_CopyInputsToVariables u m = m\<lparr>xx_V := (xx_V m)(8 := u 0, 9 := u 1, 10 := u 2)\<rparr>"

definition pitch_CopyVariablesToOutputs :: "xx_model \<Rightarrow> (nat \<Rightarrow> rat) \<Rightarrow> (nat \<Rightarrow> rat)" where
  "pitch_CopyVariablesToOutputs m y = y(0 := xx_V m 11)"

definition pitch_InitializeSubmodel ::
    "(nat \<Rightarrow> rat) \<Rightarrow> (nat \<Rightarrow> rat) \<Rightarrow> rat \<Rightarrow> xx_model \<Rightarrow> xx_model \<times> (nat \<Rightarrow> rat)" where
  "pitch_InitializeSubmodel u y t m =
     (let m = m\<lparr>xx_initialize := True, xx_steps := 0\<rparr>;
          m = pitch_ModelInitialize m;
          m = pitch_DiscreteInitialize m;
          m = m\<lparr>xx_time := t\<rparr>;
          m = pitch_CopyInputsToVariables u m;
          m = pitch_CalculateInitial m;
          m = pitch_CalculateStatic m;
          m = pitch_CalculateInput m;
          m = pitch_CalculateDynamic m;
          m = pitch_CalculateOutput m;
          y = pitch_CopyVariablesToOutputs m y
      in (m\<lparr>xx_initialize := False\<rparr>, y))"

definition pitch_CalculateSubmodel ::
    "(nat \<Rightarrow> rat) \<Rightarrow> (nat \<Rightarrow> rat) \<Rightarrow> rat \<Rightarrow> xx_model \<Rightarrow> xx_model \<times> (nat \<Rightarrow> rat)" where
  "pitch_CalculateSubmodel u y t m =
     (let m = m\<lparr>xx_time := t\<rparr>;
          m = pitch_CopyInputsToVariables u m;
          m = pitch_CalculateInput m;
          m = pitch_DiscreteStep m;
          m = pitch_CalculateOutput m
      in (m, pitch_CopyVariablesToOutputs m y))"

definition pitch_TerminateSubmodel ::
    "(nat \<Rightarrow> rat) \<Rightarrow> (nat \<Rightarrow> rat) \<Rightarrow> rat \<Rightarrow> xx_model \<Rightarrow> xx_model \<times> (nat \<Rightarrow> rat)" where
  "pitch_TerminateSubmodel u y t m =
     (let m = m\<lparr>xx_time := t\<rparr>;
          m = pitch_CopyInputsToVariables u m;
          m = pitch_CalculateFinal m;
          y = pitch_CopyVariablesToOutputs m y;
          m = pitch_ModelTerminate m
      in (pitch_DiscreteTerminate m, y))"

section \<open>The controller the equations implement\<close>

definition pitch_pid :: pid_params where
  "pitch_pid = \<lparr>kp = f64 (16 / 10), tauD = f64 (5 / 100), beta = f64 (1 / 1000),
     tauI = f64 (105 / 10), minimum = - f64 (99 / 100), maximum = f64 (99 / 100)\<rparr>"

definition pitch_loaded :: "xx_model \<Rightarrow> bool" where
  "pitch_loaded m \<longleftrightarrow>
     xx_P m 0 = 0 \<and> xx_P m 1 = kp pitch_pid \<and> xx_P m 2 = tauD pitch_pid
     \<and> xx_P m 3 = beta pitch_pid \<and> xx_P m 4 = tauI pitch_pid
     \<and> xx_P m 5 = minimum pitch_pid \<and> xx_P m 6 = maximum pitch_pid"

definition pitch_ok :: "xx_model \<Rightarrow> bool" where
  "pitch_ok m \<longleftrightarrow> pitch_loaded m \<and> xx_V m 11 = pid_out pitch_pid (pid_of_rates m)"

definition pitch_inputs :: "rat \<Rightarrow> rat \<Rightarrow> rat \<Rightarrow> nat \<Rightarrow> rat" where
  "pitch_inputs corr r p = ((\<lambda>i. 0)(0 := corr, 1 := r, 2 := p))"

lemma pitch_dynamic:
  assumes "pitch_loaded m"
  shows "pitch_loaded (pitch_CalculateDynamic m)"
    and "pid_of_rates (pitch_CalculateDynamic m) =
      pid_next pitch_pid (f64 (xx_V m 9 - xx_V m 10)) \<lparr>uD = xx_s m 0, err = xx_s m 1, uI = xx_s m 2\<rparr>"
    and "xx_V (pitch_CalculateDynamic m) 7 = pid_out pitch_pid (pid_of_rates (pitch_CalculateDynamic m))"
  using assms
  by (simp_all add: pitch_loaded_def pitch_CalculateDynamic_def Let_def pid_of_rates_def pid_next_def
      pid_factor_def pid_out_def limit_def)

lemma pitch_calculate:
  fixes u y :: "nat \<Rightarrow> rat" and t :: rat and m :: xx_model
  assumes "pitch_loaded m"
  defines "m' \<equiv> fst (pitch_CalculateSubmodel u y t m)"
  shows "pitch_ok m'" and "pid_of_rates m' = pid_next pitch_pid (f64 (u 1 - u 2)) (pid_of_rates m)"
    and "snd (pitch_CalculateSubmodel u y t m) 0 = xx_V m' 11"
proof -
  let ?n = "pitch_CopyInputsToVariables u (m\<lparr>xx_time := t\<rparr>)"
  let ?k = "?n\<lparr>xx_s := (xx_s ?n)(0 := xx_R m 0, 1 := xx_R m 1, 2 := xx_R m 2),
      xx_time := f64 (t + xx_step_size), xx_major := True\<rparr>"
  have step: "pitch_DiscreteStep ?n = pitch_CalculateDynamic ?k"
    by (simp add: pitch_DiscreteStep_def pitch_CopyInputsToVariables_def Let_def upt_3)
  have ld: "pitch_loaded ?k" using assms(1) by (simp add: pitch_loaded_def pitch_CopyInputsToVariables_def)
  have m': "m' = pitch_CalculateOutput (pitch_CalculateDynamic ?k)"
    by (simp add: m'_def pitch_CalculateSubmodel_def step Let_def)
  have out: "pitch_loaded (pitch_CalculateOutput n) = pitch_loaded n"
    "pid_of_rates (pitch_CalculateOutput n) = pid_of_rates n"
    "xx_V (pitch_CalculateOutput n) 11 = xx_V n 7" for n
    by (simp_all add: pitch_loaded_def pitch_CalculateOutput_def pid_of_rates_def)
  show "pitch_ok m'" using pitch_dynamic [OF ld] by (simp add: m' pitch_ok_def out)
  show "pid_of_rates m' = pid_next pitch_pid (f64 (u 1 - u 2)) (pid_of_rates m)"
    unfolding m' out pitch_dynamic(2) [OF ld]
    by (simp add: pitch_CopyInputsToVariables_def pid_of_rates_def)
  show "snd (pitch_CalculateSubmodel u y t m) 0 = xx_V m' 11"
    by (simp add: m'_def pitch_CalculateSubmodel_def pitch_CopyVariablesToOutputs_def Let_def)
qed

lemma pitch_okD: "pitch_ok m \<Longrightarrow> pitch_loaded m"
  by (simp add: pitch_ok_def)

definition pitch_calc :: "rat \<Rightarrow> rat \<Rightarrow> rat \<Rightarrow> xx_model \<Rightarrow> xx_model" where
  "pitch_calc corr r p m = fst (pitch_CalculateSubmodel (pitch_inputs corr r p) (\<lambda>i. 0) (xx_time m) m)"

interpretation pitch: limited_pid pitch_pid pitch_ok pid_of_rates "pitch_calc corr" "\<lambda>m. xx_V m 11" for corr
proof
  fix m r p
  assume "pitch_ok m"
  then have ld: "pitch_loaded m" by (rule pitch_okD)
  show "pitch_ok (pitch_calc corr r p m)" unfolding pitch_calc_def by (rule pitch_calculate(1) [OF ld])
  show "pid_of_rates (pitch_calc corr r p m) = pid_next pitch_pid (f64 (r - p)) (pid_of_rates m)"
    unfolding pitch_calc_def pitch_calculate(2) [OF ld] by (simp add: pitch_inputs_def)
  show "xx_V m 11 = pid_out pitch_pid (pid_of_rates m)" using \<open>pitch_ok m\<close> by (simp add: pitch_ok_def)
next
  have "0 \<le> f64 x" if "0 \<le> x" for x using that by (rule double.nonneg)
  moreover have "0 < f64 (105 / 10)" using double.lower [OF double.ints [of 1], of "105 / 10"] by simp
  ultimately show "minimum pitch_pid \<le> 0" "0 \<le> maximum pitch_pid" "0 \<le> kp pitch_pid" "0 \<le> tauD pitch_pid"
    "0 \<le> beta pitch_pid" "0 < tauI pitch_pid" by (simp_all add: pitch_pid_def)
qed

lemma pitch_initialize:
  fixes u y :: "nat \<Rightarrow> rat" and t :: rat and m :: xx_model
  assumes "u 1 = u 2"
  defines "m' \<equiv> fst (pitch_InitializeSubmodel u y t m)"
  shows "pitch_ok m'" and "pid_of_rates m' = pid_rest" and "snd (pitch_InitializeSubmodel u y t m) 0 = 0"
proof -
  let ?i = "pitch_ModelInitialize (m\<lparr>xx_initialize := True, xx_steps := 0\<rparr>)"
  let ?k = "pitch_CalculateInitial (pitch_CopyInputsToVariables u ((pitch_DiscreteInitialize ?i)\<lparr>xx_time := t\<rparr>))"
  have m': "m' = (pitch_CalculateOutput (pitch_CalculateDynamic ?k))\<lparr>xx_initialize := False\<rparr>"
    by (simp add: m'_def pitch_InitializeSubmodel_def Let_def)
  have k: "pitch_loaded ?k" "xx_V ?k 9 = xx_V ?k 10" "xx_s ?k 0 = 0" "xx_s ?k 1 = 0" "xx_s ?k 2 = 0"
    using assms(1)
    by (simp_all add: pitch_loaded_def pitch_ModelInitialize_def pitch_ModelInitialize_parameters_def
        pitch_ModelInitialize_variables_def pitch_ModelInitialize_initialvalues_def
        pitch_ModelInitialize_states_def pitch_CalculateInitial_def pitch_CopyInputsToVariables_def
        pitch_DiscreteInitialize_def pitch_pid_def Let_def)
  have out: "pitch_loaded (pitch_CalculateOutput n) = pitch_loaded n"
    "pid_of_rates (pitch_CalculateOutput n) = pid_of_rates n"
    "xx_V (pitch_CalculateOutput n) 11 = xx_V n 7"
    "pitch_loaded (n\<lparr>xx_initialize := b\<rparr>) = pitch_loaded n"
    "pid_of_rates (n\<lparr>xx_initialize := b\<rparr>) = pid_of_rates n" for n b
    by (simp_all add: pitch_loaded_def pitch_CalculateOutput_def pid_of_rates_def)
  show ok: "pitch_ok m'" using pitch_dynamic [OF k(1)] by (simp add: m' pitch_ok_def out)
  show rest: "pid_of_rates m' = pid_rest"
    unfolding m' out pitch_dynamic(2) [OF k(1)] k(2-5) pid_rest_def [symmetric]
    using pitch.pid_next_rest by simp
  have "snd (pitch_InitializeSubmodel u y t m) 0 = xx_V m' 11"
    by (simp add: m'_def pitch_InitializeSubmodel_def pitch_CopyVariablesToOutputs_def Let_def)
  then show "snd (pitch_InitializeSubmodel u y t m) 0 = 0" using pitch.out_rest [OF ok rest] by simp
qed

section \<open>Properties\<close>

text \<open>
  C11: after \<open>InitializeSubmodel\<close> with set point equal to position, any sequence of \<open>CalculateSubmodel\<close>
  calls produces exactly the outputs of the abstract tilt PID started at rest: the state/rate
  exchange of \<open>DiscreteStep\<close>, the shared variable array and the initial evaluation add nothing.
\<close>

theorem pitch_implements_pid:
  fixes u y :: "nat \<Rightarrow> rat"
  assumes "u 1 = u 2"
  shows "calc_outputs (pitch_calc corr) (\<lambda>m. xx_V m 11) us (fst (pitch_InitializeSubmodel u y t m))
     = pid_run pitch_pid us pid_rest"
  using pitch.outputs_pid [OF pitch_initialize(1) [of u, OF assms]] pitch_initialize(2) [of u, OF assms] by simp

theorem pitch_implements_pid_witness:
  "calc_outputs (pitch_calc 7) (\<lambda>m. xx_V m 11) [(1, 0)]
     (fst (pitch_InitializeSubmodel (\<lambda>i. 1 / 2) (\<lambda>i. 0) 0 static_model)) = pid_run pitch_pid [(1, 0)] pid_rest"
  by (rule pitch_implements_pid) simp

text \<open>
  From such a start, every tilt output is within [-0.99, 0.99] (as doubles) for any sequence of set
  points and positions, it stays exactly 0 as long as the set point equals the position, and it never
  drives away from a target that does not come nearer.
\<close>

lemma pitch_outputs_limited:
  fixes u y :: "nat \<Rightarrow> rat"
  assumes "u 1 = u 2"
  shows "let ys = calc_outputs (pitch_calc corr) (\<lambda>m. xx_V m 11) us (fst (pitch_InitializeSubmodel u y t m))
         in (\<forall>v \<in> set ys. \<bar>v\<bar> \<le> f64 (99 / 100)) \<and> ((\<forall>(r, p) \<in> set us. r = p) \<longrightarrow> set ys \<subseteq> {0})
            \<and> (sorted (0 # errors us) \<longrightarrow> (\<forall>v \<in> set ys. 0 \<le> v))
            \<and> (sorted (0 # map uminus (errors us)) \<longrightarrow> (\<forall>v \<in> set ys. v \<le> 0))"
proof -
  let ?ys = "calc_outputs (pitch_calc corr) (\<lambda>m. xx_V m 11) us (fst (pitch_InitializeSubmodel u y t m))"
  note ok = pitch_initialize(1) [of u y t m, OF assms(1)] pitch_initialize(2) [of u y t m, OF assms(1)]
  have "\<bar>v\<bar> \<le> f64 (99 / 100)" if "v \<in> set ?ys" for v
    using pitch.outputs_bounds [OF ok(1) that] by (simp add: pitch_pid_def abs_le_iff)
  then show ?thesis using pitch.stays_at_rest [OF ok] pitch.never_drives_away [OF ok] unfolding Let_def by blast
qed

end
