(* ===== verification/Yaw_Model.thy ===== *)
theory Yaw_Model
  imports Sim_Model
begin

text \<open>
  The generated controller of the pan axis: every function of \<open>yaw_xxmodel.c\<close>, \<open>yaw_xxinteg.c\<close> and
  \<open>yaw_xxsubmod.c\<close>, in their order; arrays are functions of the index (Model\_Bounds shows that their
  sizes are respected). The hooks the generator left empty (\<open>CalculateStatic\<close>, \<open>CalculateInput\<close>,
  \<open>CalculateFinal\<close>, \<open>ModelTerminate\<close>, \<open>DiscreteTerminate\<close>) are the identity.
\<close>


definition yaw_ModelInitialize_parameters :: "xx_model \<Rightarrow> xx_model" where
  "yaw_ModelInitialize_parameters m = m\<lparr>xx_P := (xx_P m)
     (0 := 0,
      1 := f64 (26 / 10),
      2 := f64 (5 / 100),
      3 := f64 (17 / 100),
      4 := 9,
      5 := - f64 (99 / 100),
      6 := f64 (99 / 100))\<rparr>"

definition yaw_ModelInitialize_initialvalues :: "xx_model \<Rightarrow> xx_model" where
  "yaw_ModelInitialize_initialvalues m = m\<lparr>xx_I := (xx_I m)(0 := 0, 1 := 0, 2 := 0)\<rparr>"

definition yaw_ModelInitialize_states :: "xx_model \<Rightarrow> xx_model" where
  "yaw_ModelInitialize_states m =
     m\<lparr>xx_s := (xx_s m)(0 := xx_I m 0, 1 := xx_I m 1, 2 := xx_I m 2)\<rparr>"

definition yaw_xx_variables_size :: nat where "yaw_xx_variables_size = 10"

definition yaw_ModelInitialize_variables :: "xx_model \<Rightarrow> xx_model" where
  "yaw_ModelInitialize_variables m = m\<lparr>xx_V := (\<lambda>i. if i < yaw_xx_variables_size then 0 else xx_V m i)\<rparr>"

definition yaw_ModelInitialize :: "xx_model \<Rightarrow> xx_model" where
  "yaw_ModelInitialize m =
     (let m = yaw_ModelInitialize_parameters m;
          m = yaw_ModelInitialize_variables m;
          m = yaw_ModelInitialize_initialvalues m
      in yaw_ModelInitialize_states m)"

definition yaw_CalculateInitial :: "xx_model \<Rightarrow> xx_model" where
  "yaw_CalculateInitial m = yaw_ModelInitialize_states m"

definition yaw_CalculateStatic :: "xx_model \<Rightarrow> xx_model" where
  [simp]: "yaw_CalculateStatic m = m"

definition yaw_CalculateInput :: "xx_model \<Rightarrow> xx_model" where
  [simp]: "yaw_CalculateInput m = m"

definition yaw_CalculateDynamic :: "xx_model \<Rightarrow> xx_model" where
  "yaw_CalculateDynamic m =
     (let P = xx_P m; s = xx_s m; V = xx_V m; R = xx_R m; h = xx_step_size;
          V = V(2 := f64 (1 / f64 (h + f64 (P 2 * P 3))));
          V = V(3 := V 7);
          V = V(5 := V 8);
          V = V(0 := f64 (P 0 * V 5));
          R = R(1 := f64 (V 3 - V 5));
          R = R(0 := f64 (V 2 * f64 (f64 (f64 (f64 (P 2 * s 0) * P 3)
                                          + f64 (f64 (P 2 * P 1) * f64 (R 1 - s 1)))
                                     + f64 (f64 (h * P 1) * R 1))));
          R = R(2 := f64 (s 2 + f64 (f64 (h * R 0) / P 4)));
          V = V(1 := f64 (R 2 + R 0));
          V = V(4 := (if V 1 < P 5 then P 5 else if V 1 > P 6 then P 6 else V 1))
      in m\<lparr>xx_V := V, xx_R := R, xx_steps := xx_steps m + 1\<rparr>)"

definition yaw_CalculateOutput :: "xx_model \<Rightarrow> xx_model" where
  "yaw_CalculateOutput m = m\<lparr>xx_V := (xx_V m)(6 := xx_V m 0, 9 := xx_V m 4)\<rparr>"

definition yaw_CalculateFinal :: "xx_model \<Rightarrow> xx_model" where
  [simp]: "yaw_CalculateFinal m = m"

definition yaw_ModelTerminate :: "xx_model \<Rightarrow> xx_model" where
  [simp]: "yaw_ModelTerminate m = m"

definition yaw_DiscreteTerminate :: "xx_model \<Rightarrow> xx_model" where
  [simp]: "yaw_DiscreteTerminate m = m"

definition yaw_DiscreteInitialize :: "xx_model \<Rightarrow> xx_model" where
  "yaw_DiscreteInitialize m = m\<lparr>xx_major := True\<rparr>"

definition yaw_DiscreteStep :: "xx_model \<Rightarrow> xx_model" where
  "yaw_DiscreteStep m =
     (let m = m\<lparr>xx_s := fold (\<lambda>index s. s(index := xx_R m index)) [0..<3] (xx_s m)\<rparr>;
          m = m\<lparr>xx_time := f64 (xx_time m + xx_step_size)\<rparr>;
          m = m\<lparr>xx_major := True\<rparr>
      in yaw_CalculateDynamic m)"

definition yaw_CopyInputsToVariables :: "(nat \<Rightarrow> rat) \<Rightarrow> xx_model \<Rightarrow> xx_model" where
  "yaw_CopyInputsToVariables u m = m\<lparr>xx_V := (xx_V m)(7 := u 0, 8 := u 1)\<rparr>"

definition yaw_CopyVariablesToOutputs :: "xx_model \<Rightarrow> (nat \<Rightarrow> rat) \<Rightarrow> (nat \<Rightarrow> rat)" where
  "yaw_CopyVariablesToOutputs m y = y(0 := xx_V m 6, 1 := xx_V m 9)"

definition yaw_InitializeSubmodel ::
    "(nat \<Rightarrow> rat) \<Rightarrow> (nat \<Rightarrow> rat) \<Rightarrow> rat \<Rightarrow> xx_model \<Rightarrow> xx_model \<times> (nat \<Rightarrow> rat)" where
  "yaw_InitializeSubmodel u y t m =
     (let m = m\<lparr>xx_initialize := True, xx_steps := 0\<rparr>;
          m = yaw_ModelInitialize m;
          m = yaw_DiscreteInitialize m;
          m = m\<lparr>xx_time := t\<rparr>;
          m = yaw_CopyInputsToVariables u m;
          m = yaw_CalculateInitial m;
          m = yaw_CalculateStatic m;
          m = yaw_CalculateInput m;
          m = yaw_CalculateDynamic m;
          m = yaw_CalculateOutput m;
          y = yaw_CopyVariablesToOutputs m y
      in (m\<lparr>xx_initialize := False\<rparr>, y))"

definition yaw_CalculateSubmodel ::
    "(nat \<Rightarrow> rat) \<Rightarrow> (nat \<Rightarrow> rat) \<Rightarrow> rat \<Rightarrow> xx_model \<Rightarrow> xx_model \<times> (nat \<Rightarrow> rat)" where
  "yaw_CalculateSubmodel u y t m =
     (let m = m\<lparr>xx_time := t\<rparr>;
          m = yaw_CopyInputsToVariables u m;
          m = yaw_CalculateInput m;
          m = yaw_DiscreteStep m;
          m = yaw_CalculateOutput m
      in (m, yaw_CopyVariablesToOutputs m y))"

definition yaw_TerminateSubmodel ::
    "(nat \<Rightarrow> rat) \<Rightarrow> (nat \<Rightarrow> rat) \<Rightarrow> rat \<Rightarrow> xx_model \<Rightarrow> xx_model \<times> (nat \<Rightarrow> rat)" where
  "yaw_TerminateSubmodel u y t m =
     (let m = m\<lparr>xx_time := t\<rparr>;
          m = yaw_CopyInputsToVariables u m;
          m = yaw_CalculateFinal m;
          y = yaw_CopyVariablesToOutputs m y;
          m = yaw_ModelTerminate m
      in (yaw_DiscreteTerminate m, y))"

section \<open>The controller the equations implement\<close>

definition yaw_pid :: pid_params where
  "yaw_pid = \<lparr>kp = f64 (26 / 10), tauD = f64 (5 / 100), beta = f64 (17 / 100),
     tauI = 9, minimum = - f64 (99 / 100), maximum = f64 (99 / 100)\<rparr>"

definition yaw_loaded :: "xx_model \<Rightarrow> bool" where
  "yaw_loaded m \<longleftrightarrow>
     xx_P m 0 = 0 \<and> xx_P m 1 = kp yaw_pid \<and> xx_P m 2 = tauD yaw_pid
     \<and> xx_P m 3 = beta yaw_pid \<and> xx_P m 4 = tauI yaw_pid
     \<and> xx_P m 5 = minimum yaw_pid \<and> xx_P m 6 = maximum yaw_pid"

definition yaw_ok :: "xx_model \<Rightarrow> bool" where
  "yaw_ok m \<longleftrightarrow> yaw_loaded m \<and> xx_V m 9 = pid_out yaw_pid (pid_of_rates m)"

definition yaw_inputs :: "rat \<Rightarrow> rat \<Rightarrow> nat \<Rightarrow> rat" where
  "yaw_inputs r p = ((\<lambda>i. 0)(0 := r, 1 := p))"

lemma yaw_dynamic:
  assumes "yaw_loaded m"
  shows "yaw_loaded (yaw_CalculateDynamic m)"
    and "pid_of_rates (yaw_CalculateDynamic m) =
      pid_next yaw_pid (f64 (xx_V m 7 - xx_V m 8)) \<lparr>uD = xx_s m 0, err = xx_s m 1, uI = xx_s m 2\<rparr>"
    and "xx_V (yaw_CalculateDynamic m) 4 = pid_out yaw_pid (pid_of_rates (yaw_CalculateDynamic m))"
  using assms
  by (simp_all add: yaw_loaded_def yaw_CalculateDynamic_def Let_def pid_of_rates_def pid_next_def
      pid_factor_def pid_out_def limit_def)

lemma yaw_calculate:
  fixes u y :: "nat \<Rightarrow> rat" and t :: rat and m :: xx_model
  assumes "yaw_loaded m"
  defines "m' \<equiv> fst (yaw_CalculateSubmodel u y t m)"
  shows "yaw_ok m'" and "pid_of_rates m' = pid_next yaw_pid (f64 (u 0 - u 1)) (pid_of_rates m)"
    and "snd (yaw_CalculateSubmodel u y t m) 1 = xx_V m' 9"
proof -
  let ?n = "yaw_CopyInputsToVariables u (m\<lparr>xx_time := t\<rparr>)"
  let ?k = "?n\<lparr>xx_s := (xx_s ?n)(0 := xx_R m 0, 1 := xx_R m 1, 2 := xx_R m 2),
      xx_time := f64 (t + xx_step_size), xx_major := True\<rparr>"
  have step: "yaw_DiscreteStep ?n = yaw_CalculateDynamic ?k"
    by (simp add: yaw_DiscreteStep_def yaw_CopyInputsToVariables_def Let_def upt_3)
  have ld: "yaw_loaded ?k" using assms(1) by (simp add: yaw_loaded_def yaw_CopyInputsToVariables_def)
  have m': "m' = yaw_CalculateOutput (yaw_CalculateDynamic ?k)"
    by (simp add: m'_def yaw_CalculateSubmodel_def step Let_def)
  have out: "yaw_loaded (yaw_CalculateOutput n) = yaw_loaded n"
    "pid_of_rates (yaw_CalculateOutput n) = pid_of_rates n"
    "xx_V (yaw_CalculateOutput n) 9 = xx_V n 4" for n
    by (simp_all add: yaw_loaded_def yaw_CalculateOutput_def pid_of_rates_def)
  show "yaw_ok m'" using yaw_dynamic [OF ld] by (simp add: m' yaw_ok_def out)
  show "pid_of_rates m' = pid_next yaw_pid (f64 (u 0 - u 1)) (pid_of_rates m)"
    unfolding m' out yaw_dynamic(2) [OF ld]
    by (simp add: yaw_CopyInputsToVariables_def pid_of_rates_def)
  show "snd (yaw_CalculateSubmodel u y t m) 1 = xx_V m' 9"
    by (simp add: m'_def yaw_CalculateSubmodel_def yaw_CopyVariablesToOutputs_def Let_def)
qed

lemma yaw_okD: "yaw_ok m \<Longrightarrow> yaw_loaded m"
  by (simp add: yaw_ok_def)

definition yaw_calc :: "rat \<Rightarrow> rat \<Rightarrow> xx_model \<Rightarrow> xx_model" where
  "yaw_calc r p m = fst (yaw_CalculateSubmodel (yaw_inputs r p) (\<lambda>i. 0) (xx_time m) m)"

interpretation yaw: limited_pid yaw_pid yaw_ok pid_of_rates yaw_calc "\<lambda>m. xx_V m 9"
proof
  fix m r p
  assume "yaw_ok m"
  then have ld: "yaw_loaded m" by (rule yaw_okD)
  show "yaw_ok (yaw_calc r p m)" unfolding yaw_calc_def by (rule yaw_calculate(1) [OF ld])
  show "pid_of_rates (yaw_calc r p m) = pid_next yaw_pid (f64 (r - p)) (pid_of_rates m)"
    unfolding yaw_calc_def yaw_calculate(2) [OF ld] by (simp add: yaw_inputs_def)
  show "xx_V m 9 = pid_out yaw_pid (pid_of_rates m)" using \<open>yaw_ok m\<close> by (simp add: yaw_ok_def)
next
  have "0 \<le> f64 x" if "0 \<le> x" for x using that by (rule double.nonneg)
  then show "minimum yaw_pid \<le> 0" "0 \<le> maximum yaw_pid" "0 \<le> kp yaw_pid" "0 \<le> tauD yaw_pid"
    "0 \<le> beta yaw_pid" "0 < tauI yaw_pid" by (simp_all add: yaw_pid_def)
qed

lemma yaw_initialize:
  fixes u y :: "nat \<Rightarrow> rat" and t :: rat and m :: xx_model
  assumes "u 0 = u 1"
  defines "m' \<equiv> fst (yaw_InitializeSubmodel u y t m)"
  shows "yaw_ok m'" and "pid_of_rates m' = pid_rest" and "snd (yaw_InitializeSubmodel u y t m) 1 = 0"
proof -
  let ?i = "yaw_ModelInitialize (m\<lparr>xx_initialize := True, xx_steps := 0\<rparr>)"
  let ?k = "yaw_CalculateInitial (yaw_CopyInputsToVariables u ((yaw_DiscreteInitialize ?i)\<lparr>xx_time := t\<rparr>))"
  have m': "m' = (yaw_CalculateOutput (yaw_CalculateDynamic ?k))\<lparr>xx_initialize := False\<rparr>"
    by (simp add: m'_def yaw_InitializeSubmodel_def Let_def)
  have k: "yaw_loaded ?k" "xx_V ?k 7 = xx_V ?k 8" "xx_s ?k 0 = 0" "xx_s ?k 1 = 0" "xx_s ?k 2 = 0"
    using assms(1)
    by (simp_all add: yaw_loaded_def yaw_ModelInitialize_def yaw_ModelInitialize_parameters_def
        yaw_ModelInitialize_variables_def yaw_ModelInitialize_initialvalues_def
        yaw_ModelInitialize_states_def yaw_CalculateInitial_def yaw_CopyInputsToVariables_def
        yaw_DiscreteInitialize_def yaw_pid_def Let_def)
  have out: "yaw_loaded (yaw_CalculateOutput n) = yaw_loaded n"
    "pid_of_rates (yaw_CalculateOutput n) = pid_of_rates n"
    "xx_V (yaw_CalculateOutput n) 9 = xx_V n 4"
    "yaw_loaded (n\<lparr>xx_initialize := b\<rparr>) = yaw_loaded n"
    "pid_of_rates (n\<lparr>xx_initialize := b\<rparr>) = pid_of_rates n" for n b
    by (simp_all add: yaw_loaded_def yaw_CalculateOutput_def pid_of_rates_def)
  show ok: "yaw_ok m'" using yaw_dynamic [OF k(1)] by (simp add: m' yaw_ok_def out)
  show rest: "pid_of_rates m' = pid_rest"
    unfolding m' out yaw_dynamic(2) [OF k(1)] k(2-5) pid_rest_def [symmetric]
    using yaw.pid_next_rest by simp
  have "snd (yaw_InitializeSubmodel u y t m) 1 = xx_V m' 9"
    by (simp add: m'_def yaw_InitializeSubmodel_def yaw_CopyVariablesToOutputs_def Let_def)
  then show "snd (yaw_InitializeSubmodel u y t m) 1 = 0" using yaw.out_rest [OF ok rest] by simp
qed

section \<open>Properties\<close>

text \<open>
  C12: after \<open>InitializeSubmodel\<close> with set point equal to position, any sequence of \<open>CalculateSubmodel\<close>
  calls produces exactly the outputs of the abstract pan PID started at rest: the state/rate
  exchange of \<open>DiscreteStep\<close>, the shared variable array and the initial evaluation add nothing.
\<close>

theorem yaw_implements_pid:
  fixes u y :: "nat \<Rightarrow> rat"
  assumes "u 0 = u 1"
  shows "calc_outputs yaw_calc (\<lambda>m. xx_V m 9) us (fst (yaw_InitializeSubmodel u y t m))
     = pid_run yaw_pid us pid_rest"
  using yaw.outputs_pid [OF yaw_initialize(1) [of u, OF assms]] yaw_initialize(2) [of u, OF assms] by simp

theorem yaw_implements_pid_witness:
  "calc_outputs yaw_calc (\<lambda>m. xx_V m 9) [(1, 0)]
     (fst (yaw_InitializeSubmodel (\<lambda>i. 1 / 2) (\<lambda>i. 0) 0 static_model)) = pid_run yaw_pid [(1, 0)] pid_rest"
  by (rule yaw_implements_pid) simp

text \<open>
  From such a start, every pan output is within [-0.99, 0.99] (as doubles) for any sequence of set
  points and positions, it stays exactly 0 as long as the set point equals the position, and it never
  drives away from a target that does not come nearer.
\<close>

lemma yaw_outputs_limited:
  fixes u y :: "nat \<Rightarrow> rat"
  assumes "u 0 = u 1"
  shows "let ys = calc_outputs yaw_calc (\<lambda>m. xx_V m 9) us (fst (yaw_InitializeSubmodel u y t m))
         in (\<forall>v \<in> set ys. \<bar>v\<bar> \<le> f64 (99 / 100)) \<and> ((\<forall>(r, p) \<in> set us. r = p) \<longrightarrow> set ys \<subseteq> {0})
            \<and> (sorted (0 # errors us) \<longrightarrow> (\<forall>v \<in> set ys. 0 \<le> v))
            \<and> (sorted (0 # map uminus (errors us)) \<longrightarrow> (\<forall>v \<in> set ys. v \<le> 0))"
proof -
  let ?ys = "calc_outputs yaw_calc (\<lambda>m. xx_V m 9) us (fst (yaw_InitializeSubmodel u y t m))"
  note ok = yaw_initialize(1) [of u y t m, OF assms(1)] yaw_initialize(2) [of u y t m, OF assms(1)]
  have "\<bar>v\<bar> \<le> f64 (99 / 100)" if "v \<in> set ?ys" for v
    using yaw.outputs_bounds [OF ok(1) that] by (simp add: yaw_pid_def abs_le_iff)
  then show ?thesis using yaw.stays_at_rest [OF ok] yaw.never_drives_away [OF ok] unfolding Let_def by blast
qed

end
