(* ===== verification/Control_Loop.thy ===== *)
theory Control_Loop
  imports Frame Spsc_Queue Hw_Interface Pitch_Model Yaw_Model
begin

text \<open>
  \<open>start_thread_func\<close> (main.c:69-236) without its thread control: the local state, entering a
  session (129-146), one iteration of the control loop (155-223: take a centre of mass, aim, run
  both controllers, convert to PWM, exchange with the FPGA) and leaving (227-228). The queue is
  replaced by an arbitrary one before every iteration, since another thread fills it. The
  conversion of a double to \<open>uint16_t\<close> is partial (None where C leaves it undefined). The field of
  view computed at the start of the thread, which is only printed, is in \<open>Lens\<close>.
\<close>


definition half_width :: rat where "half_width = f64 (of_nat WIDTH / 2)"
definition half_height :: rat where "half_height = f64 (of_nat HEIGHT / 2)"
definition YAW_RAD_PER_PIXEL :: rat where "YAW_RAD_PER_PIXEL = f32 (1 / 1000)"
definition PITCH_RAD_PER_PIXEL :: rat where "PITCH_RAD_PER_PIXEL = f32 (1 / 1000)"
definition YAW_PWM_MIN :: rat where "YAW_PWM_MIN = - 2048"
definition YAW_PWM_MAX :: rat where "YAW_PWM_MAX = 2048"
definition PITCH_PWM_MIN :: rat where "PITCH_PWM_MIN = - 512"
definition PITCH_PWM_MAX :: rat where "PITCH_PWM_MAX = 512"

record 'd ctrl =
  rig :: "'d rig"
  com_queue :: SPSCQueue
  com_val :: COM
  yaw_set_point :: rat
  pitch_set_point :: rat
  yaw_position :: rat
  pitch_position :: rat
  yaw_pwm :: u16
  pitch_pwm :: u16
  yaw_u :: "nat \<Rightarrow> rat"
  yaw_y :: "nat \<Rightarrow> rat"
  pitch_u :: "nat \<Rightarrow> rat"
  pitch_y :: "nat \<Rightarrow> rat"
  yaw_model :: xx_model
  pitch_model :: xx_model

definition ctrl_locals :: "'d ctrl \<Rightarrow> 'd ctrl" where
  "ctrl_locals s = s\<lparr>com_val := \<lparr>com_x = 0, com_y = 0\<rparr>, yaw_set_point := 0, pitch_set_point := 0,
     yaw_position := 0, pitch_position := 0, yaw_pwm := PWM_MID_POINT, pitch_pwm := PWM_MID_POINT\<rparr>"

definition ctrl_measure :: "'d transfer \<Rightarrow> 'd ctrl \<Rightarrow> 'd ctrl" where
  "ctrl_measure xfer s =
     (let r = transfer_to xfer 3 (pitch_pwm s) (yaw_pwm s) (rig s)
      in case get_rad_from_encoder (p_settings r) (y_settings r) of
           (p, y) \<Rightarrow> s\<lparr>rig := r, pitch_position := p, yaw_position := y\<rparr>)"

definition ctrl_enter :: "'d transfer \<Rightarrow> 'd ctrl \<Rightarrow> 'd ctrl" where
  "ctrl_enter xfer s =
     (let s = ctrl_measure xfer s;
          s = s\<lparr>yaw_u := (yaw_u s)(0 := yaw_position s, 1 := yaw_position s),
                yaw_y := (yaw_y s)(0 := 0, 1 := 0),
                pitch_u := (pitch_u s)(1 := pitch_position s, 2 := pitch_position s),
                pitch_y := (pitch_y s)(0 := 0)\<rparr>;
          (ym, yy) = yaw_InitializeSubmodel (yaw_u s) (yaw_y s) (xx_time (yaw_model s)) (yaw_model s);
          (pm, py) = pitch_InitializeSubmodel (pitch_u s) (pitch_y s) (xx_time (pitch_model s)) (pitch_model s)
      in s\<lparr>yaw_model := ym, yaw_y := yy, pitch_model := pm, pitch_y := py\<rparr>)"

definition pixel_err :: "rat \<Rightarrow> rat \<Rightarrow> rat" where
  "pixel_err half c = f32 (f64 (half - c))"

definition retarget :: "rat \<Rightarrow> rat \<Rightarrow> rat \<Rightarrow> rat \<Rightarrow> rat" where
  "retarget px_err rad_per_pixel pos sp =
     (if px_err \<le> - 50 \<or> px_err \<ge> 50 then f64 (pos + f32 (px_err * rad_per_pixel)) else sp)"

definition clip :: "rat \<Rightarrow> rat \<Rightarrow> rat \<Rightarrow> rat \<Rightarrow> rat" where
  "clip lo hi pos sp = (if sp > hi then pos else if sp < lo then pos else sp)"

definition ctrl_aim :: "'d ctrl \<Rightarrow> 'd ctrl" where
  "ctrl_aim s =
     (case spsc_dequeue (com_queue s) (com_val s) of (q, v, ok) \<Rightarrow>
        (let s = s\<lparr>com_queue := q, com_val := v\<rparr>
         in if ok \<and> com_x v > 0 \<and> com_y v > 0
            then s\<lparr>yaw_set_point := clip YAW_MIN_RAD YAW_MAX_RAD (yaw_position s)
                     (retarget (pixel_err half_width (com_x v)) YAW_RAD_PER_PIXEL (yaw_position s) (yaw_set_point s)),
                   pitch_set_point := clip PITCH_MIN_RAD PITCH_MAX_RAD (pitch_position s)
                     (retarget (pixel_err half_height (com_y v)) PITCH_RAD_PER_PIXEL (pitch_position s)
                        (pitch_set_point s))\<rparr>
            else s))"

definition ctrl_model :: "'d ctrl \<Rightarrow> 'd ctrl" where
  "ctrl_model s =
     (let s = s\<lparr>yaw_u := (yaw_u s)(0 := yaw_set_point s, 1 := yaw_position s),
                pitch_u := (pitch_u s)(1 := pitch_set_point s, 2 := pitch_position s)\<rparr>;
          (ym, yy) = yaw_CalculateSubmodel (yaw_u s) (yaw_y s) (xx_time (yaw_model s)) (yaw_model s);
          (pm, py) = pitch_CalculateSubmodel (pitch_u s) (pitch_y s) (xx_time (pitch_model s)) (pitch_model s)
      in s\<lparr>yaw_model := ym, yaw_y := yy, pitch_model := pm, pitch_y := py\<rparr>)"

definition requested_pwm :: "rat \<Rightarrow> rat \<Rightarrow> rat \<Rightarrow> u16 option" where
  "requested_pwm pwm_min pwm_max out = u16_of_double (f64 (out * (if out \<le> 0 then pwm_min else pwm_max)))"

definition pwm_dir :: "rat \<Rightarrow> int" where
  "pwm_dir out = (if out \<le> 0 then -1 else 1)"

definition ctrl_drive :: "'d transfer \<Rightarrow> 'd ctrl \<Rightarrow> 'd ctrl option" where
  "ctrl_drive xfer s =
     (let s = ctrl_model s
      in case requested_pwm YAW_PWM_MIN YAW_PWM_MAX (yaw_y s 1) of
           None \<Rightarrow> None
         | Some requested_yaw \<Rightarrow>
             (case requested_pwm PITCH_PWM_MIN PITCH_PWM_MAX (pitch_y s 0) of
                None \<Rightarrow> None
              | Some requested_pitch \<Rightarrow>
                  Some (ctrl_measure xfer
                    (s\<lparr>pitch_pwm := get_pwm_value (pwm_dir (pitch_y s 0)) requested_pitch,
                       yaw_pwm := get_pwm_value (pwm_dir (yaw_y s 1)) requested_yaw\<rparr>))))"

definition ctrl_step :: "'d transfer \<Rightarrow> 'd ctrl \<Rightarrow> 'd ctrl option" where
  "ctrl_step xfer s = ctrl_drive xfer (ctrl_aim s)"

definition ctrl_leave :: "'d ctrl \<Rightarrow> 'd ctrl" where
  "ctrl_leave s =
     (let (ym, yy) = yaw_TerminateSubmodel (yaw_u s) (yaw_y s) (xx_time (yaw_model s)) (yaw_model s);
          (pm, py) = pitch_TerminateSubmodel (pitch_u s) (pitch_y s) (xx_time (pitch_model s)) (pitch_model s)
      in s\<lparr>yaw_model := ym, yaw_y := yy, pitch_model := pm, pitch_y := py\<rparr>)"

fun ctrl_run :: "'d transfer \<Rightarrow> SPSCQueue list \<Rightarrow> 'd ctrl \<Rightarrow> 'd ctrl option" where
  "ctrl_run xfer [] s = Some s"
| "ctrl_run xfer (q # qs) s =
     (case ctrl_step xfer (s\<lparr>com_queue := q\<rparr>) of None \<Rightarrow> None | Some s' \<Rightarrow> ctrl_run xfer qs s')"

section \<open>The PWM words\<close>

lemma requested_pwm_Some:
  assumes "0 \<le> k" "\<bar>out\<bar> \<le> m" "ctrunc (f64 (m * k)) = n" "n < 2 ^ 16"
  obtains w where "requested_pwm (- k) k out = Some w" "uint w \<le> n"
proof -
  let ?v = "f64 (out * (if out \<le> 0 then - k else k))"
  have "out * (if out \<le> 0 then - k else k) = \<bar>out\<bar> * k" by auto
  then have v: "?v = f64 (\<bar>out\<bar> * k)" by simp
  have v0: "0 \<le> ?v" unfolding v using assms(1) by (intro double.nonneg) simp
  have "?v \<le> f64 (m * k)" unfolding v using assms(1,2) by (intro double.mono mult_right_mono)
  from ctrunc_mono [OF v0 this] have le: "ctrunc ?v \<le> n" unfolding assms(3) .
  have ge: "0 \<le> ctrunc ?v" using v0 by (simp add: ctrunc_def)
  have "requested_pwm (- k) k out = Some (word_of_int (ctrunc ?v))"
    using ge le assms(4) by (simp add: requested_pwm_def u16_of_double_def Let_def)
  moreover have "uint (word_of_int (ctrunc ?v) :: u16) \<le> n"
    using ge le assms(4) by (simp add: uint_word_of_int)
  ultimately show thesis by (rule that)
qed

lemma duty_limits:
  "ctrunc (f64 (f64 (99 / 100) * 2048)) = 2027" "ctrunc (f64 (f64 (99 / 100) * 512)) = 506"
  by code_simp+

lemma uint_get_pwm_value:
  assumes "0 \<le> 2048 + uint w * dir" "2048 + uint w * dir < 65536"
  shows "uint (get_pwm_value dir w) = 2048 + uint w * dir"
proof -
  have "uint (word_of_int (2048 + uint w * dir) :: u16) = 2048 + uint w * dir"
    unfolding uint_word_of_int using assms by (simp add: mod_pos_pos_trivial)
  then show ?thesis by (simp only: get_pwm_value_def PWM_MID_POINT_def) simp
qed

lemma get_pwm_bounds:
  assumes "uint w \<le> n" "n \<le> 2048"
  shows "2048 - n \<le> uint (get_pwm_value (pwm_dir out) w)"
    and "uint (get_pwm_value (pwm_dir out) w) \<le> 2048 + n"
proof -
  have w0: "0 \<le> uint w" "- uint w \<le> 0" by simp_all
  have "uint (get_pwm_value (pwm_dir out) w) = 2048 + uint w * pwm_dir out"
    using assms w0 by (intro uint_get_pwm_value; cases "out \<le> 0"; simp only: pwm_dir_def if_True if_False; linarith)
  then show "2048 - n \<le> uint (get_pwm_value (pwm_dir out) w)"
    "uint (get_pwm_value (pwm_dir out) w) \<le> 2048 + n"
    using assms w0 by (cases "out \<le> 0"; simp only: pwm_dir_def if_True if_False; linarith)+
qed

definition yaw_duty :: "u16 \<Rightarrow> bool" where
  "yaw_duty w \<longleftrightarrow> 21 \<le> uint w \<and> uint w \<le> 4075"

definition pitch_duty :: "u16 \<Rightarrow> bool" where
  "pitch_duty w \<longleftrightarrow> 1542 \<le> uint w \<and> uint w \<le> 2554"

lemma yaw_request:
  assumes "yaw_ok m"
  obtains w where "requested_pwm YAW_PWM_MIN YAW_PWM_MAX (xx_V m 9) = Some w"
    "yaw_duty (get_pwm_value (pwm_dir (xx_V m 9)) w)"
proof -
  have "\<bar>xx_V m 9\<bar> \<le> f64 (99 / 100)" using yaw.out_bounds [OF assms] by (simp add: yaw_pid_def abs_le_iff)
  from requested_pwm_Some [OF _ this duty_limits(1)]
  obtain w where w: "requested_pwm (- 2048) 2048 (xx_V m 9) = Some w" "uint w \<le> 2027" by auto
  with get_pwm_bounds [OF w(2)] that show thesis
    by (auto simp: YAW_PWM_MIN_def YAW_PWM_MAX_def yaw_duty_def)
qed

lemma pitch_request:
  assumes "pitch_ok m"
  obtains w where "requested_pwm PITCH_PWM_MIN PITCH_PWM_MAX (xx_V m 11) = Some w"
    "pitch_duty (get_pwm_value (pwm_dir (xx_V m 11)) w)"
proof -
  have "\<bar>xx_V m 11\<bar> \<le> f64 (99 / 100)" using pitch.out_bounds [OF assms] by (simp add: pitch_pid_def abs_le_iff)
  from requested_pwm_Some [OF _ this duty_limits(2)]
  obtain w where w: "requested_pwm (- 512) 512 (xx_V m 11) = Some w" "uint w \<le> 506" by auto
  with get_pwm_bounds [OF w(2)] that show thesis
    by (auto simp: PITCH_PWM_MIN_def PITCH_PWM_MAX_def pitch_duty_def)
qed

section \<open>The invariant of the control thread\<close>

definition ctrl_ok :: "'d ctrl \<Rightarrow> bool" where
  "ctrl_ok s \<longleftrightarrow> yaw_ok (yaw_model s) \<and> pitch_ok (pitch_model s)
     \<and> yaw_duty (yaw_pwm s) \<and> pitch_duty (pitch_pwm s)"

lemma ctrl_measure_frame [simp]:
  "yaw_model (ctrl_measure xfer s) = yaw_model s" "pitch_model (ctrl_measure xfer s) = pitch_model s"
  "yaw_pwm (ctrl_measure xfer s) = yaw_pwm s" "pitch_pwm (ctrl_measure xfer s) = pitch_pwm s"
  "yaw_set_point (ctrl_measure xfer s) = yaw_set_point s"
  "pitch_set_point (ctrl_measure xfer s) = pitch_set_point s"
  by (simp_all add: ctrl_measure_def Let_def split: prod.splits)

lemma ctrl_measure_rig [simp]:
  "rig (ctrl_measure xfer s) = transfer_to xfer 3 (pitch_pwm s) (yaw_pwm s) (rig s)"
  by (simp add: ctrl_measure_def Let_def split: prod.splits)

lemma ctrl_aim_frame [simp]:
  "yaw_model (ctrl_aim s) = yaw_model s" "pitch_model (ctrl_aim s) = pitch_model s"
  "rig (ctrl_aim s) = rig s" "yaw_position (ctrl_aim s) = yaw_position s"
  "pitch_position (ctrl_aim s) = pitch_position s"
  "yaw_pwm (ctrl_aim s) = yaw_pwm s" "pitch_pwm (ctrl_aim s) = pitch_pwm s"
  by (simp_all add: ctrl_aim_def Let_def split: prod.splits)

lemma ctrl_model_simps:
  assumes "yaw_loaded (yaw_model s)" "pitch_loaded (pitch_model s)"
  shows "yaw_ok (yaw_model (ctrl_model s))" "pitch_ok (pitch_model (ctrl_model s))"
    and "yaw_y (ctrl_model s) 1 = xx_V (yaw_model (ctrl_model s)) 9"
    and "pitch_y (ctrl_model s) 0 = xx_V (pitch_model (ctrl_model s)) 11"
    and "rig (ctrl_model s) = rig s"
  using yaw_calculate [OF assms(1), of "(yaw_u s)(0 := yaw_set_point s, 1 := yaw_position s)"
      "yaw_y s" "xx_time (yaw_model s)"]
    pitch_calculate [OF assms(2), of "(pitch_u s)(1 := pitch_set_point s, 2 := pitch_position s)"
      "pitch_y s" "xx_time (pitch_model s)"]
  by (simp_all add: ctrl_model_def Let_def case_prod_beta del: One_nat_def)

lemma ctrl_drive_ok:
  assumes "ctrl_ok s"
  obtains s' py yy where "ctrl_drive xfer s = Some s'" "ctrl_ok s'" "pitch_duty py" "yaw_duty yy"
    "rig s' = transfer_to xfer 3 py yy (rig s)"
proof -
  let ?m = "ctrl_model s"
  have ld: "yaw_loaded (yaw_model s)" "pitch_loaded (pitch_model s)"
    using assms by (simp_all add: ctrl_ok_def yaw_okD pitch_okD)
  note m = ctrl_model_simps [OF ld]
  obtain wy where y: "requested_pwm YAW_PWM_MIN YAW_PWM_MAX (yaw_y ?m 1) = Some wy"
    "yaw_duty (get_pwm_value (pwm_dir (yaw_y ?m 1)) wy)"
    using yaw_request [OF m(1)] unfolding m(3) .
  obtain wp where p: "requested_pwm PITCH_PWM_MIN PITCH_PWM_MAX (pitch_y ?m 0) = Some wp"
    "pitch_duty (get_pwm_value (pwm_dir (pitch_y ?m 0)) wp)"
    using pitch_request [OF m(2)] unfolding m(4) .
  let ?s = "?m\<lparr>pitch_pwm := get_pwm_value (pwm_dir (pitch_y ?m 0)) wp,
               yaw_pwm := get_pwm_value (pwm_dir (yaw_y ?m 1)) wy\<rparr>"
  have "ctrl_drive xfer s = Some (ctrl_measure xfer ?s)" by (simp add: ctrl_drive_def Let_def y(1) p(1) del: One_nat_def)
  moreover have "ctrl_ok (ctrl_measure xfer ?s)" using m(1,2) y(2) p(2) by (simp add: ctrl_ok_def)
  moreover have "rig (ctrl_measure xfer ?s) =
      transfer_to xfer 3 (get_pwm_value (pwm_dir (pitch_y ?m 0)) wp) (get_pwm_value (pwm_dir (yaw_y ?m 1)) wy) (rig s)"
    unfolding ctrl_measure_rig using m(5) by simp
  ultimately show thesis using p(2) y(2) by (intro that)
qed

lemma ctrl_aim_ok: "ctrl_ok s \<Longrightarrow> ctrl_ok (ctrl_aim s)" "rig (ctrl_aim s) = rig s"
  by (simp_all add: ctrl_ok_def)

lemma ctrl_step_ok:
  assumes "ctrl_ok s"
  obtains s' py yy where "ctrl_step xfer s = Some s'" "ctrl_ok s'" "pitch_duty py" "yaw_duty yy"
    "rig s' = transfer_to xfer 3 py yy (rig s)"
  using ctrl_drive_ok [OF ctrl_aim_ok(1) [OF assms], of xfer thesis] unfolding ctrl_aim_ok(2) ctrl_step_def .

lemma ctrl_enter_ok:
  assumes "yaw_duty (yaw_pwm s)" "pitch_duty (pitch_pwm s)"
  shows "ctrl_ok (ctrl_enter xfer s)"
    and "rig (ctrl_enter xfer s) = transfer_to xfer 3 (pitch_pwm s) (yaw_pwm s) (rig s)"
proof -
  let ?s = "ctrl_measure xfer s"
  show "ctrl_ok (ctrl_enter xfer s)"
    using assms yaw_initialize(1) [of "(yaw_u ?s)(0 := yaw_position ?s, 1 := yaw_position ?s)"
        "(yaw_y ?s)(0 := 0, 1 := 0)" "xx_time (yaw_model ?s)" "yaw_model ?s"]
      pitch_initialize(1) [of "(pitch_u ?s)(1 := pitch_position ?s, 2 := pitch_position ?s)"
        "(pitch_y ?s)(0 := 0)" "xx_time (pitch_model ?s)" "pitch_model ?s"]
    by (simp add: ctrl_enter_def Let_def ctrl_ok_def case_prod_beta)
  show "rig (ctrl_enter xfer s) = transfer_to xfer 3 (pitch_pwm s) (yaw_pwm s) (rig s)"
    by (simp add: ctrl_enter_def Let_def case_prod_beta)
qed

lemma ctrl_locals_duty:
  "yaw_duty (yaw_pwm (ctrl_locals s))" "pitch_duty (pitch_pwm (ctrl_locals s))"
  "rig (ctrl_locals s) = rig s" "pitch_pwm (ctrl_locals s) = PWM_MID_POINT" "yaw_pwm (ctrl_locals s) = PWM_MID_POINT"
  by (simp_all add: ctrl_locals_def PWM_MID_POINT_def yaw_duty_def pitch_duty_def)

definition duty_ok :: "u16 \<times> u16 \<Rightarrow> bool" where
  "duty_ok w \<longleftrightarrow> pitch_duty (fst w) \<and> yaw_duty (snd w)"

context encoder_link
begin

lemma run_sent:
  "ctrl_ok s \<Longrightarrow> \<exists>s' ws. ctrl_run xfer qs s = Some s' \<and> ctrl_ok s'
     \<and> sent (device (rig s')) = sent (device (rig s)) @ ws \<and> length ws = length qs \<and> list_all duty_ok ws"
proof (induction qs arbitrary: s)
  case Nil
  then show ?case by simp
next
  case (Cons q qs)
  have "ctrl_ok (s\<lparr>com_queue := q\<rparr>)" using Cons.prems by (simp add: ctrl_ok_def)
  then obtain s1 py yy where s1: "ctrl_step xfer (s\<lparr>com_queue := q\<rparr>) = Some s1" "ctrl_ok s1"
    "pitch_duty py" "yaw_duty yy" "rig s1 = transfer_to xfer 3 py yy (rig s)"
    by (rule ctrl_step_ok [where xfer = xfer]) simp
  from Cons.IH [OF s1(2)] obtain s' ws where "ctrl_run xfer qs s1 = Some s'" "ctrl_ok s'"
    "sent (device (rig s')) = sent (device (rig s1)) @ ws" "length ws = length qs" "list_all duty_ok ws" by blast
  then show ?case using s1 by (intro exI [of _ s'] exI [of _ "(py, yy) # ws"])
      (simp add: transfer_to_rig duty_ok_def [of "(py, yy)"])
qed

lemma session_sent:
  "\<exists>s' ws. ctrl_run xfer qs (ctrl_enter xfer (ctrl_locals s)) = Some s'
     \<and> sent (device (rig s')) = sent (device (rig s)) @ (PWM_MID_POINT, PWM_MID_POINT) # ws
     \<and> length ws = length qs \<and> list_all duty_ok ws"
proof -
  have "rig (ctrl_enter xfer (ctrl_locals s)) = transfer_to xfer 3 PWM_MID_POINT PWM_MID_POINT (rig s)"
    using ctrl_enter_ok(2) [OF ctrl_locals_duty(1,2)] by (simp add: ctrl_locals_duty)
  with run_sent [OF ctrl_enter_ok(1) [OF ctrl_locals_duty(1,2), of xfer s], of qs] show ?thesis
    by (auto simp: transfer_to_rig)
qed

end

section \<open>Aiming\<close>

lemma clip_range:
  "lo \<le> hi \<Longrightarrow> lo \<le> pos \<and> pos \<le> hi \<Longrightarrow> lo \<le> clip lo hi pos sp \<and> clip lo hi pos sp \<le> hi"
  by (auto simp: clip_def)

lemma retarget_dead_zone: "\<bar>e\<bar> < 50 \<Longrightarrow> retarget e k pos sp = sp"
  by (auto simp: retarget_def)

lemma retarget_direction:
  assumes "is_f64 pos" "0 \<le> k"
  shows "50 \<le> e \<Longrightarrow> pos \<le> retarget e k pos sp" "e \<le> - 50 \<Longrightarrow> retarget e k pos sp \<le> pos"
proof -
  show "pos \<le> retarget e k pos sp" if "50 \<le> e"
  proof -
    have "0 \<le> f32 (e * k)" using that assms(2) by (intro single.nonneg) simp
    then show ?thesis using that assms(1) by (simp add: retarget_def double.lower)
  qed
  show "retarget e k pos sp \<le> pos" if "e \<le> - 50"
  proof -
    have "f32 (e * k) \<le> 0" using that assms(2) by (intro single.nonpos) (simp add: mult_nonpos_nonneg)
    then show ?thesis using that assms(1) by (simp add: retarget_def double.upper)
  qed
qed

section \<open>The first iteration before anything has been seen\<close>

lemma pitch_constants:
  "xx_step_size = 5764607523034235 / 2 ^ 59" "kp pitch_pid = 7205759403792794 / 2 ^ 52"
  "tauD pitch_pid = 7205759403792794 / 2 ^ 57" "beta pitch_pid = 4611686018427388 / 2 ^ 62"
  "tauI pitch_pid = 5910974510923776 / 2 ^ 49" "maximum pitch_pid = 8917127262193582 / 2 ^ 53"
  "PITCH_MIN_RAD = 4716158501367616 / 2 ^ 54"
  unfolding xx_step_size_def pitch_pid_def PITCH_MIN_RAD_def pid_params.select_convs
  using f64_value [of 5764607523034235 59 "1 / 100"] f64_value [of 7205759403792794 52 "16 / 10"]
    f64_value [of 7205759403792794 57 "5 / 100"] f64_value [of 4611686018427388 62 "1 / 1000"]
    f64_value [of 5910974510923776 49 "105 / 10"] f64_value [of 8917127262193582 53 "99 / 100"]
    f64_value [of 4716158501367616 54 "2617993878 / 10 ^ 10"] by simp_all

lemma pitch_factor: "pid_factor pitch_pid = 7001865092304876 / 2 ^ 46"
proof -
  have "f64 (tauD pitch_pid * beta pitch_pid) = of_int 7378697629483821 / 2 ^ 67"
    unfolding pitch_constants by (rule f64_value) simp_all
  then have 1: "f64 (tauD pitch_pid * beta pitch_pid) = 7378697629483821 / 2 ^ 67" by simp
  have "f64 (xx_step_size + 7378697629483821 / 2 ^ 67) = of_int 5793430560649406 / 2 ^ 59"
    unfolding pitch_constants by (rule f64_value) simp_all
  then have 2: "f64 (xx_step_size + 7378697629483821 / 2 ^ 67) = 5793430560649406 / 2 ^ 59" by simp
  have "f64 (1 / (5793430560649406 / 2 ^ 59)) = of_int 7001865092304876 / 2 ^ 46"
    by (rule f64_value) simp_all
  then show ?thesis unfolding pid_factor_def 1 2 by simp
qed

lemma pitch_first_terms:
  "f64 (0 - PITCH_MIN_RAD) = - 4716158501367616 / 2 ^ 54"
  "f64 (tauD pitch_pid * kp pitch_pid) = 5764607523034236 / 2 ^ 56"
  "f64 (5764607523034236 / 2 ^ 56 * (- 4716158501367616 / 2 ^ 54)) = - 6036682881750550 / 2 ^ 58"
  "f64 (xx_step_size * kp pitch_pid) = 4611686018427388 / 2 ^ 58"
  "f64 (4611686018427388 / 2 ^ 58 * (- 4716158501367616 / 2 ^ 54)) = - 4829346305400439 / 2 ^ 60"
  "f64 (- 6036682881750550 / 2 ^ 58 + - 4829346305400439 / 2 ^ 60) = - 7244019458100660 / 2 ^ 58"
  "f64 (7001865092304876 / 2 ^ 46 * (- 7244019458100660 / 2 ^ 58)) = - 5631234031483722 / 2 ^ 51"
  unfolding pitch_constants
  using f64_value [of "- 4716158501367616" 54 "0 - 4716158501367616 / 2 ^ 54"]
    f64_value [of 5764607523034236 56 "7205759403792794 / 2 ^ 57 * (7205759403792794 / 2 ^ 52)"]
    f64_value [of "- 6036682881750550" 58 "5764607523034236 / 2 ^ 56 * (- 4716158501367616 / 2 ^ 54)"]
    f64_value [of 4611686018427388 58 "5764607523034235 / 2 ^ 59 * (7205759403792794 / 2 ^ 52)"]
    f64_value [of "- 4829346305400439" 60 "4611686018427388 / 2 ^ 58 * (- 4716158501367616 / 2 ^ 54)"]
    f64_value [of "- 7244019458100660" 58 "- 6036682881750550 / 2 ^ 58 + - 4829346305400439 / 2 ^ 60"]
    f64_value [of "- 5631234031483722" 51 "7001865092304876 / 2 ^ 46 * (- 7244019458100660 / 2 ^ 58)"]
  by simp_all

lemma pitch_first_integral:
  "f64 (xx_step_size * (- 5631234031483722 / 2 ^ 51)) = - 7207979560299164 / 2 ^ 58"
  "f64 (- 7207979560299164 / 2 ^ 58 / tauI pitch_pid) = - 5491793950704125 / 2 ^ 61"
  "f64 (- 5491793950704125 / 2 ^ 61 + - 5631234031483722 / 2 ^ 51) = - 5636597111513706 / 2 ^ 51"
  unfolding pitch_constants
  using f64_value [of "- 7207979560299164" 58 "5764607523034235 / 2 ^ 59 * (- 5631234031483722 / 2 ^ 51)"]
    f64_value [of "- 5491793950704125" 61 "- 7207979560299164 / 2 ^ 58 / (5910974510923776 / 2 ^ 49)"]
    f64_value [of "- 5636597111513706" 51 "- 5491793950704125 / 2 ^ 61 + - 5631234031483722 / 2 ^ 51"]
  by simp_all

lemma pitch_first_output:
  "pid_out pitch_pid (pid_next pitch_pid (f64 (0 - PITCH_MIN_RAD)) pid_rest) = minimum pitch_pid"
proof -
  let ?e = "- 4716158501367616 / 2 ^ 54 :: rat"
  have e: "f64 ?e = ?e" using double.idem [of "0 - PITCH_MIN_RAD"] unfolding pitch_first_terms(1) .
  have r: "f64 (- 6036682881750550 / 2 ^ 58) = - 6036682881750550 / 2 ^ 58"
    using double.idem [of "5764607523034236 / 2 ^ 56 * (- 4716158501367616 / 2 ^ 54)"]
    unfolding pitch_first_terms(3) .
  have "pid_next pitch_pid ?e pid_rest =
      \<lparr>uD = - 5631234031483722 / 2 ^ 51, err = ?e, uI = - 5491793950704125 / 2 ^ 61\<rparr>"
    unfolding pid_next_def pid_rest_def pid_state.select_convs Let_def mult_zero_left mult_zero_right
      double.zero add_0_left diff_0_right e pitch_factor pitch_first_terms(2-3) r
      pitch_first_terms(4-7) pitch_first_integral
    by (simp only: double.idem pitch_first_integral(2) [symmetric])
  then have "pid_out pitch_pid (pid_next pitch_pid ?e pid_rest) = limit pitch_pid (- 5636597111513706 / 2 ^ 51)"
    unfolding pid_out_def by (simp only: pid_state.select_convs pitch_first_integral(3))
  moreover have "minimum pitch_pid = - maximum pitch_pid" by (simp add: pitch_pid_def)
  ultimately show ?thesis unfolding pitch_first_terms(1) by (simp add: limit_def pitch_constants)
qed

lemma ctrl_step_writes_once:
  assumes "ctrl_step xfer s = Some c"
  shows "\<exists>py yy. rig c = transfer_to xfer 3 py yy (rig s)"
proof -
  have r: "rig (ctrl_model (ctrl_aim s)) = rig s" by (simp add: ctrl_model_def Let_def case_prod_beta)
  obtain py yy where "c = ctrl_measure xfer ((ctrl_model (ctrl_aim s))\<lparr>pitch_pwm := py, yaw_pwm := yy\<rparr>)"
    using assms by (auto simp: ctrl_step_def ctrl_drive_def Let_def split: option.splits)
  then show ?thesis unfolding ctrl_measure_rig by (auto simp: r)
qed

lemma ctrl_enter_frame [simp]:
  "pitch_set_point (ctrl_enter xfer s) = pitch_set_point s" "com_queue (ctrl_enter xfer s) = com_queue s"
  by (simp_all add: ctrl_enter_def ctrl_measure_def Let_def case_prod_beta)

lemma ctrl_enter_rest: "pid_of_rates (pitch_model (ctrl_enter xfer s)) = pid_rest"
  using pitch_initialize(2) [of "(pitch_u (ctrl_measure xfer s))
      (1 := pitch_position (ctrl_measure xfer s), 2 := pitch_position (ctrl_measure xfer s))"]
  by (simp add: ctrl_enter_def Let_def case_prod_beta)

lemma requested_full_tilt: "requested_pwm PITCH_PWM_MIN PITCH_PWM_MAX (- f64 (99 / 100)) = Some 506"
  by code_simp

lemma full_tilt_back: "pwm_dir (- f64 (99 / 100)) = - 1" "get_pwm_value (- 1) 506 = 1542"
  by code_simp+

lemma first_tilt:
  assumes duty: "yaw_duty (yaw_pwm s)" "pitch_duty (pitch_pwm s)"
    and sp: "pitch_set_point s = 0" and q: "spsc_wf (com_queue s)" "spsc_contents (com_queue s) = []"
    and pos: "pitch_position (ctrl_enter xfer s) = PITCH_MIN_RAD"
  shows "\<exists>c yy. ctrl_step xfer ((ctrl_enter xfer s)\<lparr>rig := r\<rparr>) = Some c
           \<and> rig c = transfer_to xfer 3 1542 yy r"
proof -
  let ?e = "(ctrl_enter xfer s)\<lparr>rig := r\<rparr>"
  let ?m = "ctrl_model (ctrl_aim ?e)"
  have ok: "ctrl_ok ?e" using ctrl_enter_ok(1) [OF duty, of xfer] by (simp add: ctrl_ok_def)
  have ld: "yaw_loaded (yaw_model (ctrl_aim ?e))" "pitch_loaded (pitch_model (ctrl_aim ?e))"
    using ok by (simp_all add: ctrl_ok_def yaw_okD pitch_okD)
  note m = ctrl_model_simps [OF ld]
  have sp': "pitch_set_point (ctrl_aim ?e) = 0"
    using spsc_dequeue_empty [OF q, of "com_val ?e"] sp by (simp add: ctrl_aim_def)
  have "pid_of_rates (pitch_model ?m) =
      pid_next pitch_pid (f64 (pitch_set_point (ctrl_aim ?e) - pitch_position (ctrl_aim ?e)))
        (pid_of_rates (pitch_model (ctrl_aim ?e)))"
    using pitch_calculate(2) [OF ld(2)] by (simp add: ctrl_model_def Let_def case_prod_beta)
  then have "pitch_y ?m 0 = minimum pitch_pid"
    using m(2) pitch_first_output unfolding m(4) by (simp add: pitch_ok_def sp' pos ctrl_enter_rest)
  then have p: "pitch_y ?m 0 = - f64 (99 / 100)" by (simp add: pitch_pid_def)
  obtain wy where y: "requested_pwm YAW_PWM_MIN YAW_PWM_MAX (yaw_y ?m 1) = Some wy"
    using yaw_request [OF m(1)] unfolding m(3) by metis
  let ?s = "?m\<lparr>pitch_pwm := 1542, yaw_pwm := get_pwm_value (pwm_dir (yaw_y ?m 1)) wy\<rparr>"
  have "ctrl_step xfer ?e = Some (ctrl_measure xfer ?s)"
    by (simp add: ctrl_step_def ctrl_drive_def Let_def y p requested_full_tilt full_tilt_back del: One_nat_def)
  moreover have "rig (ctrl_measure xfer ?s) =
      transfer_to xfer 3 1542 (get_pwm_value (pwm_dir (yaw_y ?m 1)) wy) r"
    unfolding ctrl_measure_rig using m(5) by simp
  ultimately show ?thesis by blast
qed

section \<open>Properties\<close>

text \<open>
  A control session never gets stuck in an undefined conversion, and whatever the camera queue and
  the encoders deliver, every PWM pair written to the FPGA is the midpoint or within 1542..2554 for
  tilt and 21..4075 for pan: one write on entering and exactly one per iteration.
\<close>

lemma control_duty_limits:
  "\<exists>s' ws. ctrl_run de10_read_write_encoder_pwm qs
             (ctrl_enter de10_read_write_encoder_pwm (ctrl_locals s)) = Some s'
     \<and> map unpack_encoders (pwm_writes (device (rig s')))
         = map unpack_encoders (pwm_writes (device (rig s))) @ (PWM_MID_POINT, PWM_MID_POINT) # ws
     \<and> length ws = length qs \<and> list_all duty_ok ws"
  by (rule de10.session_sent)

text \<open>
  Aiming keeps both set points inside the motor limits: if they and the measured positions are in
  range before a centre of mass is taken, the set points are in range after it, for any queue contents.
\<close>

lemma aim_stays_in_range:
  assumes "YAW_MIN_RAD \<le> yaw_position s" "yaw_position s \<le> YAW_MAX_RAD"
    and "PITCH_MIN_RAD \<le> pitch_position s" "pitch_position s \<le> PITCH_MAX_RAD"
    and "YAW_MIN_RAD \<le> yaw_set_point s" "yaw_set_point s \<le> YAW_MAX_RAD"
    and "PITCH_MIN_RAD \<le> pitch_set_point s" "pitch_set_point s \<le> PITCH_MAX_RAD"
  shows "YAW_MIN_RAD \<le> yaw_set_point (ctrl_aim s) \<and> yaw_set_point (ctrl_aim s) \<le> YAW_MAX_RAD
     \<and> PITCH_MIN_RAD \<le> pitch_set_point (ctrl_aim s) \<and> pitch_set_point (ctrl_aim s) \<le> PITCH_MAX_RAD"
  using assms clip_range [OF rad_limits(2)] clip_range [OF rad_limits(4)]
  by (auto simp: ctrl_aim_def Let_def split: prod.splits)

lemma aim_stays_in_range_example:
  "\<exists>s :: unit ctrl. PITCH_MIN_RAD \<le> pitch_set_point s \<and> PITCH_MIN_RAD \<le> pitch_set_point (ctrl_aim s)"
proof -
  define s :: "unit ctrl" where "s = undefined\<lparr>yaw_position := YAW_MIN_RAD, yaw_set_point := YAW_MIN_RAD,
    pitch_position := PITCH_MIN_RAD, pitch_set_point := PITCH_MIN_RAD\<rparr>"
  have "PITCH_MIN_RAD \<le> pitch_set_point (ctrl_aim s)"
    using aim_stays_in_range [of s] rad_limits by (simp add: s_def)
  then show ?thesis by (intro exI [of _ s]) (simp add: s_def)
qed

text \<open>
  Until a centre of mass has been accepted, the tilt controller is driven to a set point outside the
  motor limits: with an empty queue the first iteration of a session passes 0 as the tilt set point,
  which is below \<open>PITCH_MIN_RAD\<close>.
\<close>

lemma tilt_target_before_detection:
  assumes "spsc_wf (com_queue s)" "spsc_contents (com_queue s) = []"
  shows "pitch_u (ctrl_model (ctrl_aim (ctrl_enter xfer (ctrl_locals s)))) 1 = 0 \<and> 0 < PITCH_MIN_RAD"
proof -
  let ?e = "ctrl_enter xfer (ctrl_locals s)"
  have e: "pitch_set_point ?e = 0" "com_queue ?e = com_queue s"
    by (simp_all add: ctrl_enter_def ctrl_measure_def ctrl_locals_def Let_def case_prod_beta)
  then have "pitch_set_point (ctrl_aim ?e) = 0"
    using spsc_dequeue_empty [OF assms, of "com_val ?e"] by (simp add: ctrl_aim_def)
  then show ?thesis using pitch_min_pos
    by (simp add: ctrl_model_def Let_def case_prod_beta)
qed

end
