(* ===== verification/Tracking.thy ===== *)
theory Tracking
  imports Green_Frame Com_Calculator Control_Loop
begin

text \<open>
  The way of a frame to the motors: what one RGB frame makes of the set points when its mask is handed
  on to the centre of mass computation and its result is taken by the control thread. \<open>detected\<close> is the
  set of pixels that the frame shows; \<open>aims_at\<close> says how a set point must react to a coordinate.
\<close>


section \<open>What a frame shows\<close>

definition detected :: "nat \<Rightarrow> nat \<Rightarrow> (nat \<Rightarrow> u8) \<Rightarrow> (nat \<times> nat) set" where
  "detected H W data =
     {(y, x). y < H \<and> x < W \<and> opened H W (green_at W data) y x
        \<and> \<not> (card (blobs H W (frame_mask H W data)) + 1 < MAX_LABELS
             \<and> int (card (blob H W (frame_mask H W data) (x, y))) < MIN_BLOB)}"

lemma process_frame_detected:
  obtains s' where "process_frame H W data s = Some s'" "green_pixels H W (green_mask s') = detected H W data"
proof -
  obtain s' where s': "process_frame H W data s = Some s'"
    "\<forall>y x. y < H \<and> x < W \<longrightarrow> green_mask s' y x =
          (if card (blobs H W (frame_mask H W data)) + 1 < MAX_LABELS
              \<and> int (card (blob H W (frame_mask H W data) (x, y))) < MIN_BLOB
           then 0 else frame_mask H W data y x)"
    using process_frame_result by blast
  have f: "frame_mask H W data y x \<noteq> 0 \<longleftrightarrow> y < H \<and> x < W \<and> opened H W (green_at W data) y x" for y x
    by (simp add: frame_mask_def)
  have "green_mask s' y x \<noteq> 0 \<longleftrightarrow> opened H W (green_at W data) y x
      \<and> \<not> (card (blobs H W (frame_mask H W data)) + 1 < MAX_LABELS
           \<and> int (card (blob H W (frame_mask H W data) (x, y))) < MIN_BLOB)" if "y < H" "x < W" for y x
    using that s'(2) [rule_format, of y x] f [of y x] by (simp split: if_splits)
  then have "green_pixels H W (green_mask s') = detected H W data"
    unfolding green_pixels_def detected_def by auto
  with s'(1) show thesis by (rule that)
qed

lemma detected_interior: "(y, x) \<in> detected H W data \<Longrightarrow> 1 \<le> y \<and> 1 \<le> x"
  by (simp add: detected_def opened_def interior_def)

lemma centroid_ge_1:
  assumes "finite G" "G \<noteq> {}" "\<And>y x. (y, x) \<in> G \<Longrightarrow> 1 \<le> y \<and> 1 \<le> x"
  shows "1 \<le> fst (centroid G)" "1 \<le> snd (centroid G)"
proof -
  have "card G * 1 \<le> (\<Sum>p \<in> G. snd p)" "card G * 1 \<le> (\<Sum>p \<in> G. fst p)"
    using assms(3) sum_bounded_below [of G 1 snd] sum_bounded_below [of G 1 fst] by force+
  then have "rat_of_nat (card G) \<le> of_nat (\<Sum>p \<in> G. snd p)" "rat_of_nat (card G) \<le> of_nat (\<Sum>p \<in> G. fst p)"
    by (simp_all only: of_nat_le_iff mult_1_right)
  moreover have "0 < rat_of_nat (card G)" using assms(1,2) by (simp add: card_gt_0_iff)
  ultimately show "1 \<le> fst (centroid G)" "1 \<le> snd (centroid G)"
    by (simp_all add: centroid_def le_divide_eq_1_pos del: of_nat_sum)
qed

section \<open>Aiming at a position\<close>

lemma halves: "half_width = 320" "half_height = 240"
  using double.nat_exact [of 320] double.nat_exact [of 240]
  by (simp_all add: half_width_def half_height_def WIDTH_def HEIGHT_def)

lemma pixel_err_bounds:
  "50 \<le> half - v \<Longrightarrow> 50 \<le> pixel_err half v" "half - v \<le> - 50 \<Longrightarrow> pixel_err half v \<le> - 50"
  "\<bar>half - v\<bar> \<le> 99 / 2 \<Longrightarrow> \<bar>pixel_err half v\<bar> < 50"
proof -
  have r0: "is_f32 (of_int 99 / 2 ^ 1)" unfolding is_f32_def by (intro representable_div_pow2) auto
  have r: "is_f32 50" "is_f32 (- 50)" "is_f32 (99 / 2)"
    using single.ints [of 50] single.ints [of "- 50"] r0 by simp_all
  note d = r [THEN is_f32_is_f64]
  show "50 \<le> pixel_err half v" if "50 \<le> half - v"
    unfolding pixel_err_def by (intro single.lower double.lower r d that)
  show "pixel_err half v \<le> - 50" if "half - v \<le> - 50"
    unfolding pixel_err_def by (intro single.upper double.upper r d that)
  have "\<bar>pixel_err half v\<bar> \<le> 99 / 2" if "\<bar>half - v\<bar> \<le> 99 / 2"
    unfolding pixel_err_def by (intro single.abs_upper double.abs_upper r d that)
  then show "\<bar>half - v\<bar> \<le> 99 / 2 \<Longrightarrow> \<bar>pixel_err half v\<bar> < 50" by fastforce
qed

lemma aim_axis:
  fixes half v :: rat
  assumes "is_f64 pos" "0 \<le> k" "lo \<le> pos" "pos \<le> hi" "lo \<le> sp" "sp \<le> hi"
  defines "sp' \<equiv> clip lo hi pos (retarget (pixel_err half v) k pos sp)"
  shows "\<bar>half - v\<bar> \<le> 99 / 2 \<Longrightarrow> sp' = sp" "50 \<le> half - v \<Longrightarrow> pos \<le> sp'" "half - v \<le> - 50 \<Longrightarrow> sp' \<le> pos"
    and "lo \<le> sp'" "sp' \<le> hi"
proof -
  have c: "clip lo hi pos sp = sp" using assms(5,6) by (auto simp: clip_def)
  show "sp' = sp" if "\<bar>half - v\<bar> \<le> 99 / 2"
    unfolding sp'_def retarget_dead_zone [OF pixel_err_bounds(3) [OF that]] by (rule c)
  show "pos \<le> sp'" if "50 \<le> half - v"
    using retarget_direction(1) [OF assms(1,2) pixel_err_bounds(1) [OF that], of sp] by (simp add: sp'_def clip_def)
  show "sp' \<le> pos" if "half - v \<le> - 50"
    using retarget_direction(2) [OF assms(1,2) pixel_err_bounds(2) [OF that], of sp] by (simp add: sp'_def clip_def)
  have "lo \<le> hi" using assms(3,4) by simp
  then show "lo \<le> sp'" "sp' \<le> hi" using clip_range assms(3,4) by (auto simp: sp'_def)
qed

lemma rad_per_pixel: "0 \<le> YAW_RAD_PER_PIXEL" "0 \<le> PITCH_RAD_PER_PIXEL"
  by (simp_all add: YAW_RAD_PER_PIXEL_def PITCH_RAD_PER_PIXEL_def single.nonneg)

definition aim_ready :: "'d ctrl \<Rightarrow> bool" where
  "aim_ready c \<longleftrightarrow>
     is_f64 (yaw_position c) \<and> YAW_MIN_RAD \<le> yaw_position c \<and> yaw_position c \<le> YAW_MAX_RAD
     \<and> is_f64 (pitch_position c) \<and> PITCH_MIN_RAD \<le> pitch_position c \<and> pitch_position c \<le> PITCH_MAX_RAD
     \<and> YAW_MIN_RAD \<le> yaw_set_point c \<and> yaw_set_point c \<le> YAW_MAX_RAD
     \<and> PITCH_MIN_RAD \<le> pitch_set_point c \<and> pitch_set_point c \<le> PITCH_MAX_RAD"

definition aims_at :: "rat \<Rightarrow> rat \<Rightarrow> rat \<Rightarrow> rat \<Rightarrow> rat \<Rightarrow> bool" where
  "aims_at half pixel pos sp sp' \<longleftrightarrow>
     (if half - pixel \<ge> 51 then pos \<le> sp' else if half - pixel \<le> - 51 then sp' \<le> pos
      else if \<bar>half - pixel\<bar> \<le> 49 then sp' = sp else True)"

lemma aims_atI:
  assumes "is_f64 pos" "0 \<le> k" "lo \<le> pos" "pos \<le> hi" "lo \<le> sp" "sp \<le> hi" "\<bar>v - pixel\<bar> \<le> 1 / 2 ^ 13"
  shows "aims_at half pixel pos sp (clip lo hi pos (retarget (pixel_err half v) k pos sp))"
proof -
  note a = aim_axis [OF assms(1-6), of half v]
  have e: "\<bar>v - pixel\<bar> \<le> 1 / 2" using assms(7) by simp
  consider "half - pixel \<ge> 51" | "half - pixel \<le> - 51" | "\<bar>half - pixel\<bar> \<le> 49"
    | "half - pixel < 51" "half - pixel > - 51" "\<not> \<bar>half - pixel\<bar> \<le> 49" by linarith
  then show ?thesis
  proof cases
    case 1
    then have "50 \<le> half - v" using e by linarith
    then show ?thesis using a(2) 1 by (simp add: aims_at_def)
  next
    case 2
    then have "half - v \<le> - 50" using e by linarith
    then show ?thesis using a(3) 2 by (simp add: aims_at_def)
  next
    case 3
    then have "\<bar>half - v\<bar> \<le> 99 / 2" using e by linarith
    then show ?thesis using a(1) 3 by (auto simp: aims_at_def)
  qed (simp add: aims_at_def)
qed

section \<open>From a published centre of mass to the set points\<close>

lemma aim_published:
  fixes v :: COM
  assumes "spsc_wf (com_queue c)" "spsc_contents (com_queue c) = []"
  defines "c' \<equiv> ctrl_aim (c\<lparr>com_queue := com_publish (com_queue c) v\<rparr>)"
  shows "spsc_contents (com_queue c') = []" "com_val c' = v"
    and "com_x v > 0 \<Longrightarrow> com_y v > 0 \<Longrightarrow>
       yaw_set_point c' = clip YAW_MIN_RAD YAW_MAX_RAD (yaw_position c)
         (retarget (pixel_err half_width (com_x v)) YAW_RAD_PER_PIXEL (yaw_position c) (yaw_set_point c))
       \<and> pitch_set_point c' = clip PITCH_MIN_RAD PITCH_MAX_RAD (pitch_position c)
         (retarget (pixel_err half_height (com_y v)) PITCH_RAD_PER_PIXEL (pitch_position c) (pitch_set_point c))"
    and "com_x v \<le> 0 \<Longrightarrow> yaw_set_point c' = yaw_set_point c \<and> pitch_set_point c' = pitch_set_point c"
proof -
  have p: "spsc_wf (com_publish (com_queue c) v)" "spsc_contents (com_publish (com_queue c) v) = [v]"
    using com_publish_contents [OF assms(1), of v] assms(2) by simp_all
  obtain q where q: "spsc_dequeue (com_publish (com_queue c) v) (com_val c) = (q, v, True)" "spsc_contents q = []"
    using spsc_dequeue_ok [OF p] by metis
  show "spsc_contents (com_queue c') = []" "com_val c' = v"
    and "com_x v > 0 \<Longrightarrow> com_y v > 0 \<Longrightarrow>
       yaw_set_point c' = clip YAW_MIN_RAD YAW_MAX_RAD (yaw_position c)
         (retarget (pixel_err half_width (com_x v)) YAW_RAD_PER_PIXEL (yaw_position c) (yaw_set_point c))
       \<and> pitch_set_point c' = clip PITCH_MIN_RAD PITCH_MAX_RAD (pitch_position c)
         (retarget (pixel_err half_height (com_y v)) PITCH_RAD_PER_PIXEL (pitch_position c) (pitch_set_point c))"
    and "com_x v \<le> 0 \<Longrightarrow> yaw_set_point c' = yaw_set_point c \<and> pitch_set_point c' = pitch_set_point c"
    using q by (auto simp: c'_def ctrl_aim_def Let_def)
qed

lemma track_frame:
  fixes data :: "nat \<Rightarrow> u8"
  assumes "H \<le> 480" "W \<le> 640" "aim_ready c" "spsc_wf (com_queue c)" "spsc_contents (com_queue c) = []"
  defines "G \<equiv> detected H W data"
  obtains s' c' where "process_frame H W data s = Some s'"
    and "c' = ctrl_aim (c\<lparr>com_queue := com_publish (com_queue c) (calculate_com H W (green_mask s'))\<rparr>)"
    and "spsc_contents (com_queue c') = []"
    and "if 1000 \<le> card G
         then aims_at 320 (fst (centroid G)) (yaw_position c) (yaw_set_point c) (yaw_set_point c')
            \<and> aims_at 240 (snd (centroid G)) (pitch_position c) (pitch_set_point c) (pitch_set_point c')
         else yaw_set_point c' = yaw_set_point c \<and> pitch_set_point c' = pitch_set_point c"
proof -
  obtain s' where s': "process_frame H W data s = Some s'" "green_pixels H W (green_mask s') = G"
    using process_frame_detected unfolding G_def by metis
  let ?v = "calculate_com H W (green_mask s')"
  define c' where "c' = ctrl_aim (c\<lparr>com_queue := com_publish (com_queue c) ?v\<rparr>)"
  note a = aim_published [OF assms(4,5), of ?v, folded c'_def]
  note r = assms(3) [unfolded aim_ready_def]
  have "if 1000 \<le> card G
         then aims_at 320 (fst (centroid G)) (yaw_position c) (yaw_set_point c) (yaw_set_point c')
            \<and> aims_at 240 (snd (centroid G)) (pitch_position c) (pitch_set_point c) (pitch_set_point c')
         else yaw_set_point c' = yaw_set_point c \<and> pitch_set_point c' = pitch_set_point c"
  proof (cases "1000 \<le> card G")
    case True
    have v: "\<bar>com_x ?v - fst (centroid G)\<bar> \<le> 1 / 2 ^ 13" "\<bar>com_y ?v - snd (centroid G)\<bar> \<le> 1 / 2 ^ 13"
      using calculate_com_close [OF assms(1,2), of "green_mask s'"] True unfolding s'(2) by simp_all
    have "G \<noteq> {}" "finite G" using True by (auto intro: card_ge_0_finite)
    then have g: "1 \<le> fst (centroid G)" "1 \<le> snd (centroid G)"
      using centroid_ge_1 [of G] detected_interior unfolding G_def by blast+
    have "\<bar>com_x ?v - fst (centroid G)\<bar> \<le> 1 / 2" "\<bar>com_y ?v - snd (centroid G)\<bar> \<le> 1 / 2" using v by simp_all
    then have "com_x ?v > 0" "com_y ?v > 0" using g by linarith+
    then show ?thesis
      using True a(3) r v aims_atI [where half = 320] aims_atI [where half = 240] rad_per_pixel
      by (simp add: halves)
  next
    case False
    then have "com_x ?v = - 1" using calculate_com_value [OF assms(1,2), of "green_mask s'"] by (simp add: s'(2))
    then show ?thesis using a(4) False by simp
  qed
  with s'(1) a(1) show thesis by (intro that [OF _ c'_def])
qed

lemma aim_ready_aim: "aim_ready c \<Longrightarrow> aim_ready (ctrl_aim (c\<lparr>com_queue := q\<rparr>))"
  using clip_range [OF rad_limits(2)] clip_range [OF rad_limits(4)]
  by (auto simp: aim_ready_def ctrl_aim_def Let_def split: prod.splits)



end
