(* ===== verification/Lens.thy ===== *)
theory Lens
  imports Tracking
begin

text \<open>
  The geometry of the camera: the field of view that \<open>start_thread_func\<close> computes and prints
  (main.c:72-85), \<open>compute_hv_fov\<close> (hw_interface.c:190-198), and what the gains YAW\_RAD\_PER\_PIXEL and
  PITCH\_RAD\_PER\_PIXEL mean for the lens these constants describe. The library functions \<open>atan\<close>, \<open>tan\<close> and
  \<open>sqrt\<close> are the real functions and the arithmetic on their results is exact; the aiming itself has all its
  roundings.
\<close>


section \<open>The field of view\<close>

definition focal :: real where "focal = 4"
definition sensor_width :: real where "sensor_width = 358 / 100"
definition sensor_height :: real where "sensor_height = 202 / 100"

record field_of_view =
  hfov_rad :: real
  vfov_rad :: real
  hfov_deg :: real
  vfov_deg :: real
  dfov_rad :: real
  dfov_deg :: real
  hscale :: real
  vscale :: real

definition thread_fov :: field_of_view where
  "thread_fov =
     (let hfov = 2 * arctan ((sensor_width / 2) / focal);
          vfov = 2 * arctan ((sensor_height / 2) / focal);
          D = sqrt (sensor_width * sensor_width + sensor_height * sensor_height);
          dfov = 2 * arctan ((D / 2) / focal)
      in \<lparr>hfov_rad = hfov, vfov_rad = vfov, hfov_deg = hfov * (180 / pi), vfov_deg = vfov * (180 / pi),
          dfov_rad = dfov, dfov_deg = dfov * (180 / pi), hscale = hfov / real WIDTH, vscale = vfov / real HEIGHT\<rparr>)"

definition compute_hv_fov :: "real \<Rightarrow> real \<times> real" where
  "compute_hv_fov diagonal_deg =
     (let dfov = diagonal_deg * pi / 180;
          D = sqrt (real (WIDTH * WIDTH + HEIGHT * HEIGHT));
          f = (D / 2) / tan (dfov / 2)
      in (2 * arctan ((real WIDTH / 2) / f), 2 * arctan ((real HEIGHT / 2) / f)))"

lemma compute_hv_fov_pinhole:
  assumes "0 < d" "d < 180"
  shows "case compute_hv_fov d of (h, v) \<Rightarrow>
     (tan (h / 2))\<^sup>2 + (tan (v / 2))\<^sup>2 = (tan (d * pi / 180 / 2))\<^sup>2 \<and> 0 < v \<and> v < h \<and> h < d * pi / 180"
proof -
  define t where "t = tan (d * pi / 180 / 2)"
  have a: "0 < d * pi / 180 / 2" "d * pi / 180 / 2 < pi / 2" using assms by (simp_all add: field_simps)
  then have t: "0 < t" unfolding t_def by (rule tan_gt_zero)
  have "- (pi / 2) < d * pi / 180 / 2" using a pi_gt_zero by linarith
  then have at: "arctan t = d * pi / 180 / 2" unfolding t_def using a(2) by (rule arctan_tan)
  have D: "sqrt (real (WIDTH * WIDTH + HEIGHT * HEIGHT)) = 800"
    by (simp add: WIDTH_def HEIGHT_def real_sqrt_unique)
  have c: "compute_hv_fov d = (2 * arctan (4 / 5 * t), 2 * arctan (3 / 5 * t))"
    by (simp add: compute_hv_fov_def Let_def D t_def WIDTH_def HEIGHT_def)
  have "arctan (4 / 5 * t) < arctan t" "arctan (3 / 5 * t) < arctan (4 / 5 * t)"
    using t by (simp_all add: arctan_less_iff)
  then show ?thesis unfolding c t_def [symmetric] using t at
    by (simp add: tan_arctan power_mult_distrib power_divide)
qed

section \<open>The direction of a pixel\<close>

lemma arctan_cubic: "0 \<le> x \<Longrightarrow> x - x ^ 3 / 3 \<le> arctan x"
proof -
  assume x: "0 \<le> x"
  let ?f = "\<lambda>x. arctan x - x + x ^ 3 / 3"
  have "?f 0 \<le> ?f x"
  proof (rule DERIV_nonneg_imp_nondecreasing [OF x])
    fix y :: real
    have d: "DERIV ?f y :> inverse (1 + y\<^sup>2) - 1 + y\<^sup>2"
      by (auto intro!: derivative_eq_intros)
    have "0 < 1 + y\<^sup>2" by (simp add: add_pos_nonneg)
    then have "inverse (1 + y\<^sup>2) - 1 + y\<^sup>2 = y ^ 4 / (1 + y\<^sup>2)"
      by (simp add: field_simps power4_eq_xxxx power2_eq_square)
    then have "0 \<le> inverse (1 + y\<^sup>2) - 1 + y\<^sup>2" by simp
    with d show "\<exists>z. DERIV ?f y :> z \<and> 0 \<le> z" by blast
  qed
  then show ?thesis by simp
qed

definition pixel_angle :: "real \<Rightarrow> nat \<Rightarrow> real \<Rightarrow> real" where
  "pixel_angle sensor pixels e = arctan (e * (sensor / real pixels) / focal)"


lemma f64_error: "\<bar>x\<bar> < 512 \<Longrightarrow> \<bar>f64 x - x\<bar> \<le> 1 / 2 ^ 40"
  using fround_error [of x 9 53 "- 1074"] by (simp add: f64_def power_int_def power_divide)

lemma pixel_err_error:
  assumes "\<bar>half - v\<bar> \<le> 320" "51 \<le> \<bar>half - v\<bar>"
  shows "\<bar>pixel_err half v - (half - v)\<bar> \<le> 1 / 10000"
proof -
  let ?y = "f64 (half - v)"
  have y: "\<bar>?y - (half - v)\<bar> \<le> 1 / 2 ^ 40" using assms(1) by (intro f64_error) simp
  then have b: "50 \<le> \<bar>?y\<bar>" "\<bar>?y\<bar> \<le> 321" using assms by (simp_all add: abs_if split: if_splits)
  then have "\<bar>f32 ?y - ?y\<bar> \<le> \<bar>?y\<bar> / 2 ^ 24" by (intro f32_relative_error) simp
  also have "\<dots> \<le> 321 / 2 ^ 24" using b(2) by (intro divide_right_mono) simp_all
  finally have z: "\<bar>f32 ?y - ?y\<bar> \<le> 321 / 2 ^ 24" .
  have "\<bar>f32 ?y - (half - v)\<bar> \<le> 321 / 2 ^ 24 + 1 / 2 ^ 40" using y z by linarith
  then show ?thesis unfolding pixel_err_def by simp
qed

lemma gain_bounds:
  "999 / 1000000 \<le> YAW_RAD_PER_PIXEL" "YAW_RAD_PER_PIXEL \<le> 1001 / 1000000"
  "999 / 1000000 \<le> PITCH_RAD_PER_PIXEL" "PITCH_RAD_PER_PIXEL \<le> 1001 / 1000000"
proof -
  have "\<bar>f32 (1 / 1000) - 1 / 1000\<bar> \<le> 1 / 16777216" using f32_error [of "1 / 1000"] by simp
  then have "999 / 1000000 \<le> f32 (1 / 1000)" "f32 (1 / 1000) \<le> 1001 / 1000000" by linarith+
  then show "999 / 1000000 \<le> YAW_RAD_PER_PIXEL" "YAW_RAD_PER_PIXEL \<le> 1001 / 1000000"
    "999 / 1000000 \<le> PITCH_RAD_PER_PIXEL" "PITCH_RAD_PER_PIXEL \<le> 1001 / 1000000"
    unfolding YAW_RAD_PER_PIXEL_def PITCH_RAD_PER_PIXEL_def by blast+
qed

lemma retarget_shift:
  assumes "\<bar>half - v\<bar> \<le> 320" "51 \<le> \<bar>half - v\<bar>" "999 / 1000000 \<le> k" "k \<le> 1001 / 1000000" "\<bar>pos\<bar> \<le> 4"
  shows "\<bar>retarget (pixel_err half v) k pos sp - pos - (half - v) * k\<bar> \<le> 1 / 1000000"
proof -
  define d where "d = half - v"
  define e where "e = pixel_err half v"
  have e: "\<bar>e - d\<bar> \<le> 1 / 10000" unfolding e_def d_def by (rule pixel_err_error [OF assms(1,2)])
  have d: "\<bar>d\<bar> \<le> 320" "51 \<le> \<bar>d\<bar>" using assms(1,2) by (simp_all add: d_def)
  have k: "0 \<le> k" "\<bar>k\<bar> \<le> 1001 / 1000000" using assms(3,4) by simp_all
  have big: "50 \<le> \<bar>e\<bar>" using e d by linarith
  have "\<bar>(e - d) * k\<bar> \<le> 1 / 10000 * (1001 / 1000000)"
    unfolding abs_mult using e k by (intro mult_mono) simp_all
  then have ed: "\<bar>e * k - d * k\<bar> \<le> 1 / 5000000" by (simp add: left_diff_distrib)
  have "\<bar>d * k\<bar> \<le> 320 * (1001 / 1000000)" unfolding abs_mult using d k by (intro mult_mono) simp_all
  then have ek: "\<bar>e * k\<bar> \<le> 1 / 2" using ed by linarith
  then have f: "\<bar>f32 (e * k) - e * k\<bar> \<le> 1 / 2 ^ 24" by (intro f32_error) simp
  then have "\<bar>f32 (e * k) - e * k\<bar> \<le> 1" by (rule order_trans) simp
  then have "\<bar>pos + f32 (e * k)\<bar> < 512" using ek assms(5) by linarith
  then have g: "\<bar>f64 (pos + f32 (e * k)) - (pos + f32 (e * k))\<bar> \<le> 1 / 2 ^ 40" by (rule f64_error)
  have "e \<le> - 50 \<or> 50 \<le> e" using big by linarith
  then have "retarget e k pos sp = f64 (pos + f32 (e * k))" by (auto simp: retarget_def)
  moreover have "\<bar>f64 (pos + f32 (e * k)) - pos - d * k\<bar> \<le> 1 / 2 ^ 40 + 1 / 2 ^ 24 + 1 / 5000000"
    using f g ed by linarith
  ultimately show ?thesis unfolding e_def [symmetric] d_def [symmetric] by simp
qed

lemma pixel_angle_above:
  assumes "51 \<le> d" "d \<le> half" "half = real n / 2" "0 < s" "s \<le> 4"
    and "1002 / 1000000 \<le> s / (4 * real n) * (1 - (s / 8)\<^sup>2 / 3)"
  shows "d * (1002 / 1000000) \<le> pixel_angle s n d"
proof -
  define x where "x = d * (s / real n) / focal"
  have n: "0 < real n" using assms(1-3) by simp
  have x0: "0 \<le> x" unfolding x_def focal_def using assms n by simp
  have "d / real n \<le> 1 / 2" using assms(2,3) n by (simp add: field_simps)
  then have "d / real n * s \<le> 1 / 2 * s" using assms(4) by (intro mult_right_mono) simp_all
  then have x8: "x \<le> s / 8" by (simp add: x_def focal_def mult.commute mult.left_commute)
  then have x2: "x\<^sup>2 \<le> (s / 8)\<^sup>2" using x0 by (intro power_mono)
  have "d * (1002 / 1000000) \<le> d * (s / (4 * real n) * (1 - (s / 8)\<^sup>2 / 3))"
    using assms(1,6) by (intro mult_left_mono) simp_all
  also have "\<dots> = x * (1 - (s / 8)\<^sup>2 / 3)" by (simp add: x_def focal_def mult.commute mult.left_commute)
  also have "\<dots> \<le> x * (1 - x\<^sup>2 / 3)" using x0 x2 by (intro mult_left_mono) simp_all
  also have "\<dots> = x - x ^ 3 / 3" by (simp add: algebra_simps power3_eq_cube power2_eq_square)
  also have "\<dots> \<le> arctan x" by (rule arctan_cubic [OF x0])
  finally show ?thesis by (simp add: pixel_angle_def x_def)
qed

lemma lens_axis:
  "1002 / 1000000 \<le> sensor_width / (4 * real 640) * (1 - (sensor_width / 8)\<^sup>2 / 3)"
  "1002 / 1000000 \<le> sensor_height / (4 * real 480) * (1 - (sensor_height / 8)\<^sup>2 / 3)"
  by (simp_all add: sensor_width_def sensor_height_def power2_eq_square)

definition undershoots :: "real \<Rightarrow> nat \<Rightarrow> rat \<Rightarrow> rat \<Rightarrow> rat \<Rightarrow> bool" where
  "undershoots sensor pixels offset pos sp \<longleftrightarrow>
     (if 0 \<le> offset then pos < sp \<and> real_of_rat (sp - pos) < pixel_angle sensor pixels (real_of_rat offset)
      else sp < pos \<and> real_of_rat (pos - sp) < pixel_angle sensor pixels (real_of_rat (- offset)))"

lemma undershoots_axis:
  assumes "\<bar>half - v\<bar> \<le> half" "51 \<le> \<bar>half - v\<bar>" "999 / 1000000 \<le> k" "k \<le> 1001 / 1000000" "\<bar>pos\<bar> \<le> 4"
    and "half \<le> 320" "real_of_rat half = real n / 2" "0 < s" "s \<le> 4"
    and "1002 / 1000000 \<le> s / (4 * real n) * (1 - (s / 8)\<^sup>2 / 3)"
  shows "undershoots s n (half - v) pos (retarget (pixel_err half v) k pos sp)"
proof -
  define d where "d = half - v"
  define t where "t = retarget (pixel_err half v) k pos sp - pos"
  have t: "\<bar>t - d * k\<bar> \<le> 1 / 1000000"
    unfolding t_def d_def using assms(1-6) by (intro retarget_shift) simp_all
  have d: "51 \<le> \<bar>d\<bar>" "\<bar>d\<bar> \<le> half" using assms(1,2) by (simp_all add: d_def)
  have "\<bar>d\<bar> * k \<le> \<bar>d\<bar> * (1001 / 1000000)" "51 * (999 / 1000000) \<le> \<bar>d\<bar> * k"
    using d(1) assms(3,4) by (intro mult_left_mono mult_mono; simp)+
  moreover have "d * k = \<bar>d\<bar> * k \<and> 0 \<le> d \<or> d * k = - (\<bar>d\<bar> * k) \<and> d < 0" by auto
  ultimately have b: "0 \<le> d \<and> 0 < t \<or> d < 0 \<and> t < 0" "\<bar>t\<bar> < \<bar>d\<bar> * (1002 / 1000000)"
    using t d(1) by linarith+
  have "real_of_rat \<bar>d\<bar> \<le> real_of_rat half" "real_of_rat 51 \<le> real_of_rat \<bar>d\<bar>"
    using d by (simp_all only: of_rat_less_eq)
  then have a: "real_of_rat \<bar>d\<bar> * (1002 / 1000000) \<le> pixel_angle s n (real_of_rat \<bar>d\<bar>)"
    using assms(7-10) by (intro pixel_angle_above [of _ "real_of_rat half"]) simp_all
  have "real_of_rat \<bar>t\<bar> < real_of_rat (\<bar>d\<bar> * (1002 / 1000000))" using b(2) by (simp only: of_rat_less)
  also have "\<dots> = real_of_rat \<bar>d\<bar> * (1002 / 1000000)" by (simp add: of_rat_mult of_rat_divide)
  finally have "real_of_rat \<bar>t\<bar> < pixel_angle s n (real_of_rat \<bar>d\<bar>)" using a by linarith
  then show ?thesis using b(1) unfolding undershoots_def d_def [symmetric]
    by (cases "0 \<le> d") (auto simp: t_def)
qed

section \<open>Properties\<close>

text \<open>
  C18: aiming never overshoots: for a centre of mass inside the frame and 51 pixels or more off the centre, the
  new set point of each axis is either the measured position (when the limits clip it) or lies strictly
  between the measured position and the true direction of the object, as the lens and sensor of the code give
  it.
\<close>

theorem aim_never_overshoots:
  assumes "spsc_dequeue (com_queue c) (com_val c) = (q, v, True)"
    and "0 < com_x v" "com_x v \<le> 640" "0 < com_y v" "com_y v \<le> 480"
    and "\<bar>yaw_position c\<bar> \<le> 4" "\<bar>pitch_position c\<bar> \<le> 4"
  shows "(51 \<le> \<bar>320 - com_x v\<bar> \<longrightarrow> yaw_set_point (ctrl_aim c) = yaw_position c
       \<or> undershoots sensor_width WIDTH (320 - com_x v) (yaw_position c) (yaw_set_point (ctrl_aim c)))
     \<and> (51 \<le> \<bar>240 - com_y v\<bar> \<longrightarrow> pitch_set_point (ctrl_aim c) = pitch_position c
       \<or> undershoots sensor_height HEIGHT (240 - com_y v) (pitch_position c) (pitch_set_point (ctrl_aim c)))"
proof -
  have s: "0 < sensor_width" "sensor_width \<le> 4" "0 < sensor_height" "sensor_height \<le> 4"
    by (simp_all add: sensor_width_def sensor_height_def)
  have "undershoots sensor_width 640 (320 - com_x v) (yaw_position c)
      (retarget (pixel_err 320 (com_x v)) YAW_RAD_PER_PIXEL (yaw_position c) sp)"
    if "51 \<le> \<bar>320 - com_x v\<bar>" for sp
    using that assms(2,3,6) gain_bounds s lens_axis(1) by (intro undershoots_axis) simp_all
  moreover have "undershoots sensor_height 480 (240 - com_y v) (pitch_position c)
      (retarget (pixel_err 240 (com_y v)) PITCH_RAD_PER_PIXEL (pitch_position c) sp)"
    if "51 \<le> \<bar>240 - com_y v\<bar>" for sp
    using that assms(4,5,7) gain_bounds s lens_axis(2) by (intro undershoots_axis) simp_all
  ultimately show ?thesis using assms(1,2,4)
    by (simp add: ctrl_aim_def halves WIDTH_def HEIGHT_def clip_def Let_def)
qed

theorem aim_never_overshoots_witness:
  "\<exists>c :: unit ctrl. yaw_set_point (ctrl_aim c) = yaw_position c
     \<or> undershoots sensor_width WIDTH 220 (yaw_position c) (yaw_set_point (ctrl_aim c))"
proof -
  let ?v = "\<lparr>com_x = 100, com_y = 300\<rparr>"
  let ?c = "undefined\<lparr>com_queue := fst (spsc_enqueue (spsc_init \<lparr>buffer = replicate 256 \<lparr>com_x = 0, com_y = 0\<rparr>,
       head = 0, tail = 0\<rparr>) ?v), com_val := ?v, yaw_position := 1, pitch_position := 1\<rparr> :: unit ctrl"
  have "spsc_dequeue (com_queue ?c) (com_val ?c) = (fst (spsc_dequeue (com_queue ?c) ?v), ?v, True)"
    by (simp add: spsc_enqueue_def spsc_dequeue_def spsc_init_def spsc_next_def COM_QUEUE_SIZE_def Let_def)
  from aim_never_overshoots [OF this] show ?thesis by (intro exI [of _ ?c]) simp
qed

end
