(* ===== verification/App_Fsm.thy ===== *)
theory App_Fsm
  imports Control_Loop
begin

text \<open>
  \<open>app/src/main.c\<close>: the command loop of the main thread (256-352) with its state machine
  (22-29, 304-343), the control thread's outer loop around \<open>start_thread_func\<close> (119-236) and their
  interleaving. A step of the main thread is one command or one handler, a step of the control thread
  is one arrow of its loop: waking, entering a session, the two tests of \<open>start_thread_active\<close>, one
  iteration. Other threads may replace the queue of centres of mass at any time (\<open>camera\<close>). The end of
  the input (\<open>eof\<close>) and the cancellation of the control thread at the end of \<open>main\<close> are steps of
  their own. The locale \<open>motor_device\<close> extends the contract of the link by the reset.
\<close>


datatype state = STATE_READY | STATE_INIT | STATE_HOME | STATE_START | STATE_END

fun state_rank :: "state \<Rightarrow> nat" where
  "state_rank STATE_READY = 0"
| "state_rank STATE_INIT = 1"
| "state_rank STATE_HOME = 2"
| "state_rank STATE_START = 3"
| "state_rank STATE_END = 4"

lemma state_rank_inj: "state_rank a = state_rank b \<Longrightarrow> a = b"
  by (cases a; cases b) auto

instantiation state :: linorder
begin

definition less_eq_state :: "state \<Rightarrow> state \<Rightarrow> bool" where
  "less_eq_state a b \<longleftrightarrow> state_rank a \<le> state_rank b"

definition less_state :: "state \<Rightarrow> state \<Rightarrow> bool" where
  "less_state a b \<longleftrightarrow> state_rank a < state_rank b"

instance
  by standard (auto simp: less_eq_state_def less_state_def intro: state_rank_inj)

end

datatype main_pc = M_Prompt | M_Handle | M_Done | M_Eof

datatype ctl_pc = T_Wait | T_Enter | T_Test | T_Body | T_Check | T_Done

record 'd app =
  current_state :: state
  start_thread_active :: bool
  main_pc :: main_pc
  ctl_pc :: ctl_pc
  ctrl :: "'d ctrl"
  handled :: "state list"

section \<open>The main thread\<close>

definition next_state :: "string \<Rightarrow> state \<Rightarrow> state option" where
  "next_state input st =
     (if input = ''init'' \<and> st = STATE_READY then Some STATE_INIT
      else if input = ''home'' \<and> st = STATE_INIT then Some STATE_HOME
      else if input = ''start'' \<and> st = STATE_HOME then Some STATE_START
      else if input = ''end'' \<and> (st = STATE_HOME \<or> st = STATE_START) then Some STATE_END
      else None)"

definition stop_start_thread :: "'d app \<Rightarrow> 'd app" where
  [simp]: "stop_start_thread s = s\<lparr>start_thread_active := False\<rparr>"

definition main_command :: "string \<Rightarrow> 'd app \<Rightarrow> 'd app" where
  "main_command input s =
     (case next_state input (current_state s) of
        None \<Rightarrow> s\<lparr>main_pc := M_Handle\<rparr>
      | Some st \<Rightarrow>
          (if st = STATE_END then stop_start_thread s else s)\<lparr>current_state := st, main_pc := M_Handle\<rparr>)"

definition app_rig :: "('d rig \<Rightarrow> 'd rig) \<Rightarrow> 'd app \<Rightarrow> 'd app" where
  "app_rig f s = s\<lparr>ctrl := (ctrl s)\<lparr>rig := f (rig (ctrl s))\<rparr>\<rparr>"

definition state_init :: "('d \<Rightarrow> 'd) \<Rightarrow> 'd transfer \<Rightarrow> 'd app \<Rightarrow> 'd app" where
  "state_init reset xfer s = app_rig (init_fpga reset xfer) s"

definition state_home :: "'d transfer \<Rightarrow> 'd app \<Rightarrow> 'd app" where
  "state_home xfer s = app_rig (homing_sequence xfer) s"

definition state_start :: "'d app \<Rightarrow> 'd app" where
  "state_start s = s\<lparr>start_thread_active := True\<rparr>"

definition state_end :: "'d transfer \<Rightarrow> 'd app \<Rightarrow> 'd app" where
  "state_end xfer s = app_rig (transfer_to xfer 3 PWM_MID_POINT PWM_MID_POINT) s"

definition state_ready :: "'d app \<Rightarrow> 'd app" where
  [simp]: "state_ready s = s"

definition main_handle :: "('d \<Rightarrow> 'd) \<Rightarrow> 'd transfer \<Rightarrow> 'd app \<Rightarrow> 'd app" where
  "main_handle reset xfer s =
     (let s = s\<lparr>handled := handled s @ [current_state s]\<rparr>;
          s = (case current_state s of
                 STATE_READY \<Rightarrow> state_ready s
               | STATE_INIT \<Rightarrow> state_init reset xfer s
               | STATE_HOME \<Rightarrow> state_home xfer s
               | STATE_START \<Rightarrow> state_start s
               | STATE_END \<Rightarrow> state_end xfer s)
      in s\<lparr>main_pc := (if current_state s = STATE_END then M_Done else M_Prompt)\<rparr>)"

section \<open>The two threads\<close>

inductive app_step :: "('d \<Rightarrow> 'd) \<Rightarrow> 'd transfer \<Rightarrow> 'd app \<Rightarrow> 'd app \<Rightarrow> bool"
  for reset :: "'d \<Rightarrow> 'd" and xfer :: "'d transfer" where
  command: "main_pc s = M_Prompt \<Longrightarrow> app_step reset xfer s (main_command input s)"
| eof: "main_pc s = M_Prompt \<Longrightarrow> app_step reset xfer s (s\<lparr>main_pc := M_Eof\<rparr>)"
| cancel: "main_pc s = M_Done \<or> main_pc s = M_Eof \<Longrightarrow> ctl_pc s = T_Wait \<or> ctl_pc s = T_Enter \<or> ctl_pc s = T_Test \<Longrightarrow>
     app_step reset xfer s (s\<lparr>ctl_pc := T_Done\<rparr>)"
| handle: "main_pc s = M_Handle \<Longrightarrow> app_step reset xfer s (main_handle reset xfer s)"
| camera: "app_step reset xfer s (s\<lparr>ctrl := (ctrl s)\<lparr>com_queue := q\<rparr>\<rparr>)"
| wake: "ctl_pc s = T_Wait \<Longrightarrow> start_thread_active s \<Longrightarrow> app_step reset xfer s (s\<lparr>ctl_pc := T_Enter\<rparr>)"
| enter: "ctl_pc s = T_Enter \<Longrightarrow>
     app_step reset xfer s (s\<lparr>ctrl := ctrl_enter xfer (ctrl s), ctl_pc := T_Test\<rparr>)"
| test: "ctl_pc s = T_Test \<Longrightarrow>
     app_step reset xfer s (s\<lparr>ctl_pc := (if start_thread_active s then T_Body else T_Wait)\<rparr>)"
| body: "ctl_pc s = T_Body \<Longrightarrow> ctrl_step xfer (ctrl s) = Some c \<Longrightarrow>
     app_step reset xfer s (s\<lparr>ctrl := c, ctl_pc := T_Check\<rparr>)"
| check: "ctl_pc s = T_Check \<Longrightarrow>
     app_step reset xfer s
       (if start_thread_active s then s\<lparr>ctl_pc := T_Test\<rparr>
        else s\<lparr>ctrl := ctrl_leave (ctrl s), ctl_pc := T_Done\<rparr>)"

definition app_start :: "'d ctrl \<Rightarrow> 'd app" where
  "app_start c = \<lparr>current_state = STATE_READY, start_thread_active = False, main_pc = M_Prompt,
     ctl_pc = T_Wait, ctrl = ctrl_locals c, handled = []\<rparr>"

inductive app_reachable :: "('d \<Rightarrow> 'd) \<Rightarrow> 'd transfer \<Rightarrow> 'd ctrl \<Rightarrow> 'd app \<Rightarrow> bool"
  for reset :: "'d \<Rightarrow> 'd" and xfer :: "'d transfer" and c :: "'d ctrl" where
  app_init: "app_reachable reset xfer c (app_start c)"
| app_more: "app_reachable reset xfer c s \<Longrightarrow> app_step reset xfer s t \<Longrightarrow> app_reachable reset xfer c t"

inductive_cases app_stepE: "app_step reset xfer s t"

section \<open>The command protocol\<close>

definition in_session :: "ctl_pc \<Rightarrow> bool" where
  "in_session pc \<longleftrightarrow> pc \<noteq> T_Wait \<and> pc \<noteq> T_Done"

definition protocol_inv :: "'d app \<Rightarrow> bool" where
  "protocol_inv s \<longleftrightarrow>
     sorted (handled s) \<and> (\<forall>st \<in> set (handled s). st \<le> current_state s)
     \<and> (main_pc s \<noteq> M_Handle \<longrightarrow> handled s \<noteq> [] \<longrightarrow> List.last (handled s) = current_state s)
     \<and> (STATE_HOME \<in> set (handled s) \<longrightarrow> STATE_INIT \<in> set (handled s))
     \<and> (STATE_START \<in> set (handled s) \<or> STATE_END \<in> set (handled s) \<longrightarrow> STATE_HOME \<in> set (handled s))
     \<and> (STATE_HOME < current_state s \<longrightarrow> STATE_HOME \<in> set (handled s))
     \<and> (current_state s = STATE_HOME \<longrightarrow> STATE_INIT \<in> set (handled s))
     \<and> (main_pc s \<noteq> M_Handle \<longrightarrow> current_state s \<noteq> STATE_READY \<longrightarrow> current_state s \<in> set (handled s))
     \<and> (start_thread_active s \<longrightarrow> current_state s = STATE_START)
     \<and> (in_session (ctl_pc s) \<longrightarrow> STATE_START \<in> set (handled s))
     \<and> (start_thread_active s \<longrightarrow> STATE_START \<in> set (handled s))
     \<and> (main_pc s = M_Done \<longleftrightarrow> STATE_END \<in> set (handled s))
     \<and> (current_state s = STATE_END \<longrightarrow> main_pc s \<noteq> M_Prompt)"

lemmas state_order = less_eq_state_def less_state_def

lemma protocol_start: "protocol_inv (app_start c)"
  by (simp add: protocol_inv_def app_start_def state_order in_session_def)

lemma protocol_command: "protocol_inv s \<Longrightarrow> main_pc s = M_Prompt \<Longrightarrow> protocol_inv (main_command i s)"
  by (cases "current_state s")
    (auto simp: protocol_inv_def main_command_def next_state_def state_order split: if_splits)

lemma main_handle_simps [simp]:
  "current_state (main_handle reset xfer s) = current_state s"
  "handled (main_handle reset xfer s) = handled s @ [current_state s]"
  "main_pc (main_handle reset xfer s) = (if current_state s = STATE_END then M_Done else M_Prompt)"
  "ctl_pc (main_handle reset xfer s) = ctl_pc s"
  "start_thread_active (main_handle reset xfer s) = (current_state s = STATE_START \<or> start_thread_active s)"
  by (auto simp: main_handle_def Let_def state_init_def state_home_def state_start_def state_end_def
      app_rig_def split: state.split)

lemma protocol_handle: "protocol_inv s \<Longrightarrow> main_pc s = M_Handle \<Longrightarrow> protocol_inv (main_handle reset xfer s)"
  by (cases "current_state s") (auto simp: protocol_inv_def sorted_append state_order)

lemma protocol_ctl_pc:
  "protocol_inv s \<Longrightarrow> (in_session pc \<Longrightarrow> STATE_START \<in> set (handled s)) \<Longrightarrow> protocol_inv (s\<lparr>ctl_pc := pc\<rparr>)"
  unfolding protocol_inv_def by auto

lemma protocol_active: "protocol_inv s \<Longrightarrow> start_thread_active s \<Longrightarrow> STATE_START \<in> set (handled s)"
  unfolding protocol_inv_def by blast

lemma protocol_step: "app_step reset xfer s t \<Longrightarrow> protocol_inv s \<Longrightarrow> protocol_inv t"
proof (induction rule: app_step.induct)
  case (command s input)
  then show ?case by (intro protocol_command)
next
  case (handle s)
  then show ?case by (intro protocol_handle)
next
  case (wake s)
  from wake.prems show ?case by (rule protocol_ctl_pc) (simp add: wake.hyps protocol_active [OF wake.prems])
qed (auto simp: protocol_inv_def in_session_def)

lemma protocol_reachable: "app_reachable reset xfer c s \<Longrightarrow> protocol_inv s"
  by (induction rule: app_reachable.induct) (auto intro: protocol_start protocol_step)

section \<open>What reaches the motors\<close>

locale motor_device = encoder_link xfer sent reply
  for xfer :: "'d transfer" and sent :: "'d \<Rightarrow> (u16 \<times> u16) list" and reply :: "'d \<Rightarrow> nat \<Rightarrow> u16 \<times> u16" +
  fixes reset :: "'d \<Rightarrow> 'd"
  assumes sent_reset: "\<exists>ws. sent (reset d) = sent d @ ws \<and> set ws \<subseteq> {(PWM_MID_POINT, PWM_MID_POINT)}"
begin

definition writes :: "'d app \<Rightarrow> (u16 \<times> u16) list" where
  "writes s = sent (device (rig (ctrl s)))"

definition motor_inv :: "'d ctrl \<Rightarrow> 'd app \<Rightarrow> bool" where
  "motor_inv c s \<longleftrightarrow>
     (\<exists>ws. writes s = sent (device (rig c)) @ ws \<and> list_all duty_ok ws)
     \<and> yaw_duty (yaw_pwm (ctrl s)) \<and> pitch_duty (pitch_pwm (ctrl s))
     \<and> (ctl_pc s = T_Test \<or> ctl_pc s = T_Body \<or> ctl_pc s = T_Check \<longrightarrow> ctrl_ok (ctrl s))"

lemma duty_ok_consts: "duty_ok (PWM_MID_POINT, PWM_MID_POINT)" "list_all duty_ok homing_commands"
  by (simp_all add: duty_ok_def pitch_duty_def yaw_duty_def PWM_MID_POINT_def homing_commands_def list_all_iff)

lemma motor_inv_writes:
  assumes "motor_inv c s" "writes t = writes s @ ws" "list_all duty_ok ws"
    and "yaw_duty (yaw_pwm (ctrl t))" "pitch_duty (pitch_pwm (ctrl t))"
    and "ctl_pc t = T_Test \<or> ctl_pc t = T_Body \<or> ctl_pc t = T_Check \<Longrightarrow> ctrl_ok (ctrl t)"
  shows "motor_inv c t"
  using assms unfolding motor_inv_def by force

lemma app_rig_frame [simp]:
  "ctl_pc (app_rig f s) = ctl_pc s" "yaw_pwm (ctrl (app_rig f s)) = yaw_pwm (ctrl s)"
  "pitch_pwm (ctrl (app_rig f s)) = pitch_pwm (ctrl s)" "ctrl_ok (ctrl (app_rig f s)) = ctrl_ok (ctrl s)"
  "rig (ctrl (app_rig f s)) = f (rig (ctrl s))"
  by (simp_all add: app_rig_def ctrl_ok_def)

lemma motor_handle_ctrl:
  "yaw_pwm (ctrl (main_handle reset xfer s)) = yaw_pwm (ctrl s)"
  "pitch_pwm (ctrl (main_handle reset xfer s)) = pitch_pwm (ctrl s)"
  "ctrl_ok (ctrl (main_handle reset xfer s)) = ctrl_ok (ctrl s)"
  by (auto simp: main_handle_def Let_def state_init_def state_home_def state_start_def state_end_def
      app_rig_def ctrl_ok_def split: state.split)

lemma handle_writes:
  "\<exists>ws. writes (main_handle reset xfer s) = writes s @ ws \<and> list_all duty_ok ws
     \<and> (current_state s = STATE_END \<longrightarrow> ws = [(PWM_MID_POINT, PWM_MID_POINT)])
     \<and> (current_state s = STATE_READY \<or> current_state s = STATE_START \<longrightarrow> ws = [])"
proof (cases "current_state s")
  case STATE_INIT
  obtain ws where "sent (reset (device (rig (ctrl s)))) = writes s @ ws" "set ws \<subseteq> {(PWM_MID_POINT, PWM_MID_POINT)}"
    using sent_reset unfolding writes_def by blast
  then show ?thesis using STATE_INIT duty_ok_consts(1)
    by (intro exI [of _ "ws @ [(PWM_MID_POINT, PWM_MID_POINT)]"])
      (auto simp: main_handle_def Let_def state_init_def app_rig_def writes_def init_fpga_def
        transfer_to_rig list_all_iff)
next
  case STATE_HOME
  then show ?thesis using duty_ok_consts(2)
    by (intro exI [of _ homing_commands])
      (simp add: main_handle_def Let_def state_home_def app_rig_def writes_def homing_sent)
next
  case STATE_END
  then show ?thesis using duty_ok_consts(1)
    by (intro exI [of _ "[(PWM_MID_POINT, PWM_MID_POINT)]"])
      (simp add: main_handle_def Let_def state_end_def app_rig_def writes_def transfer_to_rig)
qed (simp_all add: main_handle_def Let_def state_start_def writes_def)

lemma ctrl_leave_frame [simp]:
  "rig (ctrl_leave s) = rig s" "yaw_pwm (ctrl_leave s) = yaw_pwm s" "pitch_pwm (ctrl_leave s) = pitch_pwm s"
  by (simp_all add: ctrl_leave_def Let_def case_prod_beta)

lemma body_writes:
  assumes "ctrl_ok (ctrl s)" "ctrl_step xfer (ctrl s) = Some c"
  shows "\<exists>w. sent (device (rig c)) = writes s @ [w] \<and> duty_ok w" "ctrl_ok c"
proof -
  obtain c' py yy where c': "ctrl_step xfer (ctrl s) = Some c'" "ctrl_ok c'" "pitch_duty py" "yaw_duty yy"
    "rig c' = transfer_to xfer 3 py yy (rig (ctrl s))" by (rule ctrl_step_ok [OF assms(1)])
  then show "\<exists>w. sent (device (rig c)) = writes s @ [w] \<and> duty_ok w" "ctrl_ok c"
    using assms(2) by (auto simp: writes_def transfer_to_rig duty_ok_def)
qed

lemma motor_step: "app_step reset xfer s t \<Longrightarrow> motor_inv c s \<Longrightarrow> motor_inv c t"
proof (induction rule: app_step.induct)
  case (command s input)
  then show ?case
    by (auto simp: motor_inv_def main_command_def writes_def split: option.splits)
next
  case (handle s)
  from handle_writes [of s] obtain ws where "writes (main_handle reset xfer s) = writes s @ ws" "list_all duty_ok ws"
    by blast
  then show ?case using handle.prems by (intro motor_inv_writes [OF handle.prems])
      (auto simp: motor_inv_def motor_handle_ctrl)
next
  case (camera s q)
  then show ?case by (auto simp: motor_inv_def writes_def ctrl_ok_def)
next
  case (enter s)
  then have d: "yaw_duty (yaw_pwm (ctrl s))" "pitch_duty (pitch_pwm (ctrl s))" by (simp_all add: motor_inv_def)
  note e = ctrl_enter_ok [OF d, of xfer]
  show ?case
    by (rule motor_inv_writes [OF enter.prems, of _ "[(pitch_pwm (ctrl s), yaw_pwm (ctrl s))]"])
      (use e d in \<open>auto simp: writes_def transfer_to_rig duty_ok_def ctrl_ok_def\<close>)
next
  case (body s c')
  then have ok: "ctrl_ok (ctrl s)" by (simp add: motor_inv_def)
  from body_writes [OF ok body.hyps(2)] obtain w where w: "sent (device (rig c')) = writes s @ [w]" "duty_ok w"
    and ok': "ctrl_ok c'" by blast
  show ?case
    by (rule motor_inv_writes [OF body.prems, of _ "[w]"])
      (use w ok' in \<open>auto simp: writes_def ctrl_ok_def\<close>)
qed (auto simp: motor_inv_def writes_def)

lemma motor_reachable: "app_reachable reset xfer c s \<Longrightarrow> motor_inv c s"
proof (induction rule: app_reachable.induct)
  case app_init
  show ?case using duty_ok_consts(1)
    by (simp add: motor_inv_def app_start_def writes_def ctrl_locals_duty duty_ok_def)
next
  case (app_more s t)
  then show ?case using motor_step by blast
qed

end

interpretation de10_motors: motor_device de10_read_write_encoder_pwm
    "\<lambda>d. map unpack_encoders (pwm_writes d)"
    "\<lambda>d n. unpack_encoders (encoder_reg d (encoder_reads d + n))" "\<lambda>d. snd (de10_reset_fpga d)"
  by unfold_locales (simp add: de10_reset_fpga_def store_pwm_def pack_pwm_unpack)

interpretation rpi_motors: motor_device "rpi_read_write_encoder_pwm sc"
    "\<lambda>l. map spi_decode (spi_sent l)" "\<lambda>l n. rx_encoders sc (rx_at l n)" "\<lambda>l. l" for sc
  by unfold_locales simp

section \<open>Stopping\<close>

fun pending :: "ctl_pc \<Rightarrow> nat" where
  "pending T_Enter = 1"
| "pending T_Body = 1"
| "pending pc = 0"

lemma pending_le: "pending pc \<le> 1"
  by (cases pc) auto

context motor_device
begin

lemma stopped_step:
  assumes "app_step reset xfer s t" "main_pc s = M_Done" "\<not> start_thread_active s"
  shows "main_pc t = M_Done \<and> \<not> start_thread_active t
     \<and> (\<exists>ws. writes t = writes s @ ws \<and> length ws + pending (ctl_pc t) \<le> pending (ctl_pc s))"
  using assms
proof (induction rule: app_step.induct)
  case (enter s)
  then show ?case by (simp add: writes_def ctrl_enter_def Let_def case_prod_beta transfer_to_rig)
next
  case (body s c)
  from ctrl_step_writes_once [OF body.hyps(2)] body show ?case
    by (auto simp: writes_def transfer_to_rig)
qed (auto simp: writes_def)

lemma stopped_steps:
  assumes "(app_step reset xfer)\<^sup>*\<^sup>* s t" "main_pc s = M_Done" "\<not> start_thread_active s"
  shows "main_pc t = M_Done \<and> \<not> start_thread_active t
     \<and> (\<exists>ws. writes t = writes s @ ws \<and> length ws + pending (ctl_pc t) \<le> pending (ctl_pc s))"
  using assms
proof (induction rule: rtranclp_induct)
  case base
  then show ?case by auto
next
  case (step t u)
  then obtain ws where "main_pc t = M_Done" "\<not> start_thread_active t" "writes t = writes s @ ws"
    "length ws + pending (ctl_pc t) \<le> pending (ctl_pc s)" by auto
  with stopped_step [OF step.hyps(2)] show ?case by force
qed

end

fun ctl_rank :: "ctl_pc \<Rightarrow> nat" where
  "ctl_rank T_Enter = 3"
| "ctl_rank T_Body = 3"
| "ctl_rank T_Test = 2"
| "ctl_rank T_Check = 2"
| "ctl_rank T_Wait = 1"
| "ctl_rank T_Done = 0"

lemma settling_step:
  assumes "app_step reset xfer s t" "main_pc s = M_Done" "\<not> start_thread_active s"
  shows "main_pc t = M_Done \<and> \<not> start_thread_active t
     \<and> (ctl_pc t = ctl_pc s \<or> ctl_rank (ctl_pc t) < ctl_rank (ctl_pc s))"
  using assms by (induction rule: app_step.induct) auto

lemma settling_steps:
  assumes "(app_step reset xfer)\<^sup>*\<^sup>* s t" "main_pc s = M_Done" "\<not> start_thread_active s"
  shows "main_pc t = M_Done \<and> \<not> start_thread_active t
     \<and> (ctl_pc t = ctl_pc s \<or> ctl_rank (ctl_pc t) < ctl_rank (ctl_pc s))"
  using assms
proof (induction rule: rtranclp_induct)
  case (step t u)
  then have "main_pc t = M_Done" "\<not> start_thread_active t"
    "ctl_pc t = ctl_pc s \<or> ctl_rank (ctl_pc t) < ctl_rank (ctl_pc s)" by auto
  with settling_step [OF step.hyps(2)] show ?case by fastforce
qed auto

lemma settling_progress:
  assumes "main_pc s = M_Done" "\<not> start_thread_active s" "ctl_pc s \<noteq> T_Done"
    and "ctl_pc s = T_Body \<Longrightarrow> ctrl_step xfer (ctrl s) \<noteq> None"
  shows "\<exists>t. app_step reset xfer s t \<and> ctl_rank (ctl_pc t) < ctl_rank (ctl_pc s)"
proof (cases "ctl_pc s")
  case T_Wait
  then show ?thesis using app_step.cancel [of s reset xfer] assms(1) by force
next
  case T_Enter
  then show ?thesis using app_step.enter [of s reset xfer] by force
next
  case T_Test
  then show ?thesis using app_step.test [of s reset xfer] assms(2) by force
next
  case T_Body
  then obtain c where "ctrl_step xfer (ctrl s) = Some c" using assms(4) by auto
  from app_step.body [OF T_Body this, of reset] show ?thesis using T_Body by force
next
  case T_Check
  then show ?thesis using app_step.check [of s reset xfer] assms(2) by force
qed (use assms(3) in simp)

section \<open>A run to the first iteration of the control loop\<close>

definition homed :: "('d \<Rightarrow> 'd) \<Rightarrow> 'd transfer \<Rightarrow> 'd ctrl \<Rightarrow> 'd ctrl" where
  "homed reset xfer c =
     (ctrl_locals c)\<lparr>rig := homing_sequence xfer (init_fpga reset xfer (rig (ctrl_locals c)))\<rparr>"

definition at_body :: "('d \<Rightarrow> 'd) \<Rightarrow> 'd transfer \<Rightarrow> 'd ctrl \<Rightarrow> 'd app" where
  "at_body reset xfer c =
     \<lparr>current_state = STATE_START, start_thread_active = True, main_pc = M_Prompt, ctl_pc = T_Body,
      ctrl = ctrl_enter xfer (homed reset xfer c), handled = [STATE_INIT, STATE_HOME, STATE_START]\<rparr>"

lemma at_body_reachable: "app_reachable reset xfer c (at_body reset xfer c)"
proof -
  let ?c0 = "ctrl_locals c"
  let ?c1 = "?c0\<lparr>rig := init_fpga reset xfer (rig ?c0)\<rparr>"
  let ?c2 = "homed reset xfer c"
  let ?s = "\<lambda>st act mp cp ct hs. \<lparr>current_state = st, start_thread_active = act, main_pc = mp, ctl_pc = cp,
      ctrl = ct, handled = hs\<rparr>"
  let ?R = "app_reachable reset xfer c"
  have "?R (?s STATE_READY False M_Prompt T_Wait ?c0 [])"
    using app_init [of reset xfer c] by (simp add: app_start_def)
  from app_more [OF this command [where input = "''init''"]]
  have "?R (?s STATE_INIT False M_Handle T_Wait ?c0 [])" by (simp add: main_command_def next_state_def)
  from app_more [OF this handle]
  have "?R (?s STATE_INIT False M_Prompt T_Wait ?c1 [STATE_INIT])"
    by (simp add: main_handle_def Let_def state_init_def app_rig_def)
  from app_more [OF this command [where input = "''home''"]]
  have "?R (?s STATE_HOME False M_Handle T_Wait ?c1 [STATE_INIT])" by (simp add: main_command_def next_state_def)
  from app_more [OF this handle]
  have "?R (?s STATE_HOME False M_Prompt T_Wait ?c2 [STATE_INIT, STATE_HOME])"
    by (simp add: main_handle_def Let_def state_home_def app_rig_def homed_def)
  from app_more [OF this command [where input = "''start''"]]
  have "?R (?s STATE_START False M_Handle T_Wait ?c2 [STATE_INIT, STATE_HOME])"
    by (simp add: main_command_def next_state_def)
  from app_more [OF this handle]
  have "?R (?s STATE_START True M_Prompt T_Wait ?c2 [STATE_INIT, STATE_HOME, STATE_START])"
    by (simp add: main_handle_def Let_def state_start_def)
  from app_more [OF this wake]
  have "?R (?s STATE_START True M_Prompt T_Enter ?c2 [STATE_INIT, STATE_HOME, STATE_START])" by simp
  from app_more [OF this enter]
  have "?R (?s STATE_START True M_Prompt T_Test (ctrl_enter xfer ?c2) [STATE_INIT, STATE_HOME, STATE_START])" by simp
  from app_more [OF this test] show ?thesis by (simp add: at_body_def)
qed

definition still_ctrl :: "fpga ctrl" where
  "still_ctrl = undefined\<lparr>rig := \<lparr>device = \<lparr>pwm_writes = [], encoder_reads = 0, encoder_reg = (\<lambda>n. 0)\<rparr>,
       p_settings = [0, 0, 0, 0], y_settings = [0, 0, 0, 0]\<rparr>,
     com_queue := spsc_init \<lparr>buffer = replicate 256 \<lparr>com_x = 0, com_y = 0\<rparr>, head = 0, tail = 0\<rparr>\<rparr>"


abbreviation de10_step :: "fpga app \<Rightarrow> fpga app \<Rightarrow> bool" where
  "de10_step \<equiv> app_step (\<lambda>d. snd (de10_reset_fpga d)) de10_read_write_encoder_pwm"

abbreviation de10_reachable :: "fpga ctrl \<Rightarrow> fpga app \<Rightarrow> bool" where
  "de10_reachable \<equiv> app_reachable (\<lambda>d. snd (de10_reset_fpga d)) de10_read_write_encoder_pwm"

definition de10_commands :: "fpga app \<Rightarrow> (u16 \<times> u16) list" where
  "de10_commands s = map unpack_encoders (pwm_writes (device (rig (ctrl s))))"

lemma de10_commands_writes: "de10_motors.writes s = de10_commands s"
  by (simp add: de10_motors.writes_def de10_commands_def)

lemma still_replies:
  "encoder_reg (device r) = (\<lambda>n. 0) \<Longrightarrow>
     encoder_reg (device (transfer_to de10_read_write_encoder_pwm i p y r)) = (\<lambda>n. 0)
     \<and> p_settings (transfer_to de10_read_write_encoder_pwm i p y r) = (p_settings r)[i := 0]
     \<and> y_settings (transfer_to de10_read_write_encoder_pwm i p y r) = (y_settings r)[i := 0]"
  by (simp add: transfer_to_def de10_read_write_encoder_pwm_def load_encoders_def store_pwm_def unpack_encoders_def)

lemma still_homed:
  "p_settings (rig (homed (\<lambda>d. snd (de10_reset_fpga d)) de10_read_write_encoder_pwm still_ctrl)) = [0, 0, 0, 0]"
proof -
  let ?r = "init_fpga (\<lambda>d. snd (de10_reset_fpga d)) de10_read_write_encoder_pwm (rig (ctrl_locals still_ctrl))"
  let ?before = "(rig (ctrl_locals still_ctrl))\<lparr>device := snd (de10_reset_fpga (device (rig (ctrl_locals still_ctrl))))\<rparr>"
  have r0: "encoder_reg (device ?before) = (\<lambda>n. 0)" "p_settings ?before = [0, 0, 0, 0]" "y_settings ?before = [0, 0, 0, 0]"
    by (simp_all add: still_ctrl_def ctrl_locals_def de10_reset_fpga_def store_pwm_def)
  have r: "?r = transfer_to de10_read_write_encoder_pwm 3 PWM_MID_POINT PWM_MID_POINT ?before"
    by (simp add: init_fpga_def)
  have st: "encoder_reg (device ?r) = (\<lambda>n. 0) \<and> p_settings ?r = [0, 0, 0, 0][3 := 0] \<and> y_settings ?r = [0, 0, 0, 0][3 := 0]"
    using still_replies [OF r0(1), of 3 PWM_MID_POINT PWM_MID_POINT] unfolding r r0(2,3) .
  then have "encoder_reg (device ?r) = (\<lambda>n. 0)" by blast
  moreover have "p_settings ?r = [0, 0, 0, 0]" "y_settings ?r = [0, 0, 0, 0]" using st by simp_all
  ultimately have "encoder_reg (device ?r) = (\<lambda>n. 0)" "p_settings ?r = [0, 0, 0, 0]" "y_settings ?r = [0, 0, 0, 0]"
    by blast+
  then show ?thesis using de10.homing_settings(1) [of ?r]
    by (simp add: homed_def unpack_encoders_def)
qed

lemma pitch_position_enter:
  "pitch_position (ctrl_enter xfer s) =
     fst (get_rad_from_encoder (p_settings (rig (ctrl_enter xfer s))) (y_settings (rig (ctrl_enter xfer s))))"
  by (simp add: ctrl_enter_def ctrl_measure_def Let_def case_prod_beta)

lemma still_position:
  "pitch_position (ctrl_enter de10_read_write_encoder_pwm
     (homed (\<lambda>d. snd (de10_reset_fpga d)) de10_read_write_encoder_pwm still_ctrl)) = PITCH_MIN_RAD"
proof -
  let ?h = "homed (\<lambda>d. snd (de10_reset_fpga d)) de10_read_write_encoder_pwm still_ctrl"
  have "rig (ctrl_enter de10_read_write_encoder_pwm ?h) =
      transfer_to de10_read_write_encoder_pwm 3 (pitch_pwm ?h) (yaw_pwm ?h) (rig ?h)"
    by (simp add: ctrl_enter_def Let_def case_prod_beta)
  then have "p_settings (rig (ctrl_enter de10_read_write_encoder_pwm ?h)) ! 1 =
      p_settings (rig (ctrl_enter de10_read_write_encoder_pwm ?h)) ! 2"
    by (simp add: de10.transfer_to_rig(3) still_homed)
  then show ?thesis unfolding pitch_position_enter by (simp add: get_rad_from_encoder_def axis_rad_def)
qed

abbreviation de10_at_body :: "fpga app" where
  "de10_at_body \<equiv> at_body (\<lambda>d. snd (de10_reset_fpga d)) de10_read_write_encoder_pwm still_ctrl"

lemma still_first_tilt:
  "\<exists>c yy. ctrl_step de10_read_write_encoder_pwm ((ctrl de10_at_body)\<lparr>rig := r\<rparr>) = Some c
     \<and> map unpack_encoders (pwm_writes (device (rig c))) =
         map unpack_encoders (pwm_writes (device r)) @ [(1542, yy)]"
proof -
  let ?h = "homed (\<lambda>d. snd (de10_reset_fpga d)) de10_read_write_encoder_pwm still_ctrl"
  have "yaw_duty (yaw_pwm ?h)" "pitch_duty (pitch_pwm ?h)" "pitch_set_point ?h = 0"
    "spsc_wf (com_queue ?h)" "spsc_contents (com_queue ?h) = []"
    using ctrl_locals_duty [of still_ctrl]
    by (simp_all add: homed_def ctrl_locals_def still_ctrl_def spsc_wf_init)
  from first_tilt [OF this still_position, of r] show ?thesis
    by (auto simp: at_body_def de10.transfer_to_rig)
qed

lemma write_after_stop:
  "\<exists>s yy ws. de10_reachable still_ctrl s \<and> main_pc s = M_Done \<and> \<not> start_thread_active s
     \<and> de10_commands s = ws @ [(PWM_MID_POINT, PWM_MID_POINT), (1542, yy)]"
proof -
  let ?R = "de10_reachable still_ctrl" and ?b = de10_at_body
  let ?e = "main_command ''end'' ?b"
  have "?R ?e" by (rule app_more [OF at_body_reachable command]) (simp add: at_body_def)
  moreover have e: "main_pc ?e = M_Handle" "current_state ?e = STATE_END" "ctl_pc ?e = T_Body"
    "\<not> start_thread_active ?e" "ctrl ?e = ctrl ?b"
    by (simp_all add: main_command_def next_state_def at_body_def)
  ultimately have h: "?R (main_handle (\<lambda>d. snd (de10_reset_fpga d)) de10_read_write_encoder_pwm ?e)"
    by (intro app_more [OF _ handle])
  let ?h = "main_handle (\<lambda>d. snd (de10_reset_fpga d)) de10_read_write_encoder_pwm ?e"
  let ?r = "transfer_to de10_read_write_encoder_pwm 3 PWM_MID_POINT PWM_MID_POINT (rig (ctrl ?b))"
  have c: "ctrl ?h = (ctrl ?b)\<lparr>rig := ?r\<rparr>"
    using e(2,5) by (simp add: main_handle_def Let_def state_end_def app_rig_def)
  obtain c' yy where c': "ctrl_step de10_read_write_encoder_pwm (ctrl ?h) = Some c'"
    "map unpack_encoders (pwm_writes (device (rig c'))) = map unpack_encoders (pwm_writes (device ?r)) @ [(1542, yy)]"
    using still_first_tilt [of ?r] unfolding c by blast
  have "?R (?h\<lparr>ctrl := c', ctl_pc := T_Check\<rparr>)"
    by (rule app_more [OF h body [OF _ c'(1)]]) (simp add: e)
  moreover have "de10_commands (?h\<lparr>ctrl := c', ctl_pc := T_Check\<rparr>) =
      map unpack_encoders (pwm_writes (device (rig (ctrl ?b)))) @ [(PWM_MID_POINT, PWM_MID_POINT), (1542, yy)]"
    using c'(2) by (simp add: de10_commands_def de10.transfer_to_rig(1))
  ultimately show ?thesis using e by (intro exI conjI) (assumption | simp)+
qed

lemma eof_while_moving:
  "\<exists>s yy ws. de10_reachable still_ctrl s \<and> main_pc s = M_Eof \<and> ctl_pc s = T_Done
     \<and> de10_commands s = ws @ [(1542, yy)]"
proof -
  let ?R = "de10_reachable still_ctrl" and ?b = de10_at_body
  have r: "ctrl ?b = (ctrl ?b)\<lparr>rig := rig (ctrl ?b)\<rparr>" by simp
  obtain c' yy where c': "ctrl_step de10_read_write_encoder_pwm (ctrl ?b) = Some c'"
    "map unpack_encoders (pwm_writes (device (rig c'))) = de10_commands ?b @ [(1542, yy)]"
    using still_first_tilt [of "rig (ctrl ?b)"] unfolding r [symmetric] de10_commands_def by blast
  let ?s = "?b\<lparr>ctrl := c', ctl_pc := T_Check\<rparr>"
  have "?R ?s" by (rule app_more [OF at_body_reachable body [OF _ c'(1)]]) (simp add: at_body_def)
  from app_more [OF this check] have "?R (?s\<lparr>ctl_pc := T_Test\<rparr>)" by (simp add: at_body_def)
  from app_more [OF this eof] have "?R (?s\<lparr>ctl_pc := T_Test, main_pc := M_Eof\<rparr>)" by (simp add: at_body_def)
  from app_more [OF this cancel] have "?R (?s\<lparr>main_pc := M_Eof, ctl_pc := T_Done\<rparr>)" by simp
  moreover have "de10_commands (?s\<lparr>main_pc := M_Eof, ctl_pc := T_Done\<rparr>) = de10_commands ?b @ [(1542, yy)]"
    using c'(2) by (simp add: de10_commands_def)
  ultimately show ?thesis by (intro exI conjI) (assumption | simp)+
qed

lemma protocol_done: "protocol_inv s \<Longrightarrow> main_pc s = M_Done \<Longrightarrow> \<not> start_thread_active s"
  by (auto simp: protocol_inv_def state_order)

context motor_device
begin

lemma body_defined:
  assumes "app_reachable reset xfer c s" "ctl_pc s = T_Body"
  shows "ctrl_step xfer (ctrl s) \<noteq> None"
proof -
  have "ctrl_ok (ctrl s)" using motor_reachable [OF assms(1)] assms(2) by (simp add: motor_inv_def)
  then obtain c' where "ctrl_step xfer (ctrl s) = Some c'" by (rule ctrl_step_ok)
  then show ?thesis by simp
qed

lemma stopped_reachable:
  assumes "app_reachable reset xfer c s" "main_pc s = M_Done" "(app_step reset xfer)\<^sup>*\<^sup>* s t"
  shows "\<exists>ws. writes t = writes s @ ws \<and> length ws \<le> 1"
proof -
  have "\<not> start_thread_active s" using protocol_done [OF protocol_reachable [OF assms(1)] assms(2)] .
  from stopped_steps [OF assms(3,2) this] show ?thesis using pending_le [of "ctl_pc s"] by auto
qed

end

lemmas de10_body_defined = de10_motors.body_defined

abbreviation rpi_step :: "bool \<Rightarrow> spi_link app \<Rightarrow> spi_link app \<Rightarrow> bool" where
  "rpi_step sc \<equiv> app_step (\<lambda>l. l) (rpi_read_write_encoder_pwm sc)"

abbreviation rpi_reachable :: "bool \<Rightarrow> spi_link ctrl \<Rightarrow> spi_link app \<Rightarrow> bool" where
  "rpi_reachable sc \<equiv> app_reachable (\<lambda>l. l) (rpi_read_write_encoder_pwm sc)"

definition rpi_commands :: "spi_link app \<Rightarrow> (u16 \<times> u16) list" where
  "rpi_commands s = map spi_decode (spi_sent (device (rig (ctrl s))))"

lemma rpi_commands_writes: "rpi_motors.writes s = rpi_commands s"
  by (simp add: rpi_motors.writes_def rpi_commands_def)

definition rpi_still_ctrl :: "spi_link ctrl" where
  "rpi_still_ctrl = undefined\<lparr>rig := \<lparr>device = \<lparr>TXBuf = [0, 0, 0, 0, 0], RXBuf = [0, 0, 0, 0, 0], spi_sent = [],
       spi_xfers = 0, spi_reply = (\<lambda>n. Some [0, 0, 0, 0, 0])\<rparr>, p_settings = [0, 0, 0, 0], y_settings = [0, 0, 0, 0]\<rparr>,
     com_queue := spsc_init \<lparr>buffer = replicate 256 \<lparr>com_x = 0, com_y = 0\<rparr>, head = 0, tail = 0\<rparr>\<rparr>"

section \<open>Properties\<close>

text \<open>
  C6: whatever the operator types and however the two threads interleave, the handlers run in the order
  init, home, start, end (repetitions allowed), homing never runs before initialisation, neither the
  control loop nor the end handler runs before homing, and the control loop is active only in
  \<open>STATE_START\<close>.
\<close>

theorem command_protocol:
  assumes "app_reachable reset xfer c s"
  shows "sorted (handled s)
     \<and> (STATE_HOME \<in> set (handled s) \<longrightarrow> STATE_INIT \<in> set (handled s))
     \<and> (STATE_START \<in> set (handled s) \<or> STATE_END \<in> set (handled s) \<longrightarrow> STATE_HOME \<in> set (handled s))
     \<and> (start_thread_active s \<longrightarrow> current_state s = STATE_START)
     \<and> (in_session (ctl_pc s) \<longrightarrow> STATE_START \<in> set (handled s))"
  using protocol_reachable [OF assms] by (simp add: protocol_inv_def)

theorem command_protocol_witness:
  "de10_reachable still_ctrl de10_at_body \<and> in_session (ctl_pc de10_at_body)
   \<and> STATE_HOME \<in> set (handled de10_at_body)"
  using command_protocol [OF at_body_reachable [of "\<lambda>d. snd (de10_reset_fpga d)" de10_read_write_encoder_pwm still_ctrl]]
    at_body_reachable [of "\<lambda>d. snd (de10_reset_fpga d)" de10_read_write_encoder_pwm still_ctrl]
  by (simp add: at_body_def in_session_def)

text \<open>
  C1: in every reachable state of the program, with any commands, camera results and encoder answers,
  every PWM pair ever written to the FPGA is inside the duty limits of its motor (tilt 1542..2554, pan
  21..4075), an iteration of the control loop that is about to run never meets an undefined
  conversion, and once the end handler has run, at most one more pair is written, however the threads are
  scheduled afterwards.
\<close>

theorem app_duty_limits:
  assumes "de10_reachable c s"
  shows "(\<exists>ws. de10_commands s = map unpack_encoders (pwm_writes (device (rig c))) @ ws \<and> list_all duty_ok ws)
     \<and> (ctl_pc s = T_Body \<longrightarrow> ctrl_step de10_read_write_encoder_pwm (ctrl s) \<noteq> None)
     \<and> (\<forall>t. main_pc s = M_Done \<and> de10_step\<^sup>*\<^sup>* s t \<longrightarrow>
            (\<exists>ws. de10_commands t = de10_commands s @ ws \<and> length ws \<le> 1))"
  using de10_motors.motor_reachable [OF assms] de10_motors.body_defined [OF assms]
    de10_motors.stopped_reachable [OF assms]
  unfolding de10_motors.motor_inv_def de10_commands_writes by blast

theorem app_duty_limits_witness:
  "ctrl_step de10_read_write_encoder_pwm (ctrl de10_at_body) \<noteq> None"
  using app_duty_limits [OF at_body_reachable [of "\<lambda>d. snd (de10_reset_fpga d)" de10_read_write_encoder_pwm still_ctrl]]
  by (simp add: at_body_def)



text \<open>
  C26: the program ends: once the end handler has run, every step of the control thread brings it closer to
  its end (no step of any thread moves it back), and as long as it has not ended one of its steps is
  enabled, the last of them by the cancellation in \<open>main\<close> when it is waiting.
\<close>

theorem end_settles:
  assumes "de10_reachable c s" "main_pc s = M_Done" "de10_step\<^sup>*\<^sup>* s t"
  shows "(ctl_pc t = ctl_pc s \<or> ctl_rank (ctl_pc t) < ctl_rank (ctl_pc s))
     \<and> (ctl_pc t \<noteq> T_Done \<longrightarrow> (\<exists>u. de10_step t u \<and> ctl_rank (ctl_pc u) < ctl_rank (ctl_pc t)))"
proof -
  have "\<not> start_thread_active s"
    using protocol_done [OF protocol_reachable [OF assms(1)] assms(2)] .
  note st = settling_steps [OF assms(3,2) this]
  have t: "de10_reachable c t" using assms(3,1) by (induction rule: rtranclp_induct) (auto intro: app_more)
  have "ctrl_step de10_read_write_encoder_pwm (ctrl t) \<noteq> None" if "ctl_pc t = T_Body"
    using de10_body_defined [OF t that] .
  with settling_progress [of t de10_read_write_encoder_pwm] st show ?thesis by blast
qed

theorem end_settles_witness:
  "\<exists>s u. main_pc s = M_Done \<and> ctl_pc s \<noteq> T_Done \<and> de10_step s u \<and> ctl_rank (ctl_pc u) < ctl_rank (ctl_pc s)"
proof -
  let ?s = "main_handle (\<lambda>d. snd (de10_reset_fpga d)) de10_read_write_encoder_pwm (main_command ''end'' de10_at_body)"
  have "de10_reachable still_ctrl (main_command ''end'' de10_at_body)"
    by (rule app_more [OF at_body_reachable command]) (simp add: at_body_def)
  then have "de10_reachable still_ctrl ?s"
    by (rule app_more [OF _ handle]) (simp add: main_command_def next_state_def at_body_def)
  moreover have p: "main_pc ?s = M_Done" "ctl_pc ?s \<noteq> T_Done"
    by (simp_all add: main_command_def next_state_def at_body_def)
  ultimately obtain u where "de10_step ?s u" "ctl_rank (ctl_pc u) < ctl_rank (ctl_pc ?s)"
    using end_settles [of still_ctrl ?s ?s] by blast
  with p show ?thesis by (intro exI [of _ ?s] exI [of _ u] conjI)
qed

text \<open>
  C29: that one write can happen: there is a run of the program after whose end handler, which stops the
  motors, the control loop still writes the full backward tilt 1542, so the program ends with the tilt
  motor running (main.c:206-222 against main.c:62-67).
\<close>

theorem write_after_end:
  "\<exists>s yy ws. de10_reachable still_ctrl s \<and> main_pc s = M_Done \<and> \<not> start_thread_active s
     \<and> de10_commands s = ws @ [(PWM_MID_POINT, PWM_MID_POINT), (1542, yy)]"
  by (rule write_after_stop)

text \<open>
  C30: the end of the input is not handled as the command end is: there is a run in which \<open>readline\<close>
  returns NULL during a session, the control thread is cancelled and the last pair the FPGA has received
  is the full backward tilt (main.c:299, 352-355).
\<close>

theorem eof_keeps_motors:
  "\<exists>s yy ws. de10_reachable still_ctrl s \<and> main_pc s = M_Eof \<and> ctl_pc s = T_Done
     \<and> de10_commands s = ws @ [(1542, yy)]"
  by (rule eof_while_moving)

text \<open>
  An invalid command in \<open>STATE_HOME\<close> runs the whole homing sequence again: the program prints that
  the command is invalid and still calls the handler of the current state (main.c:321-336).
\<close>

lemma invalid_command_rehomes:
  assumes "current_state s = STATE_HOME" "next_state input STATE_HOME = None"
  shows "de10_commands (main_handle reset de10_read_write_encoder_pwm (main_command input s))
           = de10_commands s @ homing_commands"
  using assms de10.homing_sent [of "rig (ctrl s)"]
  by (simp add: main_command_def main_handle_def Let_def state_home_def app_rig_def de10_commands_def)

lemma invalid_command_rehomes_example:
  "de10_commands (main_handle (\<lambda>d. d) de10_read_write_encoder_pwm
       (main_command ''strat'' ((app_start still_ctrl)\<lparr>current_state := STATE_HOME\<rparr>)))
     = de10_commands ((app_start still_ctrl)\<lparr>current_state := STATE_HOME\<rparr>) @ homing_commands"
  by (rule invalid_command_rehomes) (simp_all add: next_state_def)

end
