(* ===== verification/Profiling.thy ===== *)
theory Profiling
  imports Machine_Floats
begin

text \<open>
  \<open>time_profiling/src/profiling.c\<close>: the three recording channels of the thread timing, each written
  once to a CSV file when it is full, and \<open>timespec_diff_us\<close> of \<open>rt_utils.c\<close>. Whether the file could be
  opened is an argument; the three globals of each channel are one record.
\<close>


record timespec =
  tv_sec :: int
  tv_nsec :: int

record TimeRecord =
  start_time :: timespec
  end_time :: timespec

definition MAX_ENTRIES :: nat where
  "MAX_ENTRIES = 10000"

definition timespec_diff_us :: "timespec \<Rightarrow> timespec \<Rightarrow> rat" where
  "timespec_diff_us s e =
     (let sec = f64 (of_int (tv_sec e - tv_sec s));
          nsec = f64 (of_int (tv_nsec e - tv_nsec s))
      in f64 (f64 (sec * 10 ^ 6) + f64 (nsec * f64 (1 / 1000))))"

definition timespec_to_ms :: "timespec \<Rightarrow> rat" where
  "timespec_to_ms t =
     f64 (f64 (f64 (of_int (tv_sec t)) * 1000) + f64 (f64 (of_int (tv_nsec t)) / 10 ^ 6))"

record channel =
  data :: "TimeRecord list"
  written :: bool
  files :: "(nat \<times> rat \<times> rat \<times> rat) list list"

definition write_csv :: "bool \<Rightarrow> TimeRecord list \<Rightarrow> (nat \<times> rat \<times> rat \<times> rat) list option" where
  "write_csv opened rs =
     (if opened
      then Some (map (\<lambda>i. let start_ms = timespec_to_ms (start_time (rs ! i));
                              end_ms = timespec_to_ms (end_time (rs ! i))
                          in (i, start_ms, end_ms, f64 (end_ms - start_ms))) [0..<MAX_ENTRIES])
      else None)"

definition store_channel :: "bool \<Rightarrow> TimeRecord \<Rightarrow> channel \<Rightarrow> channel" where
  "store_channel opened r c =
     (if length (data c) < MAX_ENTRIES
      then (let c = c\<lparr>data := data c @ [r]\<rparr>
            in if length (data c) = MAX_ENTRIES \<and> \<not> written c
               then c\<lparr>files := files c @ (case write_csv opened (data c) of None \<Rightarrow> [] | Some f \<Rightarrow> [f]),
                      written := True\<rparr>
               else c)
      else c)"

record profile =
  green_mask_data :: channel
  com_calculator_data :: channel
  start_data :: channel

definition store_time :: "bool \<Rightarrow> int \<Rightarrow> TimeRecord \<Rightarrow> profile \<Rightarrow> profile" where
  "store_time opened thread_id r p =
     (if thread_id = 1 then p\<lparr>green_mask_data := store_channel opened r (green_mask_data p)\<rparr>
      else if thread_id = 2 then p\<lparr>com_calculator_data := store_channel opened r (com_calculator_data p)\<rparr>
      else if thread_id = 3 then p\<lparr>start_data := store_channel opened r (start_data p)\<rparr>
      else p)"

definition profile_thread :: "bool \<Rightarrow> bool \<Rightarrow> int \<Rightarrow> TimeRecord \<Rightarrow> profile \<Rightarrow> profile" where
  "profile_thread MEASURE_THREADS opened thread_id r p =
     (if MEASURE_THREADS then store_time opened thread_id r p else p)"

definition empty_channel :: channel where
  "empty_channel = \<lparr>data = [], written = False, files = []\<rparr>"

lemma store_channels:
  "fold (store_channel True) rs empty_channel =
     \<lparr>data = take MAX_ENTRIES rs, written = (MAX_ENTRIES \<le> length rs),
      files = (if MAX_ENTRIES \<le> length rs then [the (write_csv True (take MAX_ENTRIES rs))] else [])\<rparr>"
proof (induction rs rule: rev_induct)
  case Nil
  then show ?case by (simp add: empty_channel_def MAX_ENTRIES_def)
next
  case (snoc r rs)
  consider "Suc (length rs) < MAX_ENTRIES" | "Suc (length rs) = MAX_ENTRIES" | "MAX_ENTRIES \<le> length rs" by linarith
  then show ?case
  proof cases
    case 1
    then show ?thesis using snoc by (simp add: store_channel_def Let_def)
  next
    case 2
    then show ?thesis using snoc by (simp add: store_channel_def Let_def write_csv_def)
  next
    case 3
    then show ?thesis using snoc by (simp add: store_channel_def)
  qed
qed

definition thread_records :: "int \<Rightarrow> (int \<times> TimeRecord) list \<Rightarrow> TimeRecord list" where
  "thread_records i es = map snd (filter (\<lambda>(j, r). j = i) es)"

definition empty_profile :: profile where
  "empty_profile = \<lparr>green_mask_data = empty_channel, com_calculator_data = empty_channel, start_data = empty_channel\<rparr>"

lemma profile_channels:
  "fold (\<lambda>(i, r). profile_thread True True i r) es empty_profile =
     \<lparr>green_mask_data = fold (store_channel True) (thread_records 1 es) empty_channel,
      com_calculator_data = fold (store_channel True) (thread_records 2 es) empty_channel,
      start_data = fold (store_channel True) (thread_records 3 es) empty_channel\<rparr>"
  by (induction es rule: rev_induct)
    (auto simp: empty_profile_def thread_records_def profile_thread_def store_time_def)

section \<open>Properties\<close>


end
