(* ===== verification/Single_Shot.thy ===== *)
theory Single_Shot
  imports Control_Loop Profiling
begin

text \<open>
  The control loop as it is built with SINGLE\_SHOT\_TEST=1 (main.c:147-149, 179-191; config.mk builds with 0):
  the set points are fixed, and when both axes are within 0.1 rad of them the thread prints the elapsed
  milliseconds and spins for ever (\<open>Reached\<close>). A run is given the queue and the clock of every iteration.
\<close>


section \<open>One iteration\<close>

definition shot_targets :: "'d ctrl \<Rightarrow> 'd ctrl" where
  "shot_targets s = s\<lparr>yaw_set_point := f64 (YAW_MAX_RAD / 2), pitch_set_point := f64 (PITCH_MAX_RAD / 2)\<rparr>"

definition shot_reached :: "'d ctrl \<Rightarrow> bool" where
  "shot_reached s \<longleftrightarrow>
     \<bar>f64 (yaw_set_point s - yaw_position s)\<bar> < f64 (1 / 10)
     \<and> \<bar>f64 (pitch_set_point s - pitch_position s)\<bar> < f64 (1 / 10)"

definition c_div :: "int \<Rightarrow> int \<Rightarrow> int" where
  "c_div a b = (if 0 \<le> a then a div b else - (- a div b))"

definition diff_ms :: "timespec \<Rightarrow> timespec \<Rightarrow> int" where
  "diff_ms s e = (tv_sec e - tv_sec s) * 1000 + c_div (tv_nsec e - tv_nsec s) 1000000"

datatype 'd shot = Driving "'d ctrl" | Reached int "'d ctrl"

definition shot_step :: "'d transfer \<Rightarrow> timespec \<Rightarrow> timespec \<Rightarrow> 'd ctrl \<Rightarrow> 'd shot option" where
  "shot_step xfer start now s =
     (let s = shot_targets (ctrl_aim s)
      in if shot_reached s then Some (Reached (diff_ms start now) s)
         else map_option Driving (ctrl_drive xfer s))"

fun shot_run :: "'d transfer \<Rightarrow> timespec \<Rightarrow> (SPSCQueue \<times> timespec) list \<Rightarrow> 'd ctrl \<Rightarrow> 'd shot option" where
  "shot_run xfer start [] s = Some (Driving s)"
| "shot_run xfer start ((q, now) # xs) s =
     (case shot_step xfer start now (s\<lparr>com_queue := q\<rparr>) of
        None \<Rightarrow> None
      | Some (Driving s') \<Rightarrow> shot_run xfer start xs s'
      | Some (Reached ms s') \<Rightarrow> Some (Reached ms s'))"

section \<open>The measured time\<close>

definition nanoseconds :: "timespec \<Rightarrow> int" where
  "nanoseconds t = 1000000000 * tv_sec t + tv_nsec t"

lemma c_div_near: "0 < b \<Longrightarrow> \<bar>b * c_div a b - a\<bar> < b"
proof -
  assume b: "0 < b"
  have "b * (x div b) \<le> x \<and> x < b * (x div b) + b" for x
    using pos_mod_sign [OF b, of x] pos_mod_bound [OF b, of x] mult_div_mod_eq [of b x] by linarith
  from this [of a] this [of "- a"] show ?thesis by (auto simp: c_div_def)
qed

lemma diff_ms_near: "\<bar>1000000 * diff_ms s e - (nanoseconds e - nanoseconds s)\<bar> < 1000000"
proof -
  have "1000000 * diff_ms s e - (nanoseconds e - nanoseconds s)
      = 1000000 * c_div (tv_nsec e - tv_nsec s) 1000000 - (tv_nsec e - tv_nsec s)"
    by (simp add: diff_ms_def nanoseconds_def algebra_simps)
  then show ?thesis using c_div_near [of 1000000 "tv_nsec e - tv_nsec s"] by simp
qed

section \<open>Runs\<close>

lemma shot_targets_ok: "ctrl_ok s \<Longrightarrow> ctrl_ok (shot_targets s)" "rig (shot_targets s) = rig s"
  by (simp_all add: shot_targets_def ctrl_ok_def)

context encoder_link
begin

lemma shot_run_ok:
  "ctrl_ok s \<Longrightarrow> \<exists>r. shot_run xfer start xs s = Some r
     \<and> (case r of
          Driving s' \<Rightarrow> \<exists>ws. sent (device (rig s')) = sent (device (rig s)) @ ws \<and> list_all duty_ok ws
            \<and> length ws = length xs
        | Reached ms s' \<Rightarrow> shot_reached s' \<and> (\<exists>ws. sent (device (rig s')) = sent (device (rig s)) @ ws
            \<and> list_all duty_ok ws \<and> length ws < length xs \<and> ms = diff_ms start (snd (xs ! length ws))))"
proof (induction xs arbitrary: s)
  case Nil
  then show ?case by simp
next
  case (Cons x xs)
  obtain q now where x: "x = (q, now)" by (cases x)
  let ?s = "shot_targets (ctrl_aim (s\<lparr>com_queue := q\<rparr>))"
  have ok: "ctrl_ok ?s" using Cons.prems by (intro shot_targets_ok ctrl_aim_ok) (simp add: ctrl_ok_def)
  have rg: "rig ?s = rig s" by (simp add: shot_targets_ok)
  show ?case
  proof (cases "shot_reached ?s")
    case True
    then show ?thesis using rg by (simp add: x shot_step_def)
  next
    case False
    obtain s1 py yy where s1: "ctrl_drive xfer ?s = Some s1" "ctrl_ok s1" "pitch_duty py" "yaw_duty yy"
      "rig s1 = transfer_to xfer 3 py yy (rig s)" by (rule ctrl_drive_ok [OF ok, of xfer]) (simp add: rg)
    have one: "sent (device (rig s1)) = sent (device (rig s)) @ [(py, yy)]" "duty_ok (py, yy)"
      using s1(3-5) by (simp_all add: transfer_to_rig duty_ok_def)
    from Cons.IH [OF s1(2)] obtain r where r: "shot_run xfer start xs s1 = Some r"
      "case r of
          Driving s' \<Rightarrow> \<exists>ws. sent (device (rig s')) = sent (device (rig s1)) @ ws \<and> list_all duty_ok ws
            \<and> length ws = length xs
        | Reached ms s' \<Rightarrow> shot_reached s' \<and> (\<exists>ws. sent (device (rig s')) = sent (device (rig s1)) @ ws
            \<and> list_all duty_ok ws \<and> length ws < length xs \<and> ms = diff_ms start (snd (xs ! length ws)))" by blast
    have "shot_run xfer start (x # xs) s = Some r" using False s1(1) r(1) by (simp add: x shot_step_def)
    moreover have "\<exists>vs. sent (device (rig s')) = sent (device (rig s)) @ vs \<and> list_all duty_ok vs
        \<and> length vs = Suc (length ws)" if "sent (device (rig s')) = sent (device (rig s1)) @ ws" "list_all duty_ok ws" for s' :: "'d ctrl" and ws
      using that one by (intro exI [of _ "(py, yy) # ws"]) simp
    ultimately show ?thesis using r(2) by (cases r) (fastforce)+
  qed
qed

end

section \<open>Properties\<close>



end
