(* ===== verification/Startup.thy ===== *)
theory Startup
  imports Frame
begin

text \<open>
  The bring-up of the program: the beginning of \<open>main\<close> (main.c:256-297) on both platforms,
  \<open>image_processor.c\<close>, the affinity and priority of the threads (\<open>rt_utils.c\<close> 12-36), the camera pipeline
  of the green mask thread (green_mask.c:187-248) and \<open>udp_server_create\<close> (udp_server.c:15-51). The
  results of the operating system, of pthreads and of GStreamer are arguments (\<open>aff\<close> is the result of
  pinning each thread); a function is the sequence of the calls it makes with its result, None when
  \<open>main\<close> goes on to its command loop. A handler that is not set keeps its value.
\<close>


datatype platform = PLATFORM_RPI | PLATFORM_DE10

fun cores :: "platform \<Rightarrow> nat" where
  "cores PLATFORM_RPI = 4"
| "cores PLATFORM_DE10 = 2"

datatype worker = Producer_Thread | Consumer_Thread | Start_Thread

datatype start_call =
    Spsc_Init
  | Spi_Open nat nat nat
  | Open_Mem string
  | Mmap
  | Close_Fd
  | Create worker
  | Setaffinity worker "nat set"
  | Setschedparam worker nat
  | Affinity_Error worker int
  | Sched_Error int
  | Stop_Flag
  | Broadcast_Not_Empty
  | Broadcast_Not_Full
  | Join worker

section \<open>Real-time utilities\<close>

definition pin_thread_to_core :: "worker \<Rightarrow> nat \<Rightarrow> int \<Rightarrow> start_call list" where
  "pin_thread_to_core thread core_id result =
     (let cpuset = {}; cpuset = insert core_id cpuset
      in if result \<noteq> 0 then [Setaffinity thread cpuset, Affinity_Error thread result]
         else [Setaffinity thread cpuset])"

definition set_realtime_priority :: "worker \<Rightarrow> nat \<Rightarrow> int \<Rightarrow> start_call list" where
  "set_realtime_priority thread priority ret =
     (if ret \<noteq> 0 then [Setschedparam thread priority, Sched_Error ret] else [Setschedparam thread priority])"

fun priority :: "worker \<Rightarrow> nat" where
  "priority Producer_Thread = 85"
| "priority Consumer_Thread = 84"
| "priority Start_Thread = 85"

definition thread_begin :: "worker \<Rightarrow> int \<Rightarrow> start_call list" where
  "thread_begin thread ret = set_realtime_priority thread (priority thread) ret"

section \<open>Image processor\<close>

definition start_green_mask_thread :: "int \<Rightarrow> int \<times> start_call list" where
  [simp]: "start_green_mask_thread result = (result, [Create Producer_Thread])"

definition start_com_calculator_thread :: "int \<Rightarrow> int \<times> start_call list" where
  [simp]: "start_com_calculator_thread result = (result, [Create Consumer_Thread])"

definition start_image_processor :: "platform \<Rightarrow> (worker \<Rightarrow> int) \<Rightarrow> int \<Rightarrow> int \<Rightarrow> int \<times> start_call list" where
  "start_image_processor p aff green com =
     (case start_green_mask_thread green of (green, calls) \<Rightarrow>
        if green \<noteq> 0 then (1, calls)
        else
          (let calls = calls @ pin_thread_to_core Producer_Thread
                         (case p of PLATFORM_RPI \<Rightarrow> 1 | PLATFORM_DE10 \<Rightarrow> 0) (aff Producer_Thread)
           in case start_com_calculator_thread com of (com, more) \<Rightarrow>
                if com \<noteq> 0 then (1, calls @ more)
                else (0, calls @ more @ pin_thread_to_core Consumer_Thread
                           (case p of PLATFORM_RPI \<Rightarrow> 2 | PLATFORM_DE10 \<Rightarrow> 1) (aff Consumer_Thread))))"

definition stop_image_processor :: "start_call list" where
  "stop_image_processor =
     [Stop_Flag, Broadcast_Not_Empty, Broadcast_Not_Full, Join Producer_Thread, Join Consumer_Thread]"

section \<open>The beginning of main\<close>

definition SPI_SPEED :: nat where "SPI_SPEED = 1000"

definition open_device :: "platform \<Rightarrow> int \<Rightarrow> bool \<Rightarrow> int option \<times> start_call list" where
  "open_device p fd mapped =
     (case p of
        PLATFORM_RPI \<Rightarrow> if fd < 0 then (Some (-1), [Spi_Open 1 SPI_SPEED 0]) else (None, [Spi_Open 1 SPI_SPEED 0])
      | PLATFORM_DE10 \<Rightarrow>
          if fd < 0 then (Some (-1), [Open_Mem ''/dev/mem''])
          else if \<not> mapped then (Some (-1), [Open_Mem ''/dev/mem'', Mmap, Close_Fd])
          else (None, [Open_Mem ''/dev/mem'', Mmap]))"

definition main_start ::
    "platform \<Rightarrow> int \<Rightarrow> bool \<Rightarrow> (worker \<Rightarrow> int) \<Rightarrow> int \<Rightarrow> int \<Rightarrow> int option \<times> start_call list" where
  "main_start p fd mapped aff green com =
     (case open_device p fd mapped of
        (Some r, calls) \<Rightarrow> (Some r, Spsc_Init # calls)
      | (None, calls) \<Rightarrow>
          (None, Spsc_Init # calls @ snd (start_image_processor p aff green com)
                 @ [Create Start_Thread]
                 @ pin_thread_to_core Start_Thread (case p of PLATFORM_RPI \<Rightarrow> 3 | PLATFORM_DE10 \<Rightarrow> 1) (aff Start_Thread)))"

section \<open>The camera pipeline of the green mask thread\<close>

definition VIDEO_DEVICE :: string where "VIDEO_DEVICE = ''/dev/video0''"
definition FRAME_RATE :: nat where "FRAME_RATE = 30"

datatype element = Source | Capsfilter | Decoder | Convert | Appsink

datatype caps =
    Jpeg_Caps nat nat nat
  | Raw_Caps string

record sink_settings =
  sink_caps :: caps
  emit_signals :: bool
  sync_clock :: bool
  drop_old :: bool
  max_buffers :: nat

datatype gst_call =
    Gst_Init
  | Factory_Make string element
  | Set_Device string
  | Set_Caps caps
  | Set_Sink sink_settings
  | Pipeline_New string
  | Bin_Add_Many "element list"
  | Link_Many "element list"
  | Set_Playing
  | Unref_Pipeline

definition gst_elements :: "platform \<Rightarrow> (string \<times> element) list" where
  "gst_elements p =
     (case p of
        PLATFORM_RPI \<Rightarrow> [(''v4l2src'', Source), (''capsfilter'', Capsfilter), (''v4l2jpegdec'', Decoder),
                           (''appsink'', Appsink), (''v4l2convert'', Convert)]
      | PLATFORM_DE10 \<Rightarrow> [(''v4l2src'', Source), (''capsfilter'', Capsfilter), (''jpegdec'', Decoder),
                            (''appsink'', Appsink), (''videoconvert'', Convert)])"

definition pipeline_order :: "element list" where
  "pipeline_order = [Source, Capsfilter, Decoder, Convert, Appsink]"

definition gst_settings :: "gst_call list" where
  "gst_settings =
     [Set_Device VIDEO_DEVICE, Set_Caps (Jpeg_Caps WIDTH HEIGHT FRAME_RATE),
      Set_Sink \<lparr>sink_caps = Raw_Caps ''RGB'', emit_signals = False, sync_clock = False, drop_old = True, max_buffers = 1\<rparr>]"

definition gst_setup :: "platform \<Rightarrow> (string \<Rightarrow> bool) \<Rightarrow> bool \<Rightarrow> bool \<Rightarrow> bool \<times> gst_call list" where
  "gst_setup p made linked playing =
     (let calls = Gst_Init # map (\<lambda>(factory, e). Factory_Make factory e) (gst_elements p)
      in if \<not> list_all (\<lambda>(factory, e). made factory) (gst_elements p) then (False, calls)
         else
           (let calls = calls @ gst_settings
                        @ [Pipeline_New ''rgb-pipeline'', Bin_Add_Many pipeline_order, Link_Many pipeline_order]
            in if \<not> linked then (False, calls @ [Unref_Pipeline])
               else if \<not> playing then (False, calls @ [Set_Playing, Unref_Pipeline])
               else (True, calls @ [Set_Playing])))"

section \<open>The debug socket\<close>

definition GREEN_MASK_DEBUG_PORT :: nat where "GREEN_MASK_DEBUG_PORT = 5000"
definition COM_THREAD_DEBUG_PORT :: nat where "COM_THREAD_DEBUG_PORT = 5001"

datatype udp_call = Socket | Bind nat | Close_Socket | Receive_From

record 'a udp_handler =
  sockfd :: int
  client_addr :: 'a

definition udp_server_create :: "nat \<Rightarrow> int \<Rightarrow> int \<Rightarrow> 'a \<Rightarrow> 'a udp_handler \<Rightarrow> 'a udp_handler \<times> udp_call list" where
  "udp_server_create port fd bound client h =
     (if fd < 0 then (h, [Socket])
      else if bound < 0 then (h, [Socket, Bind port, Close_Socket])
      else (h\<lparr>sockfd := fd, client_addr := client\<rparr>, [Socket, Bind port, Receive_From]))"

definition debug_server :: "bool \<Rightarrow> worker \<Rightarrow> int \<Rightarrow> int \<Rightarrow> 'a \<Rightarrow> 'a udp_handler \<Rightarrow> 'a udp_handler \<times> udp_call list" where
  "debug_server debug_video thread fd bound client h =
     (if debug_video
      then (case thread of
              Producer_Thread \<Rightarrow> udp_server_create GREEN_MASK_DEBUG_PORT fd bound client h
            | Consumer_Thread \<Rightarrow> udp_server_create COM_THREAD_DEBUG_PORT fd bound client h
            | Start_Thread \<Rightarrow> (h, []))
      else (h, []))"

section \<open>Outcomes\<close>

lemma open_device_fails:
  "fst (open_device p fd mapped) = Some r \<longleftrightarrow> r = -1 \<and> (fd < 0 \<or> p = PLATFORM_DE10 \<and> \<not> mapped)"
  by (cases p) (auto simp: open_device_def split: if_splits)

lemma open_device_closes:
  "fst (open_device p fd mapped) = Some r \<Longrightarrow>
     Close_Fd \<in> set (snd (open_device p fd mapped)) \<longleftrightarrow> 0 \<le> fd"
  by (cases p) (auto simp: open_device_def split: if_splits)

lemma open_device_calls:
  "Create t \<notin> set (snd (open_device p fd mapped))" "Setaffinity t c \<notin> set (snd (open_device p fd mapped))"
  by (cases p; auto simp: open_device_def)+

lemma main_start_cases:
  "main_start p fd mapped aff green com =
     (fst (open_device p fd mapped),
      Spsc_Init # snd (open_device p fd mapped)
      @ (if fst (open_device p fd mapped) \<noteq> None then []
         else snd (start_image_processor p aff green com)
              @ [Create Start_Thread]
              @ pin_thread_to_core Start_Thread (case p of PLATFORM_RPI \<Rightarrow> 3 | PLATFORM_DE10 \<Rightarrow> 1) (aff Start_Thread)))"
  by (cases "open_device p fd mapped") (auto simp: main_start_def split: option.split)

lemma pins [simp]: "Setaffinity t c \<in> set (pin_thread_to_core t' n r) \<longleftrightarrow> t = t' \<and> c = {n}"
  by (auto simp: pin_thread_to_core_def Let_def)

definition thread_core :: "platform \<Rightarrow> worker \<Rightarrow> nat" where
  "thread_core p t =
     (case p of PLATFORM_RPI \<Rightarrow> (case t of Producer_Thread \<Rightarrow> 1 | Consumer_Thread \<Rightarrow> 2 | Start_Thread \<Rightarrow> 3)
      | PLATFORM_DE10 \<Rightarrow> (case t of Producer_Thread \<Rightarrow> 0 | Consumer_Thread \<Rightarrow> 1 | Start_Thread \<Rightarrow> 1))"

lemma main_start_pins:
  "Setaffinity t c \<in> set (snd (main_start p fd mapped aff green com)) \<Longrightarrow> c = {thread_core p t}"
  using open_device_calls(2) [of t c p fd mapped]
  by (cases p) (auto simp: main_start_cases start_image_processor_def Let_def thread_core_def split: if_splits)

lemma thread_cores:
  "thread_core p t < cores p"
  "t \<noteq> u \<Longrightarrow> thread_core p t = thread_core p u \<Longrightarrow> priority t \<noteq> priority u"
  by (cases p; cases t; cases u; simp add: thread_core_def)+

lemma gst_setup_outcomes:
  "case gst_setup p made linked playing of (ok, calls) \<Rightarrow>
     ok = (list_all (\<lambda>(factory, e). made factory) (gst_elements p) \<and> linked \<and> playing)
     \<and> (Unref_Pipeline \<in> set calls) = (Pipeline_New ''rgb-pipeline'' \<in> set calls \<and> \<not> ok)
     \<and> (ok \<longrightarrow> set gst_settings \<subseteq> set calls)
     \<and> snd ` set (gst_elements p) = set pipeline_order"
  by (cases p) (auto simp: gst_setup_def gst_settings_def gst_elements_def pipeline_order_def Let_def)

lemma debug_server_blocks:
  "Receive_From \<in> set (snd (debug_server debug_video t fd bound client h)) \<longleftrightarrow>
     debug_video \<and> t \<noteq> Start_Thread \<and> 0 \<le> fd \<and> 0 \<le> bound"
  by (cases t) (auto simp: debug_server_def udp_server_create_def)

lemma debug_server_failed:
  "fd < 0 \<or> bound < 0 \<Longrightarrow> fst (debug_server debug_video t fd bound client h) = h"
  by (cases t) (auto simp: debug_server_def udp_server_create_def)

lemma debug_ports: "GREEN_MASK_DEBUG_PORT \<noteq> COM_THREAD_DEBUG_PORT"
  by (simp add: GREEN_MASK_DEBUG_PORT_def COM_THREAD_DEBUG_PORT_def)

section \<open>Properties\<close>



end
