(* ===== verification/Shutdown.thy ===== *)
theory Shutdown
  imports Mask_Queue Startup
begin

text \<open>
  \<open>stop_image_processor\<close> (image_processor.c:42-50) running beside the two camera threads: the steps of the
  queue of masks, the end of the green mask thread when its pipeline cannot be set up (its frame loop has
  no exit, green_mask.c:260-318), the test of \<open>stop_image_processing\<close> at the end of a round of the centre
  of mass thread (com_calculator.c:78-83) and the calls of the stopping thread one by one, a join waiting for
  its thread. The unlock of a mutex that is not held is undefined; here it may free the mutex or not.
\<close>


datatype green_phase = G_Setup | G_Loop | G_Ended

record 'm image_processor =
  threads :: "'m pipeline"
  green_thread :: green_phase
  com_ended :: bool
  stop_image_processing :: bool
  calls_left :: "start_call list"

fun at_stop_test :: "'m consumer_pc \<Rightarrow> bool" where
  "at_stop_test (C_Work m) = True"
| "at_stop_test c = False"

inductive ip_step :: "'m image_processor \<Rightarrow> 'm image_processor \<Rightarrow> bool" where
  ip_setup: "green_thread s = G_Setup \<Longrightarrow>
     ip_step s (s\<lparr>green_thread := (if fst (gst_setup p made linked playing) then G_Loop else G_Ended)\<rparr>)"
| ip_green: "green_thread s = G_Loop \<Longrightarrow> green_mask_step (threads s) t \<Longrightarrow> ip_step s (s\<lparr>threads := t\<rparr>)"
| ip_com: "\<not> com_ended s \<Longrightarrow> \<not> (stop_image_processing s \<and> at_stop_test (consumer (threads s))) \<Longrightarrow>
     com_calculator_step (threads s) t \<Longrightarrow> ip_step s (s\<lparr>threads := t\<rparr>)"
| ip_exit: "\<not> com_ended s \<Longrightarrow> stop_image_processing s \<Longrightarrow> at_stop_test (consumer (threads s)) \<Longrightarrow>
     ow = owner (threads s) \<or> ow = None \<Longrightarrow>
     ip_step s (s\<lparr>com_ended := True, threads := (threads s)\<lparr>owner := ow\<rparr>\<rparr>)"
| ip_flag: "calls_left s = Stop_Flag # cs \<Longrightarrow>
     ip_step s (s\<lparr>stop_image_processing := True, calls_left := cs\<rparr>)"
| ip_not_empty: "calls_left s = Broadcast_Not_Empty # cs \<Longrightarrow>
     ip_step s (s\<lparr>threads := (threads s)\<lparr>consumer := signal_not_empty (consumer (threads s))\<rparr>, calls_left := cs\<rparr>)"
| ip_not_full: "calls_left s = Broadcast_Not_Full # cs \<Longrightarrow>
     ip_step s (s\<lparr>threads := (threads s)\<lparr>producer := signal_not_full (producer (threads s))\<rparr>, calls_left := cs\<rparr>)"
| ip_join_green: "calls_left s = Join Producer_Thread # cs \<Longrightarrow> green_thread s = G_Ended \<Longrightarrow>
     ip_step s (s\<lparr>calls_left := cs\<rparr>)"
| ip_join_com: "calls_left s = Join Consumer_Thread # cs \<Longrightarrow> com_ended s \<Longrightarrow>
     ip_step s (s\<lparr>calls_left := cs\<rparr>)"

definition ip_start :: "'m list \<Rightarrow> 'm image_processor" where
  "ip_start init =
     \<lparr>threads = start_pipeline init, green_thread = G_Setup, com_ended = False,
      stop_image_processing = False, calls_left = stop_image_processor\<rparr>"

inductive ip_reachable :: "'m list \<Rightarrow> 'm image_processor \<Rightarrow> bool" for init where
  ip_init: "ip_reachable init (ip_start init)"
| ip_run: "ip_reachable init s \<Longrightarrow> ip_step s t \<Longrightarrow> ip_reachable init t"
| ip_wake: "ip_reachable init s \<Longrightarrow> spurious_wakeup (threads s) t \<Longrightarrow> ip_reachable init (s\<lparr>threads := t\<rparr>)"

section \<open>The invariant\<close>

definition queue_inv :: "'m pipeline \<Rightarrow> bool" where
  "queue_inv t \<longleftrightarrow> mask_queue_wf (mqueue t) \<and> sent t = received t @ mask_contents (mqueue t)"

definition idle_inv :: "'m pipeline \<Rightarrow> bool" where
  "idle_inv t \<longleftrightarrow> producer t = P_Work \<and> count (mqueue t) = 0 \<and> \<not> at_stop_test (consumer t)"

definition ip_inv :: "'m image_processor \<Rightarrow> bool" where
  "ip_inv s \<longleftrightarrow>
     queue_inv (threads s)
     \<and> (green_thread s \<noteq> G_Loop \<longrightarrow> idle_inv (threads s) \<and> \<not> com_ended s)
     \<and> (green_thread s \<noteq> G_Ended \<longrightarrow> Join Producer_Thread \<in> set (calls_left s))
     \<and> (\<not> com_ended s \<longrightarrow> Join Consumer_Thread \<in> set (calls_left s))
     \<and> length (calls_left s) \<le> 5"

lemma stop_test_signal [simp]: "at_stop_test (signal_not_empty c) = at_stop_test c"
  by (cases c) auto

lemma queue_green: "green_mask_step t u \<Longrightarrow> queue_inv t \<Longrightarrow> queue_inv u"
proof (induction rule: green_mask_step.induct)
  case (p_put s m q)
  then show ?case using mq.put_Some [of "mqueue s" m q] by (auto simp: queue_inv_def)
qed (auto simp: queue_inv_def)

lemma queue_com: "com_calculator_step t u \<Longrightarrow> queue_inv t \<Longrightarrow> queue_inv u"
proof (induction rule: com_calculator_step.induct)
  case (c_get s m q)
  then show ?case using mq.get_Some [of "mqueue s" m q] by (auto simp: queue_inv_def)
qed (auto simp: queue_inv_def)

lemma queue_wake: "spurious_wakeup t u \<Longrightarrow> queue_inv t \<Longrightarrow> queue_inv u"
  by (induction rule: spurious_wakeup.induct) (auto simp: queue_inv_def)

lemma idle_com: "com_calculator_step t u \<Longrightarrow> idle_inv t \<Longrightarrow> idle_inv u"
  by (induction rule: com_calculator_step.induct) (auto simp: idle_inv_def mask_get_def)

lemma idle_wake: "spurious_wakeup t u \<Longrightarrow> idle_inv t \<Longrightarrow> idle_inv u"
  by (induction rule: spurious_wakeup.induct) (auto simp: idle_inv_def)

lemma ip_inv_start: "length init = GREEN_MASK_QUEUE_SIZE \<Longrightarrow> ip_inv (ip_start init)"
  by (simp add: ip_inv_def ip_start_def queue_inv_def idle_inv_def start_pipeline_def mask_queue_wf_def
      mask_contents_def stop_image_processor_def)

lemma ip_step_inv: "ip_step s t \<Longrightarrow> ip_inv s \<Longrightarrow> ip_inv t"
proof (induction rule: ip_step.induct)
  case (ip_green s t)
  then show ?case using queue_green [of "threads s" t] by (auto simp: ip_inv_def)
next
  case (ip_com s t)
  then show ?case using queue_com [of "threads s" t] idle_com [of "threads s" t] by (auto simp: ip_inv_def)
qed (auto simp: ip_inv_def queue_inv_def idle_inv_def)

lemma ip_wake_inv: "spurious_wakeup (threads s) t \<Longrightarrow> ip_inv s \<Longrightarrow> ip_inv (s\<lparr>threads := t\<rparr>)"
  using queue_wake [of "threads s" t] idle_wake [of "threads s" t] by (auto simp: ip_inv_def)

lemma ip_reachable_inv:
  "ip_reachable init s \<Longrightarrow> length init = GREEN_MASK_QUEUE_SIZE \<Longrightarrow> ip_inv s"
  by (induction rule: ip_reachable.induct) (auto intro: ip_inv_start ip_step_inv ip_wake_inv)

lemma stop_waits: "ip_inv s \<Longrightarrow> calls_left s \<noteq> []"
  by (cases "green_thread s") (auto simp: ip_inv_def)

section \<open>The standstill\<close>

fun producer_rank :: "'m producer_pc \<Rightarrow> nat" where
  "producer_rank P_Work = 3"
| "producer_rank (P_Want m) = 2"
| "producer_rank (P_Hold m) = 1"
| "producer_rank (P_Sleep m) = 0"

definition ip_rank :: "'m image_processor \<Rightarrow> nat" where
  "ip_rank s = 4 * (GREEN_MASK_QUEUE_SIZE - count (mqueue (threads s)))
     + producer_rank (producer (threads s)) + 3 * length (calls_left s)"

lemma producer_rank_le: "producer_rank p \<le> 3"
  by (cases p) auto

lemma signal_rank: "producer_rank (signal_not_full p) \<le> producer_rank p + 2"
  by (cases p) auto

lemma green_rank:
  "green_mask_step t u \<Longrightarrow> mask_queue_wf (mqueue t) \<Longrightarrow>
     4 * (GREEN_MASK_QUEUE_SIZE - count (mqueue u)) + producer_rank (producer u)
     < 4 * (GREEN_MASK_QUEUE_SIZE - count (mqueue t)) + producer_rank (producer t)"
  by (induction rule: green_mask_step.induct) (auto simp: mask_put_def mask_queue_wf_def split: if_splits)

lemma ended_step:
  assumes "ip_step s t" "com_ended s" "ip_inv s"
  shows "com_ended t \<and> ip_rank t < ip_rank s"
  using assms
proof (induction rule: ip_step.induct)
  case (ip_green s t)
  then show ?case using green_rank [of "threads s" t] by (simp add: ip_rank_def ip_inv_def queue_inv_def)
next
  case (ip_not_full s cs)
  then show ?case using signal_rank [of "producer (threads s)"] by (simp add: ip_rank_def)
qed (auto simp: ip_rank_def ip_inv_def)

lemma ended_steps:
  "(ip_step ^^ n) s t \<Longrightarrow> com_ended s \<Longrightarrow> ip_inv s \<Longrightarrow> n + ip_rank t \<le> ip_rank s \<and> com_ended t \<and> ip_inv t"
proof (induction n arbitrary: t)
  case (Suc n)
  from Suc.prems(1) obtain u where u: "(ip_step ^^ n) s u" "ip_step u t" by auto
  from Suc.IH [OF u(1) Suc.prems(2,3)] have r: "n + ip_rank u \<le> ip_rank s" "com_ended u" "ip_inv u" by simp_all
  from ended_step [OF u(2) r(2,3)] ip_step_inv [OF u(2) r(3)] r(1) show ?case by simp
qed simp

lemma ip_rank_le: "ip_inv s \<Longrightarrow> ip_rank s \<le> 38"
  using producer_rank_le [of "producer (threads s)"]
  by (auto simp: ip_rank_def ip_inv_def GREEN_MASK_QUEUE_SIZE_def)

section \<open>A run in which the centre of mass thread ends\<close>

definition ended_threads :: "'m list \<Rightarrow> 'm \<Rightarrow> 'm pipeline" where
  "ended_threads init m =
     \<lparr>mqueue = \<lparr>slots = init[0 := m], front = 1, rear = 1, count = 0\<rparr>, owner = None,
      producer = P_Work, consumer = C_Work m, sent = [m], received = [m]\<rparr>"

definition ended_state :: "'m list \<Rightarrow> 'm \<Rightarrow> 'm image_processor" where
  "ended_state init m =
     \<lparr>threads = ended_threads init m, green_thread = G_Loop, com_ended = True,
      stop_image_processing = True, calls_left = List.tl stop_image_processor\<rparr>"

lemma ended_reachable:
  assumes "init \<noteq> []"
  shows "ip_reachable init (ended_state init m)"
proof -
  let ?t = "\<lambda>q ow p c ss rs. \<lparr>mqueue = q, owner = ow, producer = p, consumer = c, sent = ss, received = rs\<rparr>"
  let ?e = "\<lparr>slots = init, front = 0, rear = 0, count = 0\<rparr>"
  let ?f = "\<lparr>slots = init[0 := m], front = 0, rear = 1, count = 1\<rparr>"
  let ?g = "\<lparr>slots = init[0 := m], front = 1, rear = 1, count = 0\<rparr>"
  let ?s = "\<lambda>t ended. \<lparr>threads = t, green_thread = G_Loop, com_ended = ended, stop_image_processing = True,
    calls_left = List.tl stop_image_processor\<rparr>"
  let ?R = "ip_reachable init"
  note run = ip_run [where init = init]
  have stop: "stop_image_processor = Stop_Flag # List.tl stop_image_processor"
    by (simp add: stop_image_processor_def)
  have ok: "fst (gst_setup PLATFORM_RPI (\<lambda>x. True) True True)"
    by (simp add: gst_setup_def Let_def list_all_iff)
  have "?R ((ip_start init)\<lparr>green_thread := G_Loop\<rparr>)"
    using run [OF ip_init ip_setup [of _ PLATFORM_RPI "\<lambda>x. True" True True]] ok by (simp add: ip_start_def)
  from run [OF this ip_flag] stop have 1: "?R (?s (?t ?e None P_Work C_Want [] []) False)"
    by (simp add: ip_start_def start_pipeline_def)
  have 2: "?R (?s (?t ?e None (P_Want m) C_Want [] []) False)"
    using run [OF 1 ip_green [OF _ p_frame [of _ m]]] by simp
  have 3: "?R (?s (?t ?e (Some Green_Mask) (P_Hold m) C_Want [] []) False)"
    using run [OF 2 ip_green [OF _ p_lock [of _ m]]] by simp
  have 4: "?R (?s (?t ?f None P_Work C_Want [m] []) False)"
    using run [OF 3 ip_green [OF _ p_put [of _ m ?f]]] by (simp add: mask_put_def GREEN_MASK_QUEUE_SIZE_def)
  have 5: "?R (?s (?t ?f (Some Com_Calculator) P_Work C_Hold [m] []) False)"
    using run [OF 4 ip_com [OF _ _ c_lock]] by simp
  have 6: "?R (?s (?t ?g None P_Work (C_Work m) [m] [m]) False)"
    using run [OF 5 ip_com [OF _ _ c_get [of _ m ?g]]] assms
    by (simp add: mask_get_def GREEN_MASK_QUEUE_SIZE_def)
  show ?thesis
    using run [OF 6 ip_exit [of _ None]] by (simp add: ended_state_def ended_threads_def)
qed

section \<open>Properties\<close>

text \<open>
  C28: \<open>stop_image_processor\<close> never returns: in every reachable state, under every schedule, with spurious
  wake-ups and whether or not the camera could be set up, one of its calls is still to come. If the centre of
  mass thread has obeyed the flag, the system comes to a standstill: at most 38 further steps are possible
  (without spurious wake-ups), and at most five masks are left in the queue, which nobody takes.
\<close>

theorem stop_never_returns:
  assumes "ip_reachable init s" "length init = GREEN_MASK_QUEUE_SIZE"
  shows "calls_left s \<noteq> []
     \<and> (com_ended s \<longrightarrow> green_thread s = G_Loop \<and> (\<forall>n t. (ip_step ^^ n) s t \<longrightarrow> n \<le> 38 \<and> calls_left t \<noteq> []))
     \<and> (\<exists>ms. sent (threads s) = received (threads s) @ ms \<and> length ms \<le> 5)"
proof -
  have inv: "ip_inv s" by (rule ip_reachable_inv [OF assms])
  have "n \<le> 38 \<and> calls_left t \<noteq> []" if "com_ended s" "(ip_step ^^ n) s t" for n t
    using ended_steps [OF that(2,1) inv] ip_rank_le [OF inv] stop_waits [of t] by simp
  moreover have "\<exists>ms. sent (threads s) = received (threads s) @ ms \<and> length ms \<le> 5"
    using inv mq.bounded [of "mqueue (threads s)"] by (auto simp: ip_inv_def queue_inv_def GREEN_MASK_QUEUE_SIZE_def)
  ultimately show ?thesis using stop_waits [OF inv] inv by (auto simp: ip_inv_def)
qed

theorem stop_never_returns_witness:
  "\<exists>s :: nat image_processor. ip_reachable [0, 0, 0, 0, 0] s \<and> com_ended s \<and> calls_left s \<noteq> []
     \<and> (\<forall>n t. (ip_step ^^ n) s t \<longrightarrow> n \<le> 38)"
proof -
  let ?i = "[0, 0, 0, 0, 0 :: nat]"
  have r: "ip_reachable ?i (ended_state ?i 1)" by (rule ended_reachable) simp
  have l: "length ?i = GREEN_MASK_QUEUE_SIZE" by (simp add: GREEN_MASK_QUEUE_SIZE_def)
  have e: "com_ended (ended_state ?i 1)" by (simp add: ended_state_def)
  from stop_never_returns [OF r l] r e show ?thesis by blast
qed

end
