(* ===== verification/Udp_Server.thy ===== *)
theory Udp_Server
  imports Prelude "HOL-Library.Multiset"
begin

text \<open>
  \<open>Image_Processor/src/udp_server.c\<close> (67-96): how a mask is split into numbered chunks for the debug
  viewer, and the viewer's reassembly (\<open>debug_video_master.py\<close> 36-51) as the decoder. The bytes of the
  header are in the order of the little endian targets. None is a Python exception. \<open>viewer_inv\<close> is what
  holds of the viewer at every moment of an unreliable network.
\<close>


definition CHUNK_DATA_SIZE :: nat where
  "CHUNK_DATA_SIZE = 1392"

definition bytes_u16 :: "u16 \<Rightarrow> u8 list" where
  "bytes_u16 w = [ucast w, ucast (drop_bit 8 w)]"

definition bytes_u32 :: "u32 \<Rightarrow> u8 list" where
  "bytes_u32 w = [ucast w, ucast (drop_bit 8 w), ucast (drop_bit 16 w), ucast (drop_bit 24 w)]"

definition total_chunks :: "nat \<Rightarrow> u16" where
  "total_chunks total_size = of_nat ((total_size + CHUNK_DATA_SIZE - 1) div CHUNK_DATA_SIZE)"

definition chunk_packet :: "u32 \<Rightarrow> u8 list \<Rightarrow> u16 \<Rightarrow> u8 list" where
  "chunk_packet frame_id data chunk_id =
     (let total_size = length data;
          offset = unat chunk_id * CHUNK_DATA_SIZE;
          chunk_size = (if offset + CHUNK_DATA_SIZE > total_size then total_size - offset else CHUNK_DATA_SIZE)
      in bytes_u32 frame_id @ bytes_u16 chunk_id @ bytes_u16 (total_chunks total_size)
         @ take chunk_size (drop offset data))"

definition udp_server_send_large :: "u32 \<Rightarrow> u8 list \<Rightarrow> u8 list list \<times> u32" where
  "udp_server_send_large frame_id data =
     (map (\<lambda>i. chunk_packet frame_id data (of_nat i)) [0..<unat (total_chunks (length data))], frame_id + 1)"

definition udp_server_send :: "'h option \<Rightarrow> u8 list \<Rightarrow> u8 list list" where
  "udp_server_send handler data = (case handler of None \<Rightarrow> [] | Some h \<Rightarrow> [data])"

definition debug_send_large :: "bool \<Rightarrow> u32 \<Rightarrow> u8 list \<Rightarrow> u8 list list \<times> u32" where
  "debug_send_large debug_video frame_id data =
     (if debug_video then udp_server_send_large frame_id data else ([], frame_id))"

fun send_frames :: "bool \<Rightarrow> u32 \<Rightarrow> u8 list list \<Rightarrow> u8 list list" where
  "send_frames debug_video frame_id [] = []"
| "send_frames debug_video frame_id (d # ds) =
     (let (packets, next_id) = debug_send_large debug_video frame_id d
      in packets @ send_frames debug_video next_id ds)"

section \<open>The viewer\<close>

record viewer =
  frames :: "u32 \<Rightarrow> (nat \<rightharpoonup> u8 list)"
  shown :: "(u32 \<times> u8 list) list"

definition unpack_u16 :: "u8 list \<Rightarrow> u16" where
  "unpack_u16 b = ucast (b ! 0) OR push_bit 8 (ucast (b ! 1))"

definition unpack_u32 :: "u8 list \<Rightarrow> u32" where
  "unpack_u32 b = ucast (b ! 0) OR push_bit 8 (ucast (b ! 1)) OR push_bit 16 (ucast (b ! 2)) OR push_bit 24 (ucast (b ! 3))"

definition assemble_frame :: "u8 list \<Rightarrow> viewer \<Rightarrow> viewer option" where
  "assemble_frame msg v =
     (if length msg < 8 then None
      else (let frame_id = unpack_u32 (take 4 msg);
                chunk_id = unat (unpack_u16 (take 2 (drop 4 msg)));
                total_chunks = unat (unpack_u16 (take 2 (drop 6 msg)));
                payload = drop 8 msg;
                chunks = (frames v frame_id)(chunk_id \<mapsto> payload);
                v = v\<lparr>frames := (frames v)(frame_id := chunks)\<rparr>
            in if card (dom chunks) = total_chunks
               then if list_all (\<lambda>i. chunks i \<noteq> None) [0..<total_chunks]
                    then Some (v\<lparr>frames := (frames v)(frame_id := Map.empty),
                                 shown := shown v @ [(frame_id, concat (map (\<lambda>i. the (chunks i)) [0..<total_chunks]))]\<rparr>)
                    else None
               else Some v))"

fun receive_frames :: "u8 list list \<Rightarrow> viewer \<Rightarrow> viewer option" where
  "receive_frames [] v = Some v"
| "receive_frames (msg # msgs) v =
     (case assemble_frame msg v of None \<Rightarrow> None | Some v' \<Rightarrow> receive_frames msgs v')"

lemma receive_frames_append:
  "receive_frames (ms @ [m]) v = (case receive_frames ms v of None \<Rightarrow> None | Some v' \<Rightarrow> assemble_frame m v')"
  by (induction ms arbitrary: v) (auto split: option.split)

section \<open>Packets\<close>

lemma unpack_bytes_u16: "unpack_u16 (bytes_u16 w) = w"
  unfolding unpack_u16_def bytes_u16_def by (rule bit_word_eqI) (auto simp: bit_simps)

lemma unpack_bytes_u32: "unpack_u32 (bytes_u32 w) = w"
  unfolding unpack_u32_def bytes_u32_def
proof (rule bit_word_eqI)
  fix n
  assume "n < LENGTH(32)"
  then consider "n < 8" | "8 \<le> n" "n < 16" | "16 \<le> n" "n < 24" | "24 \<le> n" "n < 32" by force
  then show "bit (ucast ([ucast w, ucast (drop_bit 8 w), ucast (drop_bit 16 w), ucast (drop_bit 24 w)] ! 0 :: u8) OR
      push_bit 8 (ucast ([ucast w, ucast (drop_bit 8 w), ucast (drop_bit 16 w), ucast (drop_bit 24 w)] ! 1 :: u8)) OR
      push_bit 16 (ucast ([ucast w, ucast (drop_bit 8 w), ucast (drop_bit 16 w), ucast (drop_bit 24 w)] ! 2 :: u8)) OR
      push_bit 24 (ucast ([ucast w, ucast (drop_bit 8 w), ucast (drop_bit 16 w), ucast (drop_bit 24 w)] ! 3 :: u8)) :: u32) n = bit w n"
    by cases (auto simp: bit_simps)
qed

lemma chunk_data:
  "take (if off + k > length d then length d - off else k) (drop off d) = take k (drop off d)"
  by auto

definition chunk :: "u8 list \<Rightarrow> nat \<Rightarrow> u8 list" where
  "chunk d i = take CHUNK_DATA_SIZE (drop (i * CHUNK_DATA_SIZE) d)"

definition chunks_of :: "nat \<Rightarrow> nat" where
  "chunks_of n = (n + CHUNK_DATA_SIZE - 1) div CHUNK_DATA_SIZE"

lemma concat_chunks: "concat (map (chunk d) [0..<n]) = take (n * CHUNK_DATA_SIZE) d"
proof (induction n)
  case (Suc n)
  have "take (Suc n * CHUNK_DATA_SIZE) d = take (n * CHUNK_DATA_SIZE) d @ chunk d n"
    using take_add [of "n * CHUNK_DATA_SIZE" CHUNK_DATA_SIZE d] by (simp add: chunk_def add.commute)
  with Suc show ?case by simp
qed simp

lemma chunks_cover: "length d \<le> chunks_of (length d) * CHUNK_DATA_SIZE"
proof -
  have "length d + 1391 < 1392 * ((length d + 1391) div 1392 + 1)" by simp
  then show ?thesis by (simp add: chunks_of_def CHUNK_DATA_SIZE_def)
qed

lemma chunk_packet_parts:
  fixes f :: u32 and d :: "u8 list" and i :: nat
  assumes "chunks_of (length d) < 65536" "i < chunks_of (length d)"
  defines "p \<equiv> chunk_packet f d (of_nat i)"
  shows "unpack_u32 (take 4 p) = f" "unat (unpack_u16 (take 2 (drop 4 p))) = i"
    "unat (unpack_u16 (take 2 (drop 6 p))) = chunks_of (length d)" "drop 8 p = chunk d i"
proof -
  have i: "unat (of_nat i :: u16) = i" using assms by (simp add: unat_of_nat)
  have n: "unat (total_chunks (length d)) = chunks_of (length d)"
    using assms(1) by (simp add: total_chunks_def chunks_of_def unat_of_nat)
  have p: "p = bytes_u32 f @ bytes_u16 (of_nat i) @ bytes_u16 (total_chunks (length d)) @ chunk d i"
    unfolding p_def chunk_packet_def Let_def i chunk_data chunk_def ..
  have l: "length (bytes_u32 f) = 4" "\<And>w. length (bytes_u16 w) = 2" by (simp_all add: bytes_u32_def bytes_u16_def)
  show "unpack_u32 (take 4 p) = f" "unat (unpack_u16 (take 2 (drop 4 p))) = i"
    "unat (unpack_u16 (take 2 (drop 6 p))) = chunks_of (length d)" "drop 8 p = chunk d i"
    using i n by (simp_all add: p l unpack_bytes_u16 unpack_bytes_u32)
qed

section \<open>Reassembly in any order\<close>

lemma assemble_packet:
  assumes "chunks_of (length d) < 65536" "i < chunks_of (length d)"
    and "chunks = (frames v f)(i \<mapsto> chunk d i)"
  shows "card (dom chunks) \<noteq> chunks_of (length d) \<Longrightarrow>
       assemble_frame (chunk_packet f d (of_nat i)) v = Some (v\<lparr>frames := (frames v)(f := chunks)\<rparr>)"
    and "card (dom chunks) = chunks_of (length d) \<Longrightarrow> dom chunks = {..<chunks_of (length d)} \<Longrightarrow>
       assemble_frame (chunk_packet f d (of_nat i)) v =
         Some (v\<lparr>frames := (frames v)(f := Map.empty),
                 shown := shown v @ [(f, concat (map (\<lambda>i. the (chunks i)) [0..<chunks_of (length d)]))]\<rparr>)"
proof -
  have l: "\<not> length (chunk_packet f d (of_nat i)) < 8"
    by (simp add: chunk_packet_def Let_def bytes_u32_def bytes_u16_def)
  have "list_all (\<lambda>i. chunks i \<noteq> None) [0..<n]" if "dom chunks = {..<n}" for n
    using that by (auto simp: list_all_iff dom_def)
  then show "card (dom chunks) \<noteq> chunks_of (length d) \<Longrightarrow>
       assemble_frame (chunk_packet f d (of_nat i)) v = Some (v\<lparr>frames := (frames v)(f := chunks)\<rparr>)"
    "card (dom chunks) = chunks_of (length d) \<Longrightarrow> dom chunks = {..<chunks_of (length d)} \<Longrightarrow>
       assemble_frame (chunk_packet f d (of_nat i)) v =
         Some (v\<lparr>frames := (frames v)(f := Map.empty),
                 shown := shown v @ [(f, concat (map (\<lambda>i. the (chunks i)) [0..<chunks_of (length d)]))]\<rparr>)"
    unfolding assemble_frame_def Let_def chunk_packet_parts [OF assms(1,2)] assms(3) [symmetric]
    using l by (simp_all del: fun_upd_apply)
qed

definition partial_frame :: "u8 list \<Rightarrow> nat set \<Rightarrow> nat \<rightharpoonup> u8 list" where
  "partial_frame d I = (\<lambda>i. if i \<in> I then Some (chunk d i) else None)"

lemma dom_partial_frame [simp]: "dom (partial_frame d I) = I"
  by (auto simp: partial_frame_def dom_def split: if_splits)

lemma partial_frame_insert: "(partial_frame d I)(i \<mapsto> chunk d i) = partial_frame d (insert i I)"
  by (auto simp: partial_frame_def)

lemma partial_frame_empty: "partial_frame d {} = Map.empty"
  by (simp add: partial_frame_def)

lemma assemble_some:
  assumes "chunks_of (length d) < 65536" "distinct js" "set js \<subset> {..<chunks_of (length d)}"
    and "frames v f = Map.empty"
  shows "receive_frames (map (\<lambda>i. chunk_packet f d (of_nat i)) js) v =
     Some (v\<lparr>frames := (frames v)(f := partial_frame d (set js))\<rparr>)"
  using assms(2-4)
proof (induction js rule: rev_induct)
  case Nil
  have "(frames v)(f := Map.empty) = frames v" using Nil.prems(3) by (auto simp: fun_eq_iff)
  then show ?case by (simp add: partial_frame_empty)
next
  case (snoc i js)
  let ?n = "chunks_of (length d)" and ?v = "v\<lparr>frames := (frames v)(f := partial_frame d (set js))\<rparr>"
  have sub: "set js \<subset> {..<?n}" and i: "i < ?n" and dist: "distinct js" using snoc.prems by auto
  have c: "partial_frame d (set (js @ [i])) = (frames ?v f)(i \<mapsto> chunk d i)"
    by (simp add: partial_frame_insert)
  have "card (set (js @ [i])) < ?n" using psubset_card_mono [OF finite_lessThan snoc.prems(2)] by simp
  then have ne: "card (dom (partial_frame d (set (js @ [i])))) \<noteq> ?n" by simp
  show ?case
    using snoc.IH [OF dist sub snoc.prems(3)] assemble_packet(1) [OF assms(1) i c ne]
    by (simp add: receive_frames_append del: fun_upd_apply)
qed

lemma assemble_all:
  assumes "chunks_of (length d) < 65536" "distinct js" "set js = {..<chunks_of (length d)}" "d \<noteq> []"
    and "frames v f = Map.empty"
  shows "receive_frames (map (\<lambda>i. chunk_packet f d (of_nat i)) js) v = Some (v\<lparr>shown := shown v @ [(f, d)]\<rparr>)"
proof -
  let ?n = "chunks_of (length d)"
  have "0 < ?n" using assms(4) chunks_cover [of d] by (cases ?n) auto
  then obtain ks i where js: "js = ks @ [i]" using assms(3) by (cases js rule: rev_cases) auto
  then have i: "i < ?n" and sub: "set ks \<subset> {..<?n}" and dist: "distinct ks"
    using assms(2,3) by auto
  let ?v = "v\<lparr>frames := (frames v)(f := partial_frame d (set ks))\<rparr>"
  have c: "partial_frame d {..<?n} = (frames ?v f)(i \<mapsto> chunk d i)"
    using assms(3) by (simp add: partial_frame_insert js)
  have "concat (map (\<lambda>i. the (partial_frame d {..<?n} i)) [0..<?n]) = concat (map (chunk d) [0..<?n])"
    by (intro arg_cong [where f = concat] map_cong) (auto simp: partial_frame_def)
  also have "\<dots> = d" using concat_chunks [of d ?n] chunks_cover [of d] by simp
  finally have d: "concat (map (\<lambda>i. the (partial_frame d {..<?n} i)) [0..<?n]) = d" .
  have f0: "(frames v)(f := Map.empty) = frames v" using assms(5) by (auto simp: fun_eq_iff)
  show ?thesis
    using assemble_some [OF assms(1) dist sub assms(5)] assemble_packet(2) [OF assms(1) i c] d f0
    by (simp add: js receive_frames_append del: fun_upd_apply)
qed

section \<open>Loss, duplication and interleaving\<close>

lemma total_chunks_unat: "chunks_of n < 65536 \<Longrightarrow> unat (total_chunks n) = chunks_of n"
  by (simp add: total_chunks_def chunks_of_def unat_of_nat)

lemma chunks_small: "n \<le> 65535 * CHUNK_DATA_SIZE \<Longrightarrow> chunks_of n < 65536"
  by (simp add: chunks_of_def CHUNK_DATA_SIZE_def)

lemma sent_packets:
  assumes "chunks_of (length d) < 65536"
  shows "set (fst (udp_server_send_large f d)) = {chunk_packet f d (of_nat i) | i. i < chunks_of (length d)}"
  using total_chunks_unat [OF assms] by (auto simp: udp_server_send_large_def)

lemma length_chunk_packet: "length (chunk_packet f d i) \<le> CHUNK_DATA_SIZE + 8"
  by (auto simp: chunk_packet_def Let_def bytes_u32_def bytes_u16_def)

lemma chunk_packet_inj:
  assumes "chunk_packet f d (of_nat i) = chunk_packet g e (of_nat j)"
    and "chunks_of (length d) < 65536" "i < chunks_of (length d)" "chunks_of (length e) < 65536" "j < chunks_of (length e)"
  shows "f = g" "i = j"
  using chunk_packet_parts(1,2) [OF assms(2,3), of f] chunk_packet_parts(1,2) [OF assms(4,5), of g] assms(1) by simp_all

definition arrived :: "(u32 \<Rightarrow> u8 list) \<Rightarrow> u32 \<Rightarrow> u8 list list \<Rightarrow> nat set" where
  "arrived F f ps = {i. i < chunks_of (length (F f)) \<and> chunk_packet f (F f) (of_nat i) \<in> set ps}"

definition viewer_inv :: "(u32 \<Rightarrow> u8 list) \<Rightarrow> u8 list list \<Rightarrow> viewer \<Rightarrow> bool" where
  "viewer_inv F ps v \<longleftrightarrow>
     (\<forall>f d. (f, d) \<in> set (shown v) \<longrightarrow> d = F f \<and> F f \<noteq> [])
     \<and> (\<forall>f. \<exists>I. frames v f = partial_frame (F f) I \<and> (I = {} \<or> I \<subset> {..<chunks_of (length (F f))})
          \<and> ((f, F f) \<in> set (shown v) \<or> I = arrived F f ps))"

lemma viewer_inv_start: "viewer_inv F [] \<lparr>frames = (\<lambda>f. Map.empty), shown = []\<rparr>"
  by (auto simp: viewer_inv_def arrived_def partial_frame_empty intro!: exI [of _ "{}"])

lemma arrived_snoc:
  assumes "\<forall>f. chunks_of (length (F f)) < 65536" "i < chunks_of (length (F g))"
  shows "arrived F f (ps @ [chunk_packet g (F g) (of_nat i)]) = (if f = g then insert i (arrived F f ps) else arrived F f ps)"
proof -
  have "chunk_packet f (F f) (of_nat j) = chunk_packet g (F g) (of_nat i) \<longleftrightarrow> f = g \<and> j = i"
    if "j < chunks_of (length (F f))" for j
    using that assms chunk_packet_inj [of f "F f" j g "F g" i] by blast
  then have "j \<in> arrived F f (ps @ [chunk_packet g (F g) (of_nat i)]) \<longleftrightarrow> j \<in> arrived F f ps \<or> f = g \<and> j = i" for j
    unfolding arrived_def using assms(2) by auto
  then show ?thesis by auto
qed

lemma chunks_of_frame:
  "concat (map (\<lambda>i. the (partial_frame d {..<chunks_of (length d)} i)) [0..<chunks_of (length d)]) = d"
proof -
  have "concat (map (\<lambda>i. the (partial_frame d {..<chunks_of (length d)} i)) [0..<chunks_of (length d)])
      = concat (map (chunk d) [0..<chunks_of (length d)])"
    by (intro arg_cong [where f = concat] map_cong) (auto simp: partial_frame_def)
  then show ?thesis using concat_chunks [of d "chunks_of (length d)"] chunks_cover [of d] by simp
qed

lemma viewer_inv_packet:
  assumes small: "\<forall>f. chunks_of (length (F f)) < 65536" and i: "i < chunks_of (length (F g))"
    and inv: "viewer_inv F ps v"
  shows "\<exists>v'. assemble_frame (chunk_packet g (F g) (of_nat i)) v = Some v'
     \<and> viewer_inv F (ps @ [chunk_packet g (F g) (of_nat i)]) v'"
proof -
  let ?n = "chunks_of (length (F g))" and ?p = "chunk_packet g (F g) (of_nat i)"
  have n: "?n < 65536" using small by blast
  obtain I where I: "frames v g = partial_frame (F g) I" "I = {} \<or> I \<subset> {..<?n}"
    "(g, F g) \<in> set (shown v) \<or> I = arrived F g ps"
    using inv unfolding viewer_inv_def by blast
  have c: "partial_frame (F g) (insert i I) = (frames v g)(i \<mapsto> chunk (F g) i)"
    by (simp add: I(1) partial_frame_insert)
  have sub: "insert i I \<subseteq> {..<?n}" using I(2) i by auto
  note rest = inv [unfolded viewer_inv_def, THEN conjunct2, rule_format]
  show ?thesis
  proof (cases "card (insert i I) = ?n")
    case False
    then have ps: "insert i I \<subset> {..<?n}" using sub by auto
    let ?v = "v\<lparr>frames := (frames v)(g := partial_frame (F g) (insert i I))\<rparr>"
    have a: "assemble_frame ?p v = Some ?v"
      using assemble_packet(1) [OF n i c] False by (simp del: fun_upd_apply)
    have "\<exists>J. frames ?v f = partial_frame (F f) J \<and> (J = {} \<or> J \<subset> {..<chunks_of (length (F f))})
        \<and> ((f, F f) \<in> set (shown ?v) \<or> J = arrived F f (ps @ [?p]))" for f
      using rest [of f] ps I(3) arrived_snoc [OF small i, of f ps]
      by (cases "f = g") (auto intro!: exI [of _ "insert i I"])
    moreover have "\<forall>f d. (f, d) \<in> set (shown ?v) \<longrightarrow> d = F f \<and> F f \<noteq> []"
      using inv unfolding viewer_inv_def by (auto dest!: spec)
    ultimately show ?thesis using a unfolding viewer_inv_def by blast
  next
    case True
    then have all: "insert i I = {..<?n}" using sub by (intro card_subset_eq) simp_all
    let ?v = "v\<lparr>frames := (frames v)(g := Map.empty), shown := shown v @ [(g, F g)]\<rparr>"
    have a: "assemble_frame ?p v = Some ?v"
      using assemble_packet(2) [OF n i c] True all chunks_of_frame [of "F g"] by (simp del: fun_upd_apply)
    have "\<exists>J. frames ?v f = partial_frame (F f) J \<and> (J = {} \<or> J \<subset> {..<chunks_of (length (F f))})
        \<and> ((f, F f) \<in> set (shown ?v) \<or> J = arrived F f (ps @ [?p]))" for f
      using rest [of f] arrived_snoc [OF small i, of f ps]
      by (cases "f = g") (auto simp: partial_frame_empty intro!: exI [of _ "{}"])
    moreover have "F g \<noteq> []" using i by (auto simp: chunks_of_def CHUNK_DATA_SIZE_def)
    then have "\<forall>f d. (f, d) \<in> set (shown ?v) \<longrightarrow> d = F f \<and> F f \<noteq> []"
      using inv unfolding viewer_inv_def by (auto dest!: spec)
    ultimately show ?thesis using a unfolding viewer_inv_def by blast
  qed
qed

lemma viewer_inv_run:
  assumes "\<forall>f. chunks_of (length (F f)) < 65536" "\<forall>p \<in> set ps. \<exists>f. p \<in> set (fst (udp_server_send_large f (F f)))"
  shows "\<exists>v. receive_frames ps \<lparr>frames = (\<lambda>f. Map.empty), shown = []\<rparr> = Some v \<and> viewer_inv F ps v"
  using assms(2)
proof (induction ps rule: rev_induct)
  case Nil
  then show ?case using viewer_inv_start by simp
next
  case (snoc p ps)
  then obtain v where v: "receive_frames ps \<lparr>frames = (\<lambda>f. Map.empty), shown = []\<rparr> = Some v" "viewer_inv F ps v" by auto
  obtain f where "p \<in> set (fst (udp_server_send_large f (F f)))" using snoc.prems by auto
  then obtain i where i: "p = chunk_packet f (F f) (of_nat i)" "i < chunks_of (length (F f))"
    using sent_packets assms(1) by blast
  from viewer_inv_packet [OF assms(1) i(2) v(2)] show ?case using v(1) by (auto simp: i(1) receive_frames_append)
qed

lemma viewer_inv_shown:
  assumes "viewer_inv F ps v" "F f \<noteq> []" "chunks_of (length (F f)) < 65536"
    and "set (fst (udp_server_send_large f (F f))) \<subseteq> set ps"
  shows "(f, F f) \<in> set (shown v)"
proof (rule ccontr)
  assume "(f, F f) \<notin> set (shown v)"
  then have sub: "arrived F f ps = {} \<or> arrived F f ps \<subset> {..<chunks_of (length (F f))}"
    using assms(1) unfolding viewer_inv_def by metis
  have "arrived F f ps = {..<chunks_of (length (F f))}"
    using assms(4) unfolding sent_packets [OF assms(3)] arrived_def by auto
  moreover have "0 < chunks_of (length (F f))" using assms(2) chunks_cover [of "F f"] by (cases "chunks_of (length (F f))") auto
  ultimately show False using sub by auto
qed

section \<open>The frames of one run\<close>

lemma send_frames_on:
  "send_frames True f (d # ds) = fst (udp_server_send_large f d) @ send_frames True (f + 1) ds"
  by (simp add: debug_send_large_def udp_server_send_large_def)

lemma send_frames_off: "send_frames False f ds = []"
  by (induction ds) (simp_all add: debug_send_large_def)

lemma send_frames_packets:
  "set (send_frames True f ds) = (\<Union>k < length ds. set (fst (udp_server_send_large (f + of_nat k) (ds ! k))))"
proof (induction ds arbitrary: f)
  case (Cons d ds)
  have "(\<Union>k < length (d # ds). set (fst (udp_server_send_large (f + of_nat k) ((d # ds) ! k))))
      = set (fst (udp_server_send_large f d)) \<union> (\<Union>k < length ds. set (fst (udp_server_send_large (f + 1 + of_nat k) (ds ! k))))"
    by (simp add: lessThan_Suc_eq_insert_0 image_image add.assoc)
  then show ?case unfolding send_frames_on set_append Cons.IH by simp
qed simp

definition frame_of :: "u32 \<Rightarrow> u8 list list \<Rightarrow> u32 \<Rightarrow> u8 list" where
  "frame_of f ds n = (if unat (n - f) < length ds then ds ! unat (n - f) else [])"

lemma frame_of_nth: "length ds \<le> 2 ^ 32 \<Longrightarrow> k < length ds \<Longrightarrow> frame_of f ds (f + of_nat k) = ds ! k"
  by (simp add: frame_of_def unat_of_nat)

lemma frame_of_some:
  assumes "frame_of f ds n \<noteq> []"
  shows "\<exists>k < length ds. n = f + of_nat k \<and> frame_of f ds n = ds ! k"
  using assms by (intro exI [of _ "unat (n - f)"]) (auto simp: frame_of_def split: if_splits)

lemma viewer_sent:
  assumes "set packets \<subseteq> set (send_frames True f ds)" "length ds \<le> 2 ^ 32"
    and "\<forall>d \<in> set ds. length d \<le> 65535 * CHUNK_DATA_SIZE"
  shows "\<exists>v. receive_frames packets \<lparr>frames = (\<lambda>f. Map.empty), shown = []\<rparr> = Some v
        \<and> (\<forall>n d. (n, d) \<in> set (shown v) \<longrightarrow> (\<exists>k < length ds. n = f + of_nat k \<and> d = ds ! k))
        \<and> (\<forall>k < length ds. ds ! k \<noteq> [] \<longrightarrow>
              set (fst (udp_server_send_large (f + of_nat k) (ds ! k))) \<subseteq> set packets \<longrightarrow>
              (f + of_nat k, ds ! k) \<in> set (shown v))
        \<and> (\<forall>p \<in> set packets. length p \<le> 1400)"
proof -
  let ?F = "frame_of f ds"
  note nth = frame_of_nth [OF assms(2)]
  have "length (?F n) \<le> 65535 * CHUNK_DATA_SIZE" for n
    using assms(3) by (simp add: frame_of_def)
  then have small: "\<forall>n. chunks_of (length (?F n)) < 65536"
    by (intro allI chunks_small)
  have sent: "\<exists>k < length ds. p \<in> set (fst (udp_server_send_large (f + of_nat k) (?F (f + of_nat k))))"
    if p: "p \<in> set packets" for p
  proof -
    obtain k where "k < length ds" "p \<in> set (fst (udp_server_send_large (f + of_nat k) (ds ! k)))"
      using subsetD [OF assms(1) p] unfolding send_frames_packets by blast
    then show ?thesis using nth [of k] by (intro exI [of _ k]) simp
  qed
  obtain v where v: "receive_frames packets \<lparr>frames = (\<lambda>f. Map.empty), shown = []\<rparr> = Some v" "viewer_inv ?F packets v"
    using viewer_inv_run [OF small] sent by blast
  have "length p \<le> 1400" if p: "p \<in> set packets" for p
  proof -
    obtain n where "p \<in> set (fst (udp_server_send_large n (?F n)))" using sent [OF p] by blast
    then obtain i where "p = chunk_packet n (?F n) (of_nat i)"
      unfolding sent_packets [OF small [rule_format, of n]] by blast
    then show ?thesis using length_chunk_packet [of n "?F n" "of_nat i"] by (simp add: CHUNK_DATA_SIZE_def)
  qed
  moreover have "(f + of_nat k, ds ! k) \<in> set (shown v)"
    if "k < length ds" "ds ! k \<noteq> []" "set (fst (udp_server_send_large (f + of_nat k) (ds ! k))) \<subseteq> set packets" for k
    using viewer_inv_shown [OF v(2) _ small [rule_format], of "f + of_nat k"] that unfolding nth [OF that(1)] by blast
  moreover have "\<exists>k < length ds. n = f + of_nat k \<and> d = ds ! k" if s: "(n, d) \<in> set (shown v)" for n d
  proof -
    from v(2) s have "d = ?F n" "?F n \<noteq> []" unfolding viewer_inv_def by blast+
    then show ?thesis using frame_of_some [of f ds n] by simp
  qed
  ultimately show ?thesis using v(1) by simp
qed

lemma mset_map_image: "mset ps = mset (map g xs) \<Longrightarrow> \<exists>js. mset js = mset xs \<and> ps = map g js"
proof (induction xs arbitrary: ps)
  case (Cons x xs)
  then have "g x \<in># mset ps" by simp
  then obtain as bs where ps: "ps = as @ g x # bs" using split_list by fastforce
  with Cons.prems have "mset (as @ bs) = mset (map g xs)" by simp
  from Cons.IH [OF this] obtain js where js: "mset js = mset xs" "as @ bs = map g js" by blast
  let ?k = "length as"
  have "as = map g (take ?k js)" "bs = map g (drop ?k js)"
    using arg_cong [OF js(2), of "take ?k"] arg_cong [OF js(2), of "drop ?k"] by (simp_all add: take_map drop_map)
  then have "ps = map g (take ?k js @ x # drop ?k js)" by (simp add: ps)
  moreover have "mset (take ?k js @ x # drop ?k js) = mset (x # xs)"
    using js(1) by (metis append_take_drop_id mset.simps(2) mset_append union_mset_add_mset_right)
  ultimately show ?case by blast
qed simp

section \<open>Properties\<close>

text \<open>
  C24: a buffer of up to 65535 chunks that is sent in chunks is shown by the viewer exactly once and
  unchanged, in whatever order its packets arrive.
\<close>

theorem udp_frame_roundtrip:
  assumes "mset packets = mset (fst (udp_server_send_large f d))" "d \<noteq> []"
    and "length d \<le> 65535 * CHUNK_DATA_SIZE" "frames v f = Map.empty"
  shows "receive_frames packets v = Some (v\<lparr>shown := shown v @ [(f, d)]\<rparr>)"
proof -
  let ?n = "chunks_of (length d)"
  have n: "?n < 65536" using assms(3) by (simp add: chunks_of_def CHUNK_DATA_SIZE_def)
  then have "unat (total_chunks (length d)) = ?n"
    by (simp add: total_chunks_def chunks_of_def unat_of_nat)
  with assms(1) have "mset packets = mset (map (\<lambda>i. chunk_packet f d (of_nat i)) [0..<?n])"
    by (simp add: udp_server_send_large_def)
  from mset_map_image [OF this] obtain js
    where js: "mset js = mset [0..<?n]" "packets = map (\<lambda>i. chunk_packet f d (of_nat i)) js" by blast
  have "distinct js" "set js = {..<?n}"
    using js(1) mset_eq_setD [OF js(1)] mset_eq_imp_distinct_iff [OF js(1)] by (simp_all add: lessThan_atLeast0)
  from assemble_all [OF n this assms(2,4)] show ?thesis by (simp add: js(2))
qed

theorem udp_frame_roundtrip_witness:
  "receive_frames (rev (fst (udp_server_send_large 7 (replicate 3000 1)))) \<lparr>frames = (\<lambda>f. Map.empty), shown = []\<rparr>
     = Some \<lparr>frames = (\<lambda>f. Map.empty), shown = [(7, replicate 3000 1)]\<rparr>"
  using udp_frame_roundtrip [of "rev (fst (udp_server_send_large 7 (replicate 3000 1)))" 7 "replicate 3000 1"
      "\<lparr>frames = (\<lambda>f. Map.empty), shown = []\<rparr>"]
  by (simp add: CHUNK_DATA_SIZE_def)

text \<open>
  C23: whatever the network does to the packets of a run with debugging on (up to 2^32 masks), losing,
  repeating, reordering and interleaving them, the viewer never fails, shows nothing but masks that were sent,
  complete, unchanged and under their own number, and shows every mask all packets of which arrive; no
  packet is longer than 1400 bytes.
\<close>

theorem viewer_shows_sent:
  assumes "set packets \<subseteq> set (send_frames True f ds)" "length ds \<le> 2 ^ 32"
    and "\<forall>d \<in> set ds. length d \<le> 65535 * CHUNK_DATA_SIZE"
  shows "case receive_frames packets \<lparr>frames = (\<lambda>f. Map.empty), shown = []\<rparr> of
      None \<Rightarrow> False
    | Some v \<Rightarrow>
        (\<forall>n d. (n, d) \<in> set (shown v) \<longrightarrow> (\<exists>k < length ds. n = f + of_nat k \<and> d = ds ! k))
        \<and> (\<forall>k < length ds. ds ! k \<noteq> [] \<longrightarrow>
              set (fst (udp_server_send_large (f + of_nat k) (ds ! k))) \<subseteq> set packets \<longrightarrow>
              (f + of_nat k, ds ! k) \<in> set (shown v))
        \<and> (\<forall>p \<in> set packets. length p \<le> 1400)"
  using viewer_sent [OF assms] by (elim exE conjE) simp

theorem viewer_shows_sent_witness:
  "let ds = [replicate 1500 1, replicate 1400 0];
       packets = [chunk_packet 1 (ds ! 1) 1, chunk_packet 0 (ds ! 0) 1, chunk_packet 1 (ds ! 1) 1, chunk_packet 0 (ds ! 0) 0]
   in \<exists>v. receive_frames packets \<lparr>frames = (\<lambda>f. Map.empty), shown = []\<rparr> = Some v
        \<and> (0, ds ! 0) \<in> set (shown v)"
proof -
  define d e :: "u8 list" where "d = replicate 1500 1" and "e = replicate 1400 0"
  define ps where "ps = [chunk_packet 1 e 1, chunk_packet 0 d 1, chunk_packet 1 e 1, chunk_packet 0 d 0]"
  have l: "length d = 1500" "length e = 1400" by (simp_all add: d_def e_def)
  have n: "unat (total_chunks 1500) = 2" "unat (total_chunks 1400) = 2"
    by (simp_all add: total_chunks_def CHUNK_DATA_SIZE_def)
  have two: "[0..<2] = [0, 1 :: nat]" by (simp add: upt_rec)
  have sent: "fst (udp_server_send_large 0 d) = [chunk_packet 0 d 0, chunk_packet 0 d 1]"
    "fst (udp_server_send_large 1 e) = [chunk_packet 1 e 0, chunk_packet 1 e 1]"
    by (simp_all add: udp_server_send_large_def l n two)
  have "set ps \<subseteq> set (send_frames True 0 [d, e])"
    unfolding send_frames_on by (simp add: sent ps_def)
  moreover have "\<forall>d \<in> set [d, e]. length d \<le> 65535 * CHUNK_DATA_SIZE" by (simp add: CHUNK_DATA_SIZE_def l)
  moreover have "set (fst (udp_server_send_large 0 d)) \<subseteq> set ps" "d \<noteq> []" using l unfolding sent ps_def by auto
  ultimately have "\<exists>v. receive_frames ps \<lparr>frames = (\<lambda>f. Map.empty), shown = []\<rparr> = Some v \<and> (0, d) \<in> set (shown v)"
    using viewer_shows_sent [of ps 0 "[d, e]"]
    by (auto split: option.splits simp del: send_frames.simps dest!: spec [where x = "0 :: nat"])
  then show ?thesis by (simp only: ps_def d_def e_def Let_def nth_Cons_0 nth_Cons_Suc One_nat_def)
qed

end
