(* ===== verification/Camera_Thread.thy ===== *)
theory Camera_Thread
  imports Startup Green_Frame Udp_Server
begin

text \<open>
  The whole green mask thread (green_mask.c:178-324): priority, camera pipeline, debug socket, and the loop
  over what the camera delivers, with the masks it puts into the queue and the packets it passes to
  \<open>sendto\<close>; and the picture the debug viewer makes of a frame (\<open>debug_video_master.py\<close> 20-22, None is the
  exception it catches), without the circle it draws at the centre of mass. \<open>camera_loop\<close> is the loop of
  \<open>green_mask_run\<close> with its debug output.
\<close>


definition mask_bytes :: "nat \<Rightarrow> nat \<Rightarrow> mask \<Rightarrow> u8 list" where
  "mask_bytes H W m = concat (map (\<lambda>y. map (m y) [0..<W]) [0..<H])"

fun camera_loop ::
    "nat \<Rightarrow> nat \<Rightarrow> bool \<Rightarrow> camera_event list \<Rightarrow> mask_buffers \<Rightarrow> u32 \<Rightarrow> (mask list \<times> u8 list list) option" where
  "camera_loop H W debug_video [] s frame_id = Some ([], [])"
| "camera_loop H W debug_video (e # es) s frame_id =
     (case green_mask_iteration H W e s of
        None \<Rightarrow> None
      | Some (s', out) \<Rightarrow>
          (let (packets, next_id) =
                 (case e of Frame data \<Rightarrow> debug_send_large debug_video frame_id (mask_bytes H W (green_mask s'))
                  | _ \<Rightarrow> ([], frame_id))
           in case camera_loop H W debug_video es s' next_id of
                None \<Rightarrow> None
              | Some (ms, ps) \<Rightarrow>
                  Some (case out of None \<Rightarrow> ms | Some m \<Rightarrow> m # ms, packets @ ps)))"

record 'a camera_run =
  begin_calls :: "start_call list"
  gst_calls :: "gst_call list"
  handler :: "'a udp_handler"
  udp_calls :: "udp_call list"
  queued :: "mask list"
  datagrams :: "u8 list list"

definition green_mask_thread ::
    "platform \<Rightarrow> int \<Rightarrow> (string \<Rightarrow> bool) \<Rightarrow> bool \<Rightarrow> bool \<Rightarrow> bool \<Rightarrow> int \<Rightarrow> int \<Rightarrow> 'a \<Rightarrow> 'a udp_handler
     \<Rightarrow> camera_event list \<Rightarrow> mask_buffers \<Rightarrow> 'a camera_run option" where
  "green_mask_thread p ret made linked playing debug_video fd bound client h es s =
     (let begin = thread_begin Producer_Thread ret
      in case gst_setup p made linked playing of (ok, gst) \<Rightarrow>
           if \<not> ok
           then Some \<lparr>begin_calls = begin, gst_calls = gst, handler = h, udp_calls = [], queued = [], datagrams = []\<rparr>
           else
             (case debug_server debug_video Producer_Thread fd bound client h of (h, udp) \<Rightarrow>
                case camera_loop HEIGHT WIDTH debug_video es s 0 of
                  None \<Rightarrow> None
                | Some (ms, ps) \<Rightarrow>
                    Some \<lparr>begin_calls = begin, gst_calls = gst, handler = h, udp_calls = udp, queued = ms, datagrams = ps\<rparr>))"

section \<open>The picture of the viewer\<close>

definition show_frame :: "u8 list \<Rightarrow> u8 image option" where
  "show_frame data =
     (if length data = 480 * 640 then Some (\<lambda>y x. data ! (y * 640 + x) * 255) else None)"

lemma length_mask_bytes: "length (mask_bytes H W m) = H * W"
  by (simp add: mask_bytes_def length_concat comp_def sum_list_triv)

lemma mask_bytes_nth: "y < H \<Longrightarrow> x < W \<Longrightarrow> mask_bytes H W m ! (y * W + x) = m y x"
proof (induction H)
  case (Suc H)
  have s: "mask_bytes (Suc H) W m = mask_bytes H W m @ map (m H) [0..<W]" by (simp add: mask_bytes_def)
  show ?case
  proof (cases "y < H")
    case True
    then have "Suc y * W \<le> H * W" by (intro mult_le_mono1) simp
    then have "y * W + x < H * W" using Suc.prems(2) by simp
    with True show ?thesis using Suc by (simp add: s nth_append length_mask_bytes)
  next
    case False
    then show ?thesis using Suc.prems by (simp add: s nth_append length_mask_bytes less_Suc_eq)
  qed
qed simp

lemma show_mask:
  "\<exists>im. show_frame (mask_bytes HEIGHT WIDTH m) = Some im \<and> (\<forall>y < HEIGHT. \<forall>x < WIDTH. im y x = m y x * 255)"
  using mask_bytes_nth [where m = m and H = HEIGHT and W = WIDTH]
  by (simp add: show_frame_def length_mask_bytes HEIGHT_def WIDTH_def)

section \<open>The loop\<close>

lemma green_mask_iteration_some: "\<exists>s' out. green_mask_iteration H W e s = Some (s', out)"
  using process_frame_result [of H W _ s]
  by (cases e) (auto simp: green_mask_iteration_def split: option.split, metis option.distinct(1))

lemma green_mask_run_some: "\<exists>ms. green_mask_run H W es s = Some ms"
proof (induction es arbitrary: s)
  case (Cons e es)
  obtain s' out where "green_mask_iteration H W e s = Some (s', out)" using green_mask_iteration_some by blast
  then show ?case using Cons.IH [of s'] by auto
qed simp

lemma camera_loop_masks:
  "map_option fst (camera_loop H W debug_video es s n) = green_mask_run H W es s"
proof (induction es arbitrary: s n)
  case (Cons e es)
  obtain s' out where i: "green_mask_iteration H W e s = Some (s', out)" using green_mask_iteration_some by blast
  obtain ps k where k: "(case e of Frame data \<Rightarrow> debug_send_large debug_video n (mask_bytes H W (green_mask s'))
      | _ \<Rightarrow> ([], n)) = (ps, k)" by fastforce
  show ?case using Cons.IH [of s' k, symmetric]
    by (simp add: i k split: option.split prod.split)
qed simp

lemma camera_loop_packets:
  assumes "camera_loop H W debug_video es s n = Some (ms, ps)"
  shows "\<exists>ds. ps = send_frames debug_video n (map (mask_bytes H W) ds) \<and> set ds \<subseteq> set ms \<and> length ds \<le> length es"
  using assms
proof (induction es arbitrary: s n ms ps)
  case (Cons e es)
  obtain s' out where i: "green_mask_iteration H W e s = Some (s', out)" using green_mask_iteration_some by blast
  show ?case
  proof (cases e)
    case (Frame data)
    obtain qs k where k: "debug_send_large debug_video n (mask_bytes H W (green_mask s')) = (qs, k)" by fastforce
    have out: "out = Some (green_mask s')" using i by (auto simp: Frame green_mask_iteration_def split: option.splits)
    obtain ms' ps' where l: "camera_loop H W debug_video es s' k = Some (ms', ps')"
      and m: "ms = green_mask s' # ms'" "ps = qs @ ps'"
      using Cons.prems by (auto simp: i [unfolded Frame] k Frame out split: option.splits)
    from Cons.IH [OF l] obtain ds where "ps' = send_frames debug_video k (map (mask_bytes H W) ds)" "set ds \<subseteq> set ms'"
      "length ds \<le> length es" by blast
    then show ?thesis by (intro exI [of _ "green_mask s' # ds"]) (auto simp: m k)
  qed (use Cons.prems Cons.IH in \<open>fastforce simp: i split: option.splits\<close>)+
qed simp

lemma camera_loop_some: "camera_loop H W debug_video es s n \<noteq> None"
  using camera_loop_masks [of H W debug_video es s n] green_mask_run_some [of H W es s] by auto

lemma camera_loop_silent: "camera_loop H W False es s n = Some (ms, ps) \<Longrightarrow> ps = []"
  using camera_loop_packets [of H W False es s n ms ps] send_frames_off by metis

lemma camera_loop_viewed:
  assumes l: "camera_loop HEIGHT WIDTH debug_video es s 0 = Some (ms, ps)" and n: "length es \<le> 2 ^ 32"
    and received: "set received \<subseteq> set ps"
  shows "\<exists>v. receive_frames received \<lparr>frames = (\<lambda>f. Map.empty), shown = []\<rparr> = Some v
      \<and> (\<forall>n d. (n, d) \<in> set (shown v) \<longrightarrow>
           (\<exists>m \<in> set ms. \<exists>im. show_frame d = Some im \<and> (\<forall>y < HEIGHT. \<forall>x < WIDTH. im y x = m y x * 255)))"
proof -
  obtain ds where ds: "ps = send_frames debug_video 0 (map (mask_bytes HEIGHT WIDTH) ds)" "set ds \<subseteq> set ms"
    "length ds \<le> length es" using camera_loop_packets [OF l] by blast
  have "set ps \<subseteq> set (send_frames True 0 (map (mask_bytes HEIGHT WIDTH) ds))"
    using send_frames_off by (cases debug_video) (simp_all add: ds(1))
  then have "set received \<subseteq> set (send_frames True 0 (map (mask_bytes HEIGHT WIDTH) ds))" using received by blast
  moreover have "length (map (mask_bytes HEIGHT WIDTH) ds) \<le> 2 ^ 32" using ds(3) n by simp
  moreover have "\<forall>d \<in> set (map (mask_bytes HEIGHT WIDTH) ds). length d \<le> 65535 * CHUNK_DATA_SIZE"
    by (auto simp: length_mask_bytes HEIGHT_def WIDTH_def CHUNK_DATA_SIZE_def)
  ultimately obtain v where v: "receive_frames received \<lparr>frames = (\<lambda>f. Map.empty), shown = []\<rparr> = Some v"
    "\<forall>n d. (n, d) \<in> set (shown v) \<longrightarrow> (\<exists>k < length ds. d = map (mask_bytes HEIGHT WIDTH) ds ! k)"
    using viewer_sent by (metis length_map)
  have "\<exists>m \<in> set ms. \<exists>im. show_frame d = Some im \<and> (\<forall>y < HEIGHT. \<forall>x < WIDTH. im y x = m y x * 255)"
    if s: "(k, d) \<in> set (shown v)" for k d
  proof -
    obtain j where j: "j < length ds" "d = mask_bytes HEIGHT WIDTH (ds ! j)" using v(2) [rule_format, OF s] by auto
    then have "ds ! j \<in> set ms" using ds(2) nth_mem by blast
    with show_mask [of "ds ! j"] j(2) show ?thesis by blast
  qed
  with v(1) show ?thesis by blast
qed

section \<open>Properties\<close>

text \<open>
  C22: the whole camera thread: it always returns or goes on, when the set-up of the camera fails it queues and
  sends nothing, and otherwise it queues the masks of \<open>green_mask_run\<close> whether the debug video is on or off.
  Without it nothing is sent; with it, whatever part of the packets reaches the viewer, repeated and in any
  order, the viewer does not fail and every picture it shows is, pixel by pixel, a mask that was queued.
\<close>

theorem camera_thread_outcome:
  assumes "length es \<le> 2 ^ 32"
  shows "case green_mask_thread p ret made linked playing debug_video fd bound client h es s of
      None \<Rightarrow> False
    | Some r \<Rightarrow>
        (if fst (gst_setup p made linked playing) then green_mask_run HEIGHT WIDTH es s = Some (queued r)
         else queued r = [] \<and> datagrams r = [])
        \<and> (\<not> debug_video \<longrightarrow> datagrams r = [])
        \<and> (\<forall>received. set received \<subseteq> set (datagrams r) \<longrightarrow>
             (\<exists>v. receive_frames received \<lparr>frames = (\<lambda>f. Map.empty), shown = []\<rparr> = Some v
                \<and> (\<forall>n d. (n, d) \<in> set (shown v) \<longrightarrow>
                     (\<exists>m \<in> set (queued r). \<exists>im. show_frame d = Some im
                        \<and> (\<forall>y < HEIGHT. \<forall>x < WIDTH. im y x = m y x * 255)))))"
proof -
  obtain ok gst where g: "gst_setup p made linked playing = (ok, gst)" by fastforce
  obtain k udp where u: "debug_server debug_video Producer_Thread fd bound client h = (k, udp)" by fastforce
  obtain ms ps where l: "camera_loop HEIGHT WIDTH debug_video es s 0 = Some (ms, ps)"
    using camera_loop_some [of HEIGHT WIDTH debug_video es s 0] by auto
  have m: "green_mask_run HEIGHT WIDTH es s = Some ms" using camera_loop_masks [of HEIGHT WIDTH debug_video es s 0] by (simp add: l)
  have none: "ps = []" if "\<not> debug_video" using camera_loop_silent [of HEIGHT WIDTH es s 0 ms ps] l that by simp
  have view: "\<exists>v. receive_frames received \<lparr>frames = (\<lambda>f. Map.empty), shown = []\<rparr> = Some v
      \<and> (\<forall>n d. (n, d) \<in> set (shown v) \<longrightarrow>
           (\<exists>m \<in> set ms. \<exists>im. show_frame d = Some im \<and> (\<forall>y < HEIGHT. \<forall>x < WIDTH. im y x = m y x * 255)))"
    if "set received \<subseteq> set ps" for received
    using camera_loop_viewed [OF l assms that] .
  show ?thesis
    using m none view by (cases ok) (auto simp: green_mask_thread_def Let_def g u l)
qed

theorem camera_thread_outcome_witness:
  "\<exists>r. green_mask_thread PLATFORM_RPI 0 (\<lambda>f. True) True True True 3 0 () \<lparr>sockfd = -1, client_addr = ()\<rparr> [No_Sample]
       \<lparr>green_mask = \<lambda>y x. 1, temp_mask = \<lambda>y x. 1\<rparr> = Some r \<and> queued r = []"
proof -
  have "length [No_Sample] \<le> (2 :: nat) ^ 32" by simp
  from camera_thread_outcome [OF this, where p = PLATFORM_RPI and ret = 0 and made = "\<lambda>f. True" and linked = True
      and playing = True and debug_video = True and fd = 3 and bound = 0 and client = "()"
      and h = "\<lparr>sockfd = -1, client_addr = ()\<rparr>" and s = "\<lparr>green_mask = \<lambda>y x. 1, temp_mask = \<lambda>y x. 1\<rparr>"]
  show ?thesis
    by (auto simp: gst_setup_def Let_def green_mask_iteration_def list_all_iff split: option.splits)
qed

end
