(* ===== verification/Motor_Test.thy ===== *)
theory Motor_Test
  imports Machine_Floats
begin

text \<open>
  \<open>encoder_pwm_on_cpu/motor_test.c\<close>: the software PWM of one motor (73-96) and its PID thread (98-130)
  as the sequence of pigpio calls it makes for a sequence of encoder readings and wave identifiers.
\<close>


section \<open>One pulse train\<close>

record pulse =
  gpioOn :: u32
  gpioOff :: u32
  usDelay :: int

datatype gpio_call =
    Gpio_Write nat int
  | Wave_Clear
  | Wave_Add "pulse list"
  | Wave_Create
  | Wave_Send int
  | Wave_Stop
  | Wave_Delete int
  | Sleep_Us nat
  | Set_Mode nat
  | Gpio_Terminate

definition PWM_PIN :: nat where "PWM_PIN = 16"
definition DIR_PIN_1 :: nat where "DIR_PIN_1 = 23"
definition DIR_PIN_2 :: nat where "DIR_PIN_2 = 24"
definition FREQ :: int where "FREQ = 20000"
definition STEP_US :: nat where "STEP_US = 10000"

definition pulse_train :: "int \<Rightarrow> int \<Rightarrow> pulse list" where
  "pulse_train high_us low_us =
     [\<lparr>gpioOn = push_bit PWM_PIN 1, gpioOff = 0, usDelay = high_us\<rparr>,
      \<lparr>gpioOn = 0, gpioOff = push_bit PWM_PIN 1, usDelay = low_us\<rparr>]"

definition pwm_write :: "rat \<Rightarrow> int \<Rightarrow> int \<Rightarrow> gpio_call list" where
  "pwm_write duty direction wave_id =
     (let period_us = 1000000 div FREQ;
          high_us = ctrunc (f64 (of_int period_us * duty));
          low_us = period_us - high_us
      in (if direction = 0 then [Gpio_Write DIR_PIN_1 0, Gpio_Write DIR_PIN_2 0]
          else [Gpio_Write DIR_PIN_1 (if direction = 1 then 0 else 1),
                Gpio_Write DIR_PIN_2 (if direction = 1 then 1 else 0)])
         @ [Wave_Clear, Wave_Add (pulse_train high_us low_us), Wave_Create]
         @ (if wave_id \<ge> 0 then [Wave_Send wave_id] else []))"

section \<open>The controller thread\<close>

record gains =
  g_kp :: rat
  g_ki :: rat
  g_kd :: rat
  setpoint :: int

record pid_mem =
  integral :: rat
  last_error :: rat

definition controller_step :: "gains \<Rightarrow> int \<Rightarrow> pid_mem \<Rightarrow> pid_mem \<times> rat \<times> int" where
  "controller_step g pos st =
     (let dt = f64 (of_nat STEP_US / 10 ^ 6);
          max_duty = f64 (65 / 100);
          error = f64 (of_int (setpoint g - pos));
          error = (if error \<le> 15 \<and> error \<ge> - 15 then 0 else error);
          integral' = f64 (integral st + f64 (error * dt));
          derivative = f64 (f64 (error - last_error st) / dt);
          out = f64 (f64 (f64 (g_kp g * error) + f64 (g_ki g * integral')) + f64 (g_kd g * derivative));
          dir = (if out \<ge> 0 then 1 else -1);
          dir = (if error = 0 then 0 else dir);
          duty = (if out \<ge> 0 then out else - out);
          duty = (if duty > max_duty then max_duty else duty)
      in (\<lparr>integral = integral', last_error = error\<rparr>, duty, dir))"

fun controller_run :: "gains \<Rightarrow> (int \<times> int) list \<Rightarrow> pid_mem \<Rightarrow> gpio_call list" where
  "controller_run g [] st = []"
| "controller_run g ((pos, wave_id) # is) st =
     (case controller_step g pos st of (st', duty, dir) \<Rightarrow>
        pwm_write duty dir wave_id @ [Sleep_Us STEP_US] @ controller_run g is st')"

definition safe_pulses :: "pulse list \<Rightarrow> bool" where
  "safe_pulses ps \<longleftrightarrow> (\<exists>h. 0 \<le> h \<and> h \<le> 32 \<and> ps = pulse_train h (50 - h))"

definition safe_call :: "gpio_call \<Rightarrow> bool" where
  "safe_call c = (case c of Wave_Add ps \<Rightarrow> safe_pulses ps | _ \<Rightarrow> True)"

lemma max_high: "ctrunc (f64 (50 * f64 (65 / 100))) = 32"
  by code_simp

lemma controller_duty:
  assumes "controller_step g pos st = (st', duty, dir)"
  shows "0 \<le> duty" "duty \<le> f64 (65 / 100)" "dir \<in> {- 1, 0, 1}"
proof -
  have "0 \<le> f64 (65 / 100)" by (rule double.nonneg) simp
  then show "0 \<le> duty" "duty \<le> f64 (65 / 100)" "dir \<in> {- 1, 0, 1}"
    using assms by (auto simp: controller_step_def Let_def split: if_splits)
qed

lemma pwm_write_safe:
  assumes "0 \<le> duty" "duty \<le> f64 (65 / 100)"
  shows "list_all safe_call (pwm_write duty dir wave_id)"
proof -
  let ?h = "ctrunc (f64 (50 * duty))"
  have v0: "0 \<le> f64 (50 * duty)" using assms(1) by (intro double.nonneg) simp
  have "f64 (50 * duty) \<le> f64 (50 * f64 (65 / 100))"
    using assms(2) by (intro double.mono mult_left_mono) simp_all
  from ctrunc_mono [OF v0 this] have "?h \<le> 32" unfolding max_high .
  moreover have "0 \<le> ?h" using v0 by (simp add: ctrunc_def)
  ultimately have "safe_pulses (pulse_train ?h (50 - ?h))" unfolding safe_pulses_def by blast
  then show ?thesis by (simp add: pwm_write_def Let_def FREQ_def safe_call_def)
qed

lemma controller_run_safe: "list_all safe_call (controller_run g is st)"
proof (induction g "is" st rule: controller_run.induct)
  case (2 g pos wave_id "is" st)
  obtain st' duty dir where s: "controller_step g pos st = (st', duty, dir)" by (cases "controller_step g pos st") auto
  have "safe_call (Sleep_Us STEP_US)" by (simp add: safe_call_def)
  with 2 s pwm_write_safe [OF controller_duty(1,2) [OF s]] show ?case by simp
qed simp



end
