(* ===== verification/Encoder_Reader.thy ===== *)
theory Encoder_Reader
  imports Prelude Machine_Floats
begin

text \<open>
  \<open>encoder_pwm_on_cpu/encoder_reader.c\<close>: the quadrature decoder (20-44) and the thread that feeds it
  (46-65), and the program around them (67-99) as a run over line events and the ticks of its print loop;
  \<open>motor_test.c\<close> 41-71 is the same code with a stop flag. \<open>atomic_int\<close> is a 32-bit word. The shaft is the specification: its angle in quarter steps determines the two lines.
\<close>


record encoder =
  position :: u32
  last_a :: int
  last_b :: int

definition transition_delta :: "int \<Rightarrow> int" where
  "transition_delta c =
     (if c = 0b0001 \<or> c = 0b0111 \<or> c = 0b1110 \<or> c = 0b1000 then 1
      else if c = 0b0010 \<or> c = 0b0100 \<or> c = 0b1101 \<or> c = 0b1011 then -1
      else 0)"

definition process_transition :: "int \<Rightarrow> int \<Rightarrow> encoder \<Rightarrow> encoder" where
  "process_transition new_a new_b e =
     (let prev = push_bit 1 (last_a e) OR last_b e;
          curr = push_bit 1 new_a OR new_b;
          delta = transition_delta (push_bit 2 prev OR curr);
          e = (if delta \<noteq> 0 then e\<lparr>position := position e + word_of_int delta\<rparr> else e)
      in e\<lparr>last_a := new_a, last_b := new_b\<rparr>)"

datatype line_event = No_Event | Read_Failed | Edge int int

definition watch_line :: "line_event \<Rightarrow> encoder \<Rightarrow> encoder" where
  "watch_line ev e =
     (case ev of Edge a b \<Rightarrow> process_transition a b e | _ \<Rightarrow> e)"

section \<open>The shaft\<close>

definition pin_a :: "int \<Rightarrow> int" where
  "pin_a k = (if k mod 4 = 2 \<or> k mod 4 = 3 then 1 else 0)"

definition pin_b :: "int \<Rightarrow> int" where
  "pin_b k = (if k mod 4 = 1 \<or> k mod 4 = 2 then 1 else 0)"

definition shaft_encoder :: "int \<Rightarrow> int \<Rightarrow> encoder \<Rightarrow> bool" where
  "shaft_encoder k0 k e \<longleftrightarrow> last_a e = pin_a k \<and> last_b e = pin_b k \<and> position e = word_of_int (k - k0)"

lemma transition_table:
  assumes "\<bar>k' - k\<bar> \<le> 1"
  shows "transition_delta (push_bit 2 (push_bit 1 (pin_a k) OR pin_b k) OR (push_bit 1 (pin_a k') OR pin_b k'))
     = k' - k"
proof -
  have r: "k mod 4 \<in> {0, 1, 2, 3}" by auto
  have d: "k' = k \<or> k' = k + 1 \<or> k' = k - 1" using assms by linarith
  have m: "(k + 1) mod 4 = (k mod 4 + 1) mod 4" "(k - 1) mod 4 = (k mod 4 - 1) mod 4"
    by (simp_all add: mod_simps)
  from d r show ?thesis
    by (elim disjE insertE emptyE; simp add: pin_a_def pin_b_def transition_delta_def m)
qed

lemma process_transition_shaft:
  assumes "shaft_encoder k0 k e" "\<bar>k' - k\<bar> \<le> 1"
  shows "shaft_encoder k0 k' (process_transition (pin_a k') (pin_b k') e)"
proof -
  have d: "transition_delta (push_bit 2 (push_bit 1 (last_a e) OR last_b e) OR (push_bit 1 (pin_a k') OR pin_b k'))
      = k' - k"
    using assms transition_table by (simp add: shaft_encoder_def)
  have "word_of_int (k - k0) + word_of_int (k' - k) = (word_of_int (k' - k0) :: u32)"
    by (simp add: algebra_simps flip: of_int_add)
  then show ?thesis using assms(1) unfolding process_transition_def Let_def d
    by (auto simp: shaft_encoder_def)
qed

fun steps_of :: "int \<Rightarrow> line_event list \<Rightarrow> int list \<Rightarrow> bool" where
  "steps_of k [] ks = (ks = [])"
| "steps_of k (Edge a b # evs) (k' # ks) =
     (\<bar>k' - k\<bar> \<le> 1 \<and> a = pin_a k' \<and> b = pin_b k' \<and> steps_of k' evs ks)"
| "steps_of k (Edge a b # evs) [] = False"
| "steps_of k (ev # evs) ks = steps_of k evs ks"

lemma watch_shaft:
  "shaft_encoder k0 k e \<Longrightarrow> steps_of k evs ks \<Longrightarrow> shaft_encoder k0 (List.last (k # ks)) (fold watch_line evs e)"
  by (induction k evs ks arbitrary: e rule: steps_of.induct)
    (auto simp: watch_line_def process_transition_shaft split: if_splits)

section \<open>The program\<close>

datatype reader_input = Line line_event | Tick

fun reader_run :: "reader_input list \<Rightarrow> encoder \<Rightarrow> int list" where
  "reader_run [] e = []"
| "reader_run (Line ev # xs) e = reader_run xs (watch_line ev e)"
| "reader_run (Tick # xs) e = sint (position e) # reader_run xs e"

definition reader_main :: "bool \<Rightarrow> int \<Rightarrow> int \<Rightarrow> reader_input list \<Rightarrow> int option \<times> int list" where
  "reader_main chip a0 b0 xs =
     (if \<not> chip then (Some 1, [])
      else (None, reader_run xs \<lparr>position = 0, last_a = a0, last_b = b0\<rparr>))"

datatype shaft_input = Turn int | Glitch line_event | Look

fun shaft_lines :: "int \<Rightarrow> shaft_input list \<Rightarrow> reader_input list" where
  "shaft_lines k [] = []"
| "shaft_lines k (Turn d # xs) = Line (Edge (pin_a (k + d)) (pin_b (k + d))) # shaft_lines (k + d) xs"
| "shaft_lines k (Glitch ev # xs) = Line ev # shaft_lines k xs"
| "shaft_lines k (Look # xs) = Tick # shaft_lines k xs"

fun shaft_angles :: "int \<Rightarrow> shaft_input list \<Rightarrow> int list" where
  "shaft_angles k [] = []"
| "shaft_angles k (Turn d # xs) = shaft_angles (k + d) xs"
| "shaft_angles k (Glitch ev # xs) = shaft_angles k xs"
| "shaft_angles k (Look # xs) = k # shaft_angles k xs"

fun slow_input :: "shaft_input \<Rightarrow> bool" where
  "slow_input (Turn d) = (\<bar>d\<bar> \<le> 1)"
| "slow_input (Glitch ev) = (ev = No_Event \<or> ev = Read_Failed)"
| "slow_input Look = True"

definition wrap_int :: "int \<Rightarrow> int" where
  "wrap_int k = (k + 2 ^ 31) mod 2 ^ 32 - 2 ^ 31"

lemma sint_wrap: "sint (word_of_int k :: u32) = wrap_int k"
  by (simp add: sint_word_ariths wrap_int_def signed_take_bit_eq_take_bit_shift take_bit_eq_mod signed_of_int)

lemma wrap_int_small: "- (2 ^ 31) \<le> k \<Longrightarrow> k < 2 ^ 31 \<Longrightarrow> wrap_int k = k"
  by (simp add: wrap_int_def)

lemma reader_run_shaft:
  "shaft_encoder k0 k e \<Longrightarrow> list_all slow_input xs \<Longrightarrow>
     reader_run (shaft_lines k xs) e = map (\<lambda>k. wrap_int (k - k0)) (shaft_angles k xs)"
proof (induction k xs arbitrary: e rule: shaft_lines.induct)
  case (2 k d xs)
  then show ?case by (simp add: watch_line_def process_transition_shaft)
next
  case (4 k xs)
  then show ?case by (simp add: shaft_encoder_def sint_wrap del: of_int_diff)
qed (auto simp: watch_line_def)

section \<open>Properties\<close>

text \<open>
  As long as the lines are read at least once per quarter step, the counter is the displacement of
  the shaft modulo 2^32, whatever failed reads and repeated readings come in between.
\<close>

lemma quadrature_tracks:
  assumes "shaft_encoder k0 k e" "steps_of k evs ks"
  shows "position (fold watch_line evs e) = word_of_int (List.last (k # ks) - k0)"
  using watch_shaft [OF assms] by (simp add: shaft_encoder_def)

text \<open>
  C35: as long as the lines are read at least once per quarter step, every number the program prints is the
  displacement of the shaft since the start, reduced to the range of a 32-bit int (so exact below 2^31 quarter
  steps), whatever failed reads and repeated readings come in between; without the GPIO chip it returns 1.
\<close>

theorem reader_reports:
  assumes "list_all slow_input xs"
  shows "reader_main chip (pin_a k) (pin_b k) (shaft_lines k xs) =
     (if chip then (None, map (\<lambda>k'. wrap_int (k' - k)) (shaft_angles k xs)) else (Some 1, []))
     \<and> (\<forall>d. - (2 ^ 31) \<le> d \<and> d < 2 ^ 31 \<longrightarrow> wrap_int d = d)"
  using reader_run_shaft [of k k "\<lparr>position = 0, last_a = pin_a k, last_b = pin_b k\<rparr>" xs] assms wrap_int_small
  by (simp_all add: reader_main_def shaft_encoder_def)

theorem reader_reports_witness:
  "snd (reader_main True 0 0 [Line (Edge 0 1), Tick, Line Read_Failed, Line (Edge 0 0), Line (Edge 1 0), Tick]) = [1, - 1]"
  using reader_reports [of "[Turn 1, Look, Glitch Read_Failed, Turn (- 1), Turn (- 1), Look]" True 0]
  by (simp add: pin_a_def pin_b_def wrap_int_def)

end
