(* ===== verification/Motor_Main.thy ===== *)
theory Motor_Main
  imports Motor_Test Encoder_Reader
begin

text \<open>
  \<open>encoder_pwm_on_cpu/motor_test.c\<close> as a program: the set-up in \<open>main\<close> with its failure exits (151-180), the
  signal handler (36-39), the two watching threads with the stop flag (56-71), the controller thread
  (98-130), the three joins and \<open>cleanup\<close> (135-149, 184-188). A step of a thread is one test of the flag, one
  iteration or one join; a thread in \<open>gpiod_line_event_wait\<close> (called without a time limit) leaves it only when
  something happens on its line or the wait is interrupted, which are events of the environment, as are the
  signals.
\<close>


section \<open>Setting up and cleaning up\<close>

definition PIN_A :: nat where "PIN_A = 20"
definition PIN_B :: nat where "PIN_B = 21"

datatype motor_call =
    Chip_Open
  | Get_Line nat
  | Request_Edges nat
  | Get_Value nat
  | Pigpio_Init
  | Set_Output nat
  | Start_Watch nat
  | Start_Controller
  | Line_Release nat
  | Chip_Close

definition motor_setup :: "nat \<Rightarrow> bool \<Rightarrow> int \<Rightarrow> int option \<times> motor_call list" where
  "motor_setup argc chip init =
     (if argc \<noteq> 5 then (Some 1, [])
      else if \<not> chip then (Some 1, [Chip_Open])
      else
        (let calls = [Chip_Open, Get_Line PIN_A, Get_Line PIN_B, Request_Edges PIN_A, Request_Edges PIN_B,
                      Get_Value PIN_A, Get_Value PIN_B, Pigpio_Init]
         in if init < 0 then (Some 1, calls)
            else (None, calls @ [Set_Output PWM_PIN, Set_Output DIR_PIN_1, Set_Output DIR_PIN_2,
                                 Start_Watch PIN_A, Start_Watch PIN_B, Start_Controller])))"

definition cleanup_motor :: "gpio_call list" where
  "cleanup_motor = [Wave_Stop, Gpio_Terminate]"

definition cleanup_lines :: "bool \<Rightarrow> bool \<Rightarrow> bool \<Rightarrow> motor_call list" where
  "cleanup_lines a b chip =
     (if a then [Line_Release PIN_A] else []) @ (if b then [Line_Release PIN_B] else [])
     @ (if chip then [Chip_Close] else [])"

section \<open>The threads and the end of the program\<close>

datatype watch_pc = W_Test | W_Wait | W_Ended
datatype control_pc = K_Test | K_Body | K_Ended
datatype join_pc = J_Control | J_Line_A | J_Line_B | J_Cleanup | J_Done

record motor =
  stop_requested :: bool
  shaft :: encoder
  watch_a :: watch_pc
  watch_b :: watch_pc
  control :: control_pc
  pid :: pid_mem
  join :: join_pc
  calls :: "gpio_call list"

inductive mt_step :: "gains \<Rightarrow> motor \<Rightarrow> motor \<Rightarrow> bool" for g where
  test_a: "watch_a s = W_Test \<Longrightarrow>
     mt_step g s (s\<lparr>watch_a := (if stop_requested s then W_Ended else W_Wait)\<rparr>)"
| test_b: "watch_b s = W_Test \<Longrightarrow>
     mt_step g s (s\<lparr>watch_b := (if stop_requested s then W_Ended else W_Wait)\<rparr>)"
| test_k: "control s = K_Test \<Longrightarrow>
     mt_step g s (s\<lparr>control := (if stop_requested s then K_Ended else K_Body)\<rparr>)"
| body_k: "control s = K_Body \<Longrightarrow> controller_step g (sint (position (shaft s))) (pid s) = (p, duty, dir) \<Longrightarrow>
     mt_step g s (s\<lparr>control := K_Test, pid := p,
                    calls := calls s @ pwm_write duty dir wave_id @ [Sleep_Us STEP_US]\<rparr>)"
| join_k: "join s = J_Control \<Longrightarrow> control s = K_Ended \<Longrightarrow> mt_step g s (s\<lparr>join := J_Line_A\<rparr>)"
| join_a: "join s = J_Line_A \<Longrightarrow> watch_a s = W_Ended \<Longrightarrow> mt_step g s (s\<lparr>join := J_Line_B\<rparr>)"
| join_b: "join s = J_Line_B \<Longrightarrow> watch_b s = W_Ended \<Longrightarrow> mt_step g s (s\<lparr>join := J_Cleanup\<rparr>)"
| clean: "join s = J_Cleanup \<Longrightarrow> mt_step g s (s\<lparr>join := J_Done, calls := calls s @ cleanup_motor\<rparr>)"

inductive mt_event :: "motor \<Rightarrow> motor \<Rightarrow> bool" where
  signal: "mt_event s (s\<lparr>stop_requested := True\<rparr>)"
| event_a: "watch_a s = W_Wait \<Longrightarrow> mt_event s (s\<lparr>watch_a := W_Test, shaft := watch_line ev (shaft s)\<rparr>)"
| event_b: "watch_b s = W_Wait \<Longrightarrow> mt_event s (s\<lparr>watch_b := W_Test, shaft := watch_line ev (shaft s)\<rparr>)"

definition mt_start :: "int \<Rightarrow> int \<Rightarrow> motor" where
  "mt_start a b =
     \<lparr>stop_requested = False, shaft = \<lparr>position = 0, last_a = a, last_b = b\<rparr>, watch_a = W_Test, watch_b = W_Test,
      control = K_Test, pid = \<lparr>integral = 0, last_error = 0\<rparr>, join = J_Control, calls = []\<rparr>"

inductive mt_reachable :: "gains \<Rightarrow> int \<Rightarrow> int \<Rightarrow> motor \<Rightarrow> bool" for g a b where
  mt_init: "mt_reachable g a b (mt_start a b)"
| mt_run: "mt_reachable g a b s \<Longrightarrow> mt_step g s t \<Longrightarrow> mt_reachable g a b t"
| mt_occurs: "mt_reachable g a b s \<Longrightarrow> mt_event s t \<Longrightarrow> mt_reachable g a b t"

section \<open>Invariants\<close>

fun join_rank :: "join_pc \<Rightarrow> nat" where
  "join_rank J_Control = 4"
| "join_rank J_Line_A = 3"
| "join_rank J_Line_B = 2"
| "join_rank J_Cleanup = 1"
| "join_rank J_Done = 0"

definition mt_inv :: "motor \<Rightarrow> bool" where
  "mt_inv s \<longleftrightarrow>
     list_all safe_call (calls s)
     \<and> (join s \<noteq> J_Control \<longrightarrow> control s = K_Ended)
     \<and> (join_rank (join s) \<le> 2 \<longrightarrow> watch_a s = W_Ended)
     \<and> (join_rank (join s) \<le> 1 \<longrightarrow> watch_b s = W_Ended)
     \<and> (control s = K_Ended \<or> watch_a s = W_Ended \<or> watch_b s = W_Ended \<longrightarrow> stop_requested s)
     \<and> (if join s = J_Done then \<exists>cs. calls s = cs @ cleanup_motor \<and> Wave_Stop \<notin> set cs
        else Wave_Stop \<notin> set (calls s))"

lemma pwm_write_no_stop: "Wave_Stop \<notin> set (pwm_write duty dir wave_id)"
  by (simp add: pwm_write_def Let_def)

lemma cleanup_safe: "list_all safe_call cleanup_motor"
  by (simp add: cleanup_motor_def safe_call_def)

lemma mt_step_inv: "mt_step g s t \<Longrightarrow> mt_inv s \<Longrightarrow> mt_inv t"
proof (induction rule: mt_step.induct)
  case (body_k s p duty dir wave_id)
  have "list_all safe_call (pwm_write duty dir wave_id @ [Sleep_Us STEP_US])"
    using pwm_write_safe [OF controller_duty(1,2) [OF body_k.hyps(2)]] by (simp add: safe_call_def)
  then show ?case using body_k pwm_write_no_stop by (cases "join s") (auto simp: mt_inv_def)
next
  case (clean s)
  then show ?case using cleanup_safe by (auto simp: mt_inv_def)
qed (auto simp: mt_inv_def split: if_splits)

lemma mt_event_inv: "mt_event s t \<Longrightarrow> mt_inv s \<Longrightarrow> mt_inv t"
  by (induction rule: mt_event.induct) (auto simp: mt_inv_def)

lemma mt_reachable_inv: "mt_reachable g a b s \<Longrightarrow> mt_inv s"
proof (induction rule: mt_reachable.induct)
  case mt_init
  show ?case by (simp add: mt_inv_def mt_start_def)
qed (auto intro: mt_step_inv mt_event_inv)

section \<open>Stopping\<close>

fun watch_rank :: "watch_pc \<Rightarrow> nat" where
  "watch_rank W_Test = 1"
| "watch_rank w = 0"

fun control_rank :: "control_pc \<Rightarrow> nat" where
  "control_rank K_Body = 2"
| "control_rank K_Test = 1"
| "control_rank K_Ended = 0"

definition mt_rank :: "motor \<Rightarrow> nat" where
  "mt_rank s = join_rank (join s) + control_rank (control s) + watch_rank (watch_a s) + watch_rank (watch_b s)"

lemma mt_rank_le: "mt_rank s \<le> 8"
  by (cases "join s"; cases "control s"; cases "watch_a s"; cases "watch_b s") (simp_all add: mt_rank_def)

lemma stopping_step:
  "mt_step g s t \<Longrightarrow> stop_requested s \<Longrightarrow> stop_requested t \<and> mt_rank t < mt_rank s
     \<and> (watch_a s = W_Wait \<longrightarrow> watch_a t = W_Wait) \<and> (watch_b s = W_Wait \<longrightarrow> watch_b t = W_Wait)"
  by (induction rule: mt_step.induct) (auto simp: mt_rank_def)

lemma stopping_steps:
  "(mt_step g ^^ n) s t \<Longrightarrow> stop_requested s \<Longrightarrow> stop_requested t \<and> n + mt_rank t \<le> mt_rank s
     \<and> (watch_a s = W_Wait \<longrightarrow> watch_a t = W_Wait) \<and> (watch_b s = W_Wait \<longrightarrow> watch_b t = W_Wait)"
proof (induction n arbitrary: t)
  case (Suc n)
  from Suc.prems(1) obtain u where u: "(mt_step g ^^ n) s u" "mt_step g u t" by auto
  from Suc.IH [OF u(1) Suc.prems(2)] stopping_step [OF u(2)] show ?case by auto
qed simp

lemma stopping_progress:
  assumes "stop_requested s" "watch_a s \<noteq> W_Wait" "watch_b s \<noteq> W_Wait" "join s \<noteq> J_Done"
  shows "\<exists>t. mt_step g s t"
proof (cases "control s")
  case K_Test
  then show ?thesis using test_k by blast
next
  case K_Body
  obtain p duty dir where "controller_step g (sint (position (shaft s))) (pid s) = (p, duty, dir)"
    by (cases "controller_step g (sint (position (shaft s))) (pid s)") auto
  from body_k [OF K_Body this] show ?thesis by blast
next
  case K_Ended
  then show ?thesis using assms
    by (cases "watch_a s"; cases "watch_b s"; cases "join s")
      (auto intro: mt_step.intros)
qed

lemma waiting_not_done: "mt_inv s \<Longrightarrow> watch_a s = W_Wait \<or> watch_b s = W_Wait \<Longrightarrow> join s \<noteq> J_Done \<and> Wave_Stop \<notin> set (calls s)"
  by (cases "join s") (auto simp: mt_inv_def)

lemma mt_steps_inv: "(mt_step g ^^ n) s t \<Longrightarrow> mt_inv s \<Longrightarrow> mt_inv t"
  by (induction n arbitrary: t) (auto intro: mt_step_inv)

section \<open>A stop while both lines are quiet\<close>

lemma quiet_stop_reachable:
  "mt_reachable g a b ((mt_start a b)\<lparr>watch_a := W_Wait, watch_b := W_Wait, stop_requested := True\<rparr>)"
proof -
  let ?s = "mt_start a b"
  have "mt_reachable g a b (?s\<lparr>watch_a := W_Wait\<rparr>)"
    using mt_run [OF mt_init test_a, of a b g] by (simp add: mt_start_def)
  from mt_run [OF this test_b] have "mt_reachable g a b (?s\<lparr>watch_a := W_Wait, watch_b := W_Wait\<rparr>)"
    by (simp add: mt_start_def)
  from mt_occurs [OF this signal] show ?thesis by (simp add: mt_start_def)
qed

section \<open>Properties\<close>



end
