(* ===== verification/Pwm_Dma.thy ===== *)
theory Pwm_Dma
  imports Motor_Test
begin

text \<open>
  \<open>encoder_pwm_on_cpu/pwm_dma_40khz.c\<close>: the sweep of the duty cycle with DMA wave forms, as the
  sequence of pigpio calls it makes, with its failure exits.
\<close>


record sweep =
  duty :: rat
  direction :: int

definition STEP_SIZE :: rat where "STEP_SIZE = f64 (5 / 100)"
definition DMA_FREQ :: int where "DMA_FREQ = 40000"
definition DMA_STEP_US :: nat where "DMA_STEP_US = 50000"

definition sweep_start :: sweep where
  "sweep_start = \<lparr>duty = 0, direction = 1\<rparr>"

definition sweep_update :: "sweep \<Rightarrow> sweep" where
  "sweep_update s =
     (let d = f64 (duty s + f64 (STEP_SIZE * of_int (direction s)))
      in if d \<ge> 1 then \<lparr>duty = 1, direction = -1\<rparr>
         else if d \<le> 0 then \<lparr>duty = 0, direction = 1\<rparr>
         else s\<lparr>duty := d\<rparr>)"

definition sweep_pulses :: "sweep \<Rightarrow> pulse list" where
  "sweep_pulses s =
     (let period_us = 1000000 div DMA_FREQ;
          high_us = ctrunc (f64 (of_int period_us * duty s))
      in pulse_train high_us (period_us - high_us))"

fun sweep_run :: "int list \<Rightarrow> sweep \<Rightarrow> gpio_call list" where
  "sweep_run [] s = []"
| "sweep_run (wave_id # ids) s =
     [Wave_Clear, Wave_Add (sweep_pulses s), Wave_Create] @
     (if wave_id \<ge> 0
      then [Wave_Send wave_id, Sleep_Us DMA_STEP_US, Wave_Stop, Wave_Delete wave_id] @ sweep_run ids (sweep_update s)
      else [Gpio_Terminate])"

definition sweep_ok :: "sweep \<Rightarrow> bool" where
  "sweep_ok s \<longleftrightarrow> 0 \<le> duty s \<and> duty s \<le> 1 \<and> (direction s = 1 \<or> direction s = -1)"

definition period_pulses :: "pulse list \<Rightarrow> bool" where
  "period_pulses ps \<longleftrightarrow> (\<exists>h. 0 \<le> h \<and> h \<le> 25 \<and> ps = pulse_train h (25 - h))"

lemma sweep_update_ok: "sweep_ok s \<Longrightarrow> sweep_ok (sweep_update s)"
  by (auto simp: sweep_ok_def sweep_update_def Let_def)

lemma sweep_pulses_ok: assumes "sweep_ok s" shows "period_pulses (sweep_pulses s)"
proof -
  let ?h = "ctrunc (f64 (25 * duty s))"
  have "0 \<le> 25 * duty s" "25 * duty s \<le> of_int 25" using assms by (simp_all add: sweep_ok_def)
  moreover have "is_f64 (of_int 25)" by (rule double.ints) simp
  ultimately have "0 \<le> f64 (25 * duty s)" "f64 (25 * duty s) \<le> of_int 25"
    using double.nonneg double.upper by blast+
  then have "0 \<le> ?h \<and> ?h \<le> 25" by (simp add: ctrunc_def)
  then show ?thesis unfolding period_pulses_def
    by (intro exI [of _ ?h]) (simp add: sweep_pulses_def Let_def DMA_FREQ_def)
qed

lemma sweep_run_ok: "sweep_ok s \<Longrightarrow> Wave_Add ps \<in> set (sweep_run ids s) \<Longrightarrow> period_pulses ps"
  by (induction ids s rule: sweep_run.induct) (auto simp: sweep_pulses_ok sweep_update_ok split: if_splits)

definition period_call :: "gpio_call \<Rightarrow> bool" where
  "period_call c = (case c of Wave_Add ps \<Rightarrow> period_pulses ps | _ \<Rightarrow> True)"

lemma sweep_calls_ok: "sweep_ok s \<Longrightarrow> list_all period_call (sweep_run ids s)"
  using sweep_run_ok by (auto simp: list_all_iff period_call_def split: gpio_call.split)

lemma sweep_start_ok: "sweep_ok sweep_start"
  by (simp add: sweep_ok_def sweep_start_def)

section \<open>The program\<close>

definition GPIO_PIN :: nat where "GPIO_PIN = 16"

definition sweep_main :: "int \<Rightarrow> int list \<Rightarrow> int option \<times> gpio_call list" where
  "sweep_main init ids =
     (if init < 0 then (Some 1, [])
      else (if list_ex (\<lambda>i. i < 0) ids then Some 0 else None, Set_Mode GPIO_PIN # sweep_run ids sweep_start))"

lemma sweep_run_terminates: "Gpio_Terminate \<in> set (sweep_run ids s) \<longleftrightarrow> list_ex (\<lambda>i. i < 0) ids"
  by (induction ids s rule: sweep_run.induct) auto

lemma sweep_main_period: "list_all period_call (snd (sweep_main init ids))"
  using sweep_calls_ok [OF sweep_start_ok] by (simp add: sweep_main_def period_call_def)

lemma sweep_main_ends: "fst (sweep_main init ids) = Some 0 \<longleftrightarrow> Gpio_Terminate \<in> set (snd (sweep_main init ids))"
  by (simp add: sweep_main_def sweep_run_terminates)

section \<open>Properties\<close>

text \<open>
  C40: every wave form that the motor test or the sweep hands to the DMA engine spans exactly one PWM
  period with non-negative parts, and the motor test never drives longer than 32 of its 50
  microseconds, for all gains, encoder readings and wave identifiers. The sweep ends, with 0, exactly when a
  wave cannot be created, and then it has shut the library down.
\<close>

theorem pulses_fill_period:
  "list_all safe_call (controller_run g readings st) \<and> list_all period_call (snd (sweep_main init ids))
   \<and> (fst (sweep_main init ids) = Some 0) = (Gpio_Terminate \<in> set (snd (sweep_main init ids)))"
  using controller_run_safe sweep_main_period sweep_main_ends by blast

end
