(* ===== verification/Address_Map.thy ===== *)
theory Address_Map
  imports Prelude
begin

text \<open>
  The address maps that the hardware generator left in \<open>de10_conf/include\<close>: every device block of
  \<open>soc_system.h\<close> and of the headers of the single masters with all its macros, and the window that
  \<open>hw_interface.h\<close> (18-19) takes from them. \<open>MASTER\<close> and \<open>SLAVE\<close> are the two parts of the macro
  prefix; in the headers of a single master the first part is empty. The memory size macros that are
  written as shifts are given by the value they mean. Long headers are split into parts of eleven devices.
\<close>


record macros =
  MASTER :: string
  SLAVE :: string
  COMPONENT_TYPE :: string
  COMPONENT_NAME :: string
  BASE :: nat
  SPAN :: nat
  END :: nat
  OTHER :: "(string \<times> nat) list"

definition dev ::
  "string \<Rightarrow> string \<Rightarrow> string \<Rightarrow> string \<Rightarrow> nat \<Rightarrow> nat \<Rightarrow> nat \<Rightarrow> (string \<times> nat) list \<Rightarrow> macros" where
  "dev m pre ty nm b s e ms =
     \<lparr>MASTER = m, SLAVE = pre, COMPONENT_TYPE = ty, COMPONENT_NAME = nm, BASE = b, SPAN = s, END = e, OTHER = ms\<rparr>"

section \<open>The system header\<close>

definition soc_bridge_devices :: "macros list" where
  "soc_bridge_devices =
     [dev ''HPS_0'' ''MEM_INTERFACE_0'' ''mem_interface'' ''mem_interface_0'' 0x0 1024 0x3ff [],
      dev ''HPS_0_BRIDGES'' ''MEM_INTERFACE_0'' ''mem_interface'' ''mem_interface_0'' 0x0 1024 0x3ff []]"

definition soc_a9_0_devices_1 :: "macros list" where
  "soc_a9_0_devices_1 =
     [dev ''HPS_0_ARM_A9_0'' ''HPS_0_AXI_SDRAM'' ''axi_sdram'' ''hps_0_axi_sdram'' 0x0 2147483648 0x7fffffff [(''SIZE_MULTIPLE'', 1), (''SIZE_VALUE'', 2147483648), (''WRITABLE'', 1), (''MEMORY_INFO_GENERATE_DAT_SYM'', 0), (''MEMORY_INFO_GENERATE_HEX'', 0), (''MEMORY_INFO_MEM_INIT_DATA_WIDTH'', 31)],
      dev ''HPS_0_ARM_A9_0'' ''MEM_INTERFACE_0'' ''mem_interface'' ''mem_interface_0'' 0xff200000 1024 0xff2003ff [],
      dev ''HPS_0_ARM_A9_0'' ''HPS_0_GMAC0'' ''stmmac'' ''hps_0_gmac0'' 0xff700000 8192 0xff701fff [],
      dev ''HPS_0_ARM_A9_0'' ''HPS_0_GMAC1'' ''stmmac'' ''hps_0_gmac1'' 0xff702000 8192 0xff703fff [],
      dev ''HPS_0_ARM_A9_0'' ''HPS_0_SDMMC'' ''sdmmc'' ''hps_0_sdmmc'' 0xff704000 4096 0xff704fff [],
      dev ''HPS_0_ARM_A9_0'' ''HPS_0_QSPI_AXI_SLAVE0'' ''cadence_qspi'' ''hps_0_qspi'' 0xff705000 256 0xff7050ff [],
      dev ''HPS_0_ARM_A9_0'' ''HPS_0_FPGAMGR_AXI_SLAVE0'' ''altera_fpgamgr'' ''hps_0_fpgamgr'' 0xff706000 4096 0xff706fff [],
      dev ''HPS_0_ARM_A9_0'' ''HPS_0_GPIO0'' ''dw_gpio'' ''hps_0_gpio0'' 0xff708000 256 0xff7080ff [],
      dev ''HPS_0_ARM_A9_0'' ''HPS_0_GPIO1'' ''dw_gpio'' ''hps_0_gpio1'' 0xff709000 256 0xff7090ff [],
      dev ''HPS_0_ARM_A9_0'' ''HPS_0_GPIO2'' ''dw_gpio'' ''hps_0_gpio2'' 0xff70a000 256 0xff70a0ff [],
      dev ''HPS_0_ARM_A9_0'' ''HPS_0_L3REGS'' ''altera_l3regs'' ''hps_0_l3regs'' 0xff800000 4096 0xff800fff []]"

definition soc_a9_0_devices_2 :: "macros list" where
  "soc_a9_0_devices_2 =
     [dev ''HPS_0_ARM_A9_0'' ''HPS_0_NAND0_AXI_SLAVE0'' ''denali_nand'' ''hps_0_nand0'' 0xff900000 65536 0xff90ffff [],
      dev ''HPS_0_ARM_A9_0'' ''HPS_0_QSPI_AXI_SLAVE1'' ''cadence_qspi'' ''hps_0_qspi'' 0xffa00000 256 0xffa000ff [],
      dev ''HPS_0_ARM_A9_0'' ''HPS_0_USB0'' ''usb'' ''hps_0_usb0'' 0xffb00000 262144 0xffb3ffff [],
      dev ''HPS_0_ARM_A9_0'' ''HPS_0_USB1'' ''usb'' ''hps_0_usb1'' 0xffb40000 262144 0xffb7ffff [],
      dev ''HPS_0_ARM_A9_0'' ''HPS_0_NAND0_AXI_SLAVE1'' ''denali_nand'' ''hps_0_nand0'' 0xffb80000 65536 0xffb8ffff [],
      dev ''HPS_0_ARM_A9_0'' ''HPS_0_FPGAMGR_AXI_SLAVE1'' ''altera_fpgamgr'' ''hps_0_fpgamgr'' 0xffb90000 256 0xffb900ff [],
      dev ''HPS_0_ARM_A9_0'' ''HPS_0_DCAN0'' ''bosch_dcan'' ''hps_0_dcan0'' 0xffc00000 4096 0xffc00fff [],
      dev ''HPS_0_ARM_A9_0'' ''HPS_0_DCAN1'' ''bosch_dcan'' ''hps_0_dcan1'' 0xffc01000 4096 0xffc01fff [],
      dev ''HPS_0_ARM_A9_0'' ''HPS_0_UART0'' ''snps_uart'' ''hps_0_uart0'' 0xffc02000 256 0xffc020ff [(''FIFO_DEPTH'', 128), (''FIFO_HWFC'', 0), (''FIFO_MODE'', 1), (''FIFO_SWFC'', 0), (''FREQ'', 100000000)],
      dev ''HPS_0_ARM_A9_0'' ''HPS_0_UART1'' ''snps_uart'' ''hps_0_uart1'' 0xffc03000 256 0xffc030ff [(''FIFO_DEPTH'', 128), (''FIFO_HWFC'', 0), (''FIFO_MODE'', 1), (''FIFO_SWFC'', 0), (''FREQ'', 100000000)],
      dev ''HPS_0_ARM_A9_0'' ''HPS_0_I2C0'' ''designware_i2c'' ''hps_0_i2c0'' 0xffc04000 256 0xffc040ff []]"

definition soc_a9_0_devices_3 :: "macros list" where
  "soc_a9_0_devices_3 =
     [dev ''HPS_0_ARM_A9_0'' ''HPS_0_I2C1'' ''designware_i2c'' ''hps_0_i2c1'' 0xffc05000 256 0xffc050ff [],
      dev ''HPS_0_ARM_A9_0'' ''HPS_0_I2C2'' ''designware_i2c'' ''hps_0_i2c2'' 0xffc06000 256 0xffc060ff [],
      dev ''HPS_0_ARM_A9_0'' ''HPS_0_I2C3'' ''designware_i2c'' ''hps_0_i2c3'' 0xffc07000 256 0xffc070ff [],
      dev ''HPS_0_ARM_A9_0'' ''HPS_0_TIMER0'' ''dw_apb_timer_sp'' ''hps_0_timer0'' 0xffc08000 256 0xffc080ff [],
      dev ''HPS_0_ARM_A9_0'' ''HPS_0_TIMER1'' ''dw_apb_timer_sp'' ''hps_0_timer1'' 0xffc09000 256 0xffc090ff [],
      dev ''HPS_0_ARM_A9_0'' ''HPS_0_SDRCTL'' ''altera_sdrctl'' ''hps_0_sdrctl'' 0xffc25000 4096 0xffc25fff [],
      dev ''HPS_0_ARM_A9_0'' ''HPS_0_TIMER2'' ''dw_apb_timer_osc'' ''hps_0_timer2'' 0xffd00000 256 0xffd000ff [],
      dev ''HPS_0_ARM_A9_0'' ''HPS_0_TIMER3'' ''dw_apb_timer_osc'' ''hps_0_timer3'' 0xffd01000 256 0xffd010ff [],
      dev ''HPS_0_ARM_A9_0'' ''HPS_0_WD_TIMER0'' ''dw_wd_timer'' ''hps_0_wd_timer0'' 0xffd02000 256 0xffd020ff [],
      dev ''HPS_0_ARM_A9_0'' ''HPS_0_WD_TIMER1'' ''dw_wd_timer'' ''hps_0_wd_timer1'' 0xffd03000 256 0xffd030ff [],
      dev ''HPS_0_ARM_A9_0'' ''HPS_0_CLKMGR'' ''asimov_clkmgr'' ''hps_0_clkmgr'' 0xffd04000 4096 0xffd04fff []]"

definition soc_a9_0_devices_4 :: "macros list" where
  "soc_a9_0_devices_4 =
     [dev ''HPS_0_ARM_A9_0'' ''HPS_0_RSTMGR'' ''altera_rstmgr'' ''hps_0_rstmgr'' 0xffd05000 256 0xffd050ff [],
      dev ''HPS_0_ARM_A9_0'' ''HPS_0_SYSMGR'' ''altera_sysmgr'' ''hps_0_sysmgr'' 0xffd08000 1024 0xffd083ff [],
      dev ''HPS_0_ARM_A9_0'' ''HPS_0_DMA'' ''arm_pl330_dma'' ''hps_0_dma'' 0xffe01000 4096 0xffe01fff [],
      dev ''HPS_0_ARM_A9_0'' ''HPS_0_SPIM0'' ''spi'' ''hps_0_spim0'' 0xfff00000 256 0xfff000ff [],
      dev ''HPS_0_ARM_A9_0'' ''HPS_0_SPIM1'' ''spi'' ''hps_0_spim1'' 0xfff01000 256 0xfff010ff [],
      dev ''HPS_0_ARM_A9_0'' ''HPS_0_SCU'' ''scu'' ''hps_0_scu'' 0xfffec000 256 0xfffec0ff [],
      dev ''HPS_0_ARM_A9_0'' ''HPS_0_ARM_GIC_0_AXI_SLAVE1'' ''arm_gic'' ''hps_0_arm_gic_0'' 0xfffec100 256 0xfffec1ff [],
      dev ''HPS_0_ARM_A9_0'' ''HPS_0_TIMER'' ''arm_internal_timer'' ''hps_0_timer'' 0xfffec600 256 0xfffec6ff [],
      dev ''HPS_0_ARM_A9_0'' ''HPS_0_ARM_GIC_0_AXI_SLAVE0'' ''arm_gic'' ''hps_0_arm_gic_0'' 0xfffed000 4096 0xfffedfff [],
      dev ''HPS_0_ARM_A9_0'' ''HPS_0_L2'' ''arm_pl310_L2'' ''hps_0_L2'' 0xfffef000 4096 0xfffeffff [],
      dev ''HPS_0_ARM_A9_0'' ''HPS_0_AXI_OCRAM'' ''axi_ocram'' ''hps_0_axi_ocram'' 0xffff0000 65536 0xffffffff [(''SIZE_MULTIPLE'', 1), (''SIZE_VALUE'', 65536), (''WRITABLE'', 1), (''MEMORY_INFO_GENERATE_DAT_SYM'', 0), (''MEMORY_INFO_GENERATE_HEX'', 0), (''MEMORY_INFO_MEM_INIT_DATA_WIDTH'', 16)]]"

definition soc_a9_0_devices :: "macros list" where
  "soc_a9_0_devices = soc_a9_0_devices_1 @ soc_a9_0_devices_2 @ soc_a9_0_devices_3 @ soc_a9_0_devices_4"

definition soc_a9_1_devices_1 :: "macros list" where
  "soc_a9_1_devices_1 =
     [dev ''HPS_0_ARM_A9_1'' ''HPS_0_AXI_SDRAM'' ''axi_sdram'' ''hps_0_axi_sdram'' 0x0 2147483648 0x7fffffff [(''SIZE_MULTIPLE'', 1), (''SIZE_VALUE'', 2147483648), (''WRITABLE'', 1), (''MEMORY_INFO_GENERATE_DAT_SYM'', 0), (''MEMORY_INFO_GENERATE_HEX'', 0), (''MEMORY_INFO_MEM_INIT_DATA_WIDTH'', 31)],
      dev ''HPS_0_ARM_A9_1'' ''MEM_INTERFACE_0'' ''mem_interface'' ''mem_interface_0'' 0xff200000 1024 0xff2003ff [],
      dev ''HPS_0_ARM_A9_1'' ''HPS_0_GMAC0'' ''stmmac'' ''hps_0_gmac0'' 0xff700000 8192 0xff701fff [],
      dev ''HPS_0_ARM_A9_1'' ''HPS_0_GMAC1'' ''stmmac'' ''hps_0_gmac1'' 0xff702000 8192 0xff703fff [],
      dev ''HPS_0_ARM_A9_1'' ''HPS_0_SDMMC'' ''sdmmc'' ''hps_0_sdmmc'' 0xff704000 4096 0xff704fff [],
      dev ''HPS_0_ARM_A9_1'' ''HPS_0_QSPI_AXI_SLAVE0'' ''cadence_qspi'' ''hps_0_qspi'' 0xff705000 256 0xff7050ff [],
      dev ''HPS_0_ARM_A9_1'' ''HPS_0_FPGAMGR_AXI_SLAVE0'' ''altera_fpgamgr'' ''hps_0_fpgamgr'' 0xff706000 4096 0xff706fff [],
      dev ''HPS_0_ARM_A9_1'' ''HPS_0_GPIO0'' ''dw_gpio'' ''hps_0_gpio0'' 0xff708000 256 0xff7080ff [],
      dev ''HPS_0_ARM_A9_1'' ''HPS_0_GPIO1'' ''dw_gpio'' ''hps_0_gpio1'' 0xff709000 256 0xff7090ff [],
      dev ''HPS_0_ARM_A9_1'' ''HPS_0_GPIO2'' ''dw_gpio'' ''hps_0_gpio2'' 0xff70a000 256 0xff70a0ff [],
      dev ''HPS_0_ARM_A9_1'' ''HPS_0_L3REGS'' ''altera_l3regs'' ''hps_0_l3regs'' 0xff800000 4096 0xff800fff []]"

definition soc_a9_1_devices_2 :: "macros list" where
  "soc_a9_1_devices_2 =
     [dev ''HPS_0_ARM_A9_1'' ''HPS_0_NAND0_AXI_SLAVE0'' ''denali_nand'' ''hps_0_nand0'' 0xff900000 65536 0xff90ffff [],
      dev ''HPS_0_ARM_A9_1'' ''HPS_0_QSPI_AXI_SLAVE1'' ''cadence_qspi'' ''hps_0_qspi'' 0xffa00000 256 0xffa000ff [],
      dev ''HPS_0_ARM_A9_1'' ''HPS_0_USB0'' ''usb'' ''hps_0_usb0'' 0xffb00000 262144 0xffb3ffff [],
      dev ''HPS_0_ARM_A9_1'' ''HPS_0_USB1'' ''usb'' ''hps_0_usb1'' 0xffb40000 262144 0xffb7ffff [],
      dev ''HPS_0_ARM_A9_1'' ''HPS_0_NAND0_AXI_SLAVE1'' ''denali_nand'' ''hps_0_nand0'' 0xffb80000 65536 0xffb8ffff [],
      dev ''HPS_0_ARM_A9_1'' ''HPS_0_FPGAMGR_AXI_SLAVE1'' ''altera_fpgamgr'' ''hps_0_fpgamgr'' 0xffb90000 256 0xffb900ff [],
      dev ''HPS_0_ARM_A9_1'' ''HPS_0_DCAN0'' ''bosch_dcan'' ''hps_0_dcan0'' 0xffc00000 4096 0xffc00fff [],
      dev ''HPS_0_ARM_A9_1'' ''HPS_0_DCAN1'' ''bosch_dcan'' ''hps_0_dcan1'' 0xffc01000 4096 0xffc01fff [],
      dev ''HPS_0_ARM_A9_1'' ''HPS_0_UART0'' ''snps_uart'' ''hps_0_uart0'' 0xffc02000 256 0xffc020ff [(''FIFO_DEPTH'', 128), (''FIFO_HWFC'', 0), (''FIFO_MODE'', 1), (''FIFO_SWFC'', 0), (''FREQ'', 100000000)],
      dev ''HPS_0_ARM_A9_1'' ''HPS_0_UART1'' ''snps_uart'' ''hps_0_uart1'' 0xffc03000 256 0xffc030ff [(''FIFO_DEPTH'', 128), (''FIFO_HWFC'', 0), (''FIFO_MODE'', 1), (''FIFO_SWFC'', 0), (''FREQ'', 100000000)],
      dev ''HPS_0_ARM_A9_1'' ''HPS_0_I2C0'' ''designware_i2c'' ''hps_0_i2c0'' 0xffc04000 256 0xffc040ff []]"

definition soc_a9_1_devices_3 :: "macros list" where
  "soc_a9_1_devices_3 =
     [dev ''HPS_0_ARM_A9_1'' ''HPS_0_I2C1'' ''designware_i2c'' ''hps_0_i2c1'' 0xffc05000 256 0xffc050ff [],
      dev ''HPS_0_ARM_A9_1'' ''HPS_0_I2C2'' ''designware_i2c'' ''hps_0_i2c2'' 0xffc06000 256 0xffc060ff [],
      dev ''HPS_0_ARM_A9_1'' ''HPS_0_I2C3'' ''designware_i2c'' ''hps_0_i2c3'' 0xffc07000 256 0xffc070ff [],
      dev ''HPS_0_ARM_A9_1'' ''HPS_0_TIMER0'' ''dw_apb_timer_sp'' ''hps_0_timer0'' 0xffc08000 256 0xffc080ff [],
      dev ''HPS_0_ARM_A9_1'' ''HPS_0_TIMER1'' ''dw_apb_timer_sp'' ''hps_0_timer1'' 0xffc09000 256 0xffc090ff [],
      dev ''HPS_0_ARM_A9_1'' ''HPS_0_SDRCTL'' ''altera_sdrctl'' ''hps_0_sdrctl'' 0xffc25000 4096 0xffc25fff [],
      dev ''HPS_0_ARM_A9_1'' ''HPS_0_TIMER2'' ''dw_apb_timer_osc'' ''hps_0_timer2'' 0xffd00000 256 0xffd000ff [],
      dev ''HPS_0_ARM_A9_1'' ''HPS_0_TIMER3'' ''dw_apb_timer_osc'' ''hps_0_timer3'' 0xffd01000 256 0xffd010ff [],
      dev ''HPS_0_ARM_A9_1'' ''HPS_0_WD_TIMER0'' ''dw_wd_timer'' ''hps_0_wd_timer0'' 0xffd02000 256 0xffd020ff [],
      dev ''HPS_0_ARM_A9_1'' ''HPS_0_WD_TIMER1'' ''dw_wd_timer'' ''hps_0_wd_timer1'' 0xffd03000 256 0xffd030ff [],
      dev ''HPS_0_ARM_A9_1'' ''HPS_0_CLKMGR'' ''asimov_clkmgr'' ''hps_0_clkmgr'' 0xffd04000 4096 0xffd04fff []]"

definition soc_a9_1_devices_4 :: "macros list" where
  "soc_a9_1_devices_4 =
     [dev ''HPS_0_ARM_A9_1'' ''HPS_0_RSTMGR'' ''altera_rstmgr'' ''hps_0_rstmgr'' 0xffd05000 256 0xffd050ff [],
      dev ''HPS_0_ARM_A9_1'' ''HPS_0_SYSMGR'' ''altera_sysmgr'' ''hps_0_sysmgr'' 0xffd08000 1024 0xffd083ff [],
      dev ''HPS_0_ARM_A9_1'' ''HPS_0_DMA'' ''arm_pl330_dma'' ''hps_0_dma'' 0xffe01000 4096 0xffe01fff [],
      dev ''HPS_0_ARM_A9_1'' ''HPS_0_SPIM0'' ''spi'' ''hps_0_spim0'' 0xfff00000 256 0xfff000ff [],
      dev ''HPS_0_ARM_A9_1'' ''HPS_0_SPIM1'' ''spi'' ''hps_0_spim1'' 0xfff01000 256 0xfff010ff [],
      dev ''HPS_0_ARM_A9_1'' ''HPS_0_SCU'' ''scu'' ''hps_0_scu'' 0xfffec000 256 0xfffec0ff [],
      dev ''HPS_0_ARM_A9_1'' ''HPS_0_ARM_GIC_0_AXI_SLAVE1'' ''arm_gic'' ''hps_0_arm_gic_0'' 0xfffec100 256 0xfffec1ff [],
      dev ''HPS_0_ARM_A9_1'' ''HPS_0_TIMER'' ''arm_internal_timer'' ''hps_0_timer'' 0xfffec600 256 0xfffec6ff [],
      dev ''HPS_0_ARM_A9_1'' ''HPS_0_ARM_GIC_0_AXI_SLAVE0'' ''arm_gic'' ''hps_0_arm_gic_0'' 0xfffed000 4096 0xfffedfff [],
      dev ''HPS_0_ARM_A9_1'' ''HPS_0_L2'' ''arm_pl310_L2'' ''hps_0_L2'' 0xfffef000 4096 0xfffeffff [],
      dev ''HPS_0_ARM_A9_1'' ''HPS_0_AXI_OCRAM'' ''axi_ocram'' ''hps_0_axi_ocram'' 0xffff0000 65536 0xffffffff [(''SIZE_MULTIPLE'', 1), (''SIZE_VALUE'', 65536), (''WRITABLE'', 1), (''MEMORY_INFO_GENERATE_DAT_SYM'', 0), (''MEMORY_INFO_GENERATE_HEX'', 0), (''MEMORY_INFO_MEM_INIT_DATA_WIDTH'', 16)]]"

definition soc_a9_1_devices :: "macros list" where
  "soc_a9_1_devices = soc_a9_1_devices_1 @ soc_a9_1_devices_2 @ soc_a9_1_devices_3 @ soc_a9_1_devices_4"

section \<open>The headers of the single masters\<close>

definition hps_0_devices :: "macros list" where
  "hps_0_devices =
     [dev '''' ''MEM_INTERFACE_0'' ''mem_interface'' ''mem_interface_0'' 0x0 1024 0x3ff []]"

definition hps_0_bridges_devices :: "macros list" where
  "hps_0_bridges_devices =
     [dev '''' ''MEM_INTERFACE_0'' ''mem_interface'' ''mem_interface_0'' 0x0 1024 0x3ff []]"

definition a9_0_devices_1 :: "macros list" where
  "a9_0_devices_1 =
     [dev '''' ''HPS_0_AXI_SDRAM'' ''axi_sdram'' ''hps_0_axi_sdram'' 0x0 2147483648 0x7fffffff [(''SIZE_MULTIPLE'', 1), (''SIZE_VALUE'', 2147483648), (''WRITABLE'', 1), (''MEMORY_INFO_GENERATE_DAT_SYM'', 0), (''MEMORY_INFO_GENERATE_HEX'', 0), (''MEMORY_INFO_MEM_INIT_DATA_WIDTH'', 31)],
      dev '''' ''MEM_INTERFACE_0'' ''mem_interface'' ''mem_interface_0'' 0xff200000 1024 0xff2003ff [],
      dev '''' ''HPS_0_GMAC0'' ''stmmac'' ''hps_0_gmac0'' 0xff700000 8192 0xff701fff [],
      dev '''' ''HPS_0_GMAC1'' ''stmmac'' ''hps_0_gmac1'' 0xff702000 8192 0xff703fff [],
      dev '''' ''HPS_0_SDMMC'' ''sdmmc'' ''hps_0_sdmmc'' 0xff704000 4096 0xff704fff [],
      dev '''' ''HPS_0_QSPI_AXI_SLAVE0'' ''cadence_qspi'' ''hps_0_qspi'' 0xff705000 256 0xff7050ff [],
      dev '''' ''HPS_0_FPGAMGR_AXI_SLAVE0'' ''altera_fpgamgr'' ''hps_0_fpgamgr'' 0xff706000 4096 0xff706fff [],
      dev '''' ''HPS_0_GPIO0'' ''dw_gpio'' ''hps_0_gpio0'' 0xff708000 256 0xff7080ff [],
      dev '''' ''HPS_0_GPIO1'' ''dw_gpio'' ''hps_0_gpio1'' 0xff709000 256 0xff7090ff [],
      dev '''' ''HPS_0_GPIO2'' ''dw_gpio'' ''hps_0_gpio2'' 0xff70a000 256 0xff70a0ff [],
      dev '''' ''HPS_0_L3REGS'' ''altera_l3regs'' ''hps_0_l3regs'' 0xff800000 4096 0xff800fff []]"

definition a9_0_devices_2 :: "macros list" where
  "a9_0_devices_2 =
     [dev '''' ''HPS_0_NAND0_AXI_SLAVE0'' ''denali_nand'' ''hps_0_nand0'' 0xff900000 65536 0xff90ffff [],
      dev '''' ''HPS_0_QSPI_AXI_SLAVE1'' ''cadence_qspi'' ''hps_0_qspi'' 0xffa00000 256 0xffa000ff [],
      dev '''' ''HPS_0_USB0'' ''usb'' ''hps_0_usb0'' 0xffb00000 262144 0xffb3ffff [],
      dev '''' ''HPS_0_USB1'' ''usb'' ''hps_0_usb1'' 0xffb40000 262144 0xffb7ffff [],
      dev '''' ''HPS_0_NAND0_AXI_SLAVE1'' ''denali_nand'' ''hps_0_nand0'' 0xffb80000 65536 0xffb8ffff [],
      dev '''' ''HPS_0_FPGAMGR_AXI_SLAVE1'' ''altera_fpgamgr'' ''hps_0_fpgamgr'' 0xffb90000 256 0xffb900ff [],
      dev '''' ''HPS_0_DCAN0'' ''bosch_dcan'' ''hps_0_dcan0'' 0xffc00000 4096 0xffc00fff [],
      dev '''' ''HPS_0_DCAN1'' ''bosch_dcan'' ''hps_0_dcan1'' 0xffc01000 4096 0xffc01fff [],
      dev '''' ''HPS_0_UART0'' ''snps_uart'' ''hps_0_uart0'' 0xffc02000 256 0xffc020ff [(''FIFO_DEPTH'', 128), (''FIFO_HWFC'', 0), (''FIFO_MODE'', 1), (''FIFO_SWFC'', 0), (''FREQ'', 100000000)],
      dev '''' ''HPS_0_UART1'' ''snps_uart'' ''hps_0_uart1'' 0xffc03000 256 0xffc030ff [(''FIFO_DEPTH'', 128), (''FIFO_HWFC'', 0), (''FIFO_MODE'', 1), (''FIFO_SWFC'', 0), (''FREQ'', 100000000)],
      dev '''' ''HPS_0_I2C0'' ''designware_i2c'' ''hps_0_i2c0'' 0xffc04000 256 0xffc040ff []]"

definition a9_0_devices_3 :: "macros list" where
  "a9_0_devices_3 =
     [dev '''' ''HPS_0_I2C1'' ''designware_i2c'' ''hps_0_i2c1'' 0xffc05000 256 0xffc050ff [],
      dev '''' ''HPS_0_I2C2'' ''designware_i2c'' ''hps_0_i2c2'' 0xffc06000 256 0xffc060ff [],
      dev '''' ''HPS_0_I2C3'' ''designware_i2c'' ''hps_0_i2c3'' 0xffc07000 256 0xffc070ff [],
      dev '''' ''HPS_0_TIMER0'' ''dw_apb_timer_sp'' ''hps_0_timer0'' 0xffc08000 256 0xffc080ff [],
      dev '''' ''HPS_0_TIMER1'' ''dw_apb_timer_sp'' ''hps_0_timer1'' 0xffc09000 256 0xffc090ff [],
      dev '''' ''HPS_0_SDRCTL'' ''altera_sdrctl'' ''hps_0_sdrctl'' 0xffc25000 4096 0xffc25fff [],
      dev '''' ''HPS_0_TIMER2'' ''dw_apb_timer_osc'' ''hps_0_timer2'' 0xffd00000 256 0xffd000ff [],
      dev '''' ''HPS_0_TIMER3'' ''dw_apb_timer_osc'' ''hps_0_timer3'' 0xffd01000 256 0xffd010ff [],
      dev '''' ''HPS_0_WD_TIMER0'' ''dw_wd_timer'' ''hps_0_wd_timer0'' 0xffd02000 256 0xffd020ff [],
      dev '''' ''HPS_0_WD_TIMER1'' ''dw_wd_timer'' ''hps_0_wd_timer1'' 0xffd03000 256 0xffd030ff [],
      dev '''' ''HPS_0_CLKMGR'' ''asimov_clkmgr'' ''hps_0_clkmgr'' 0xffd04000 4096 0xffd04fff []]"

definition a9_0_devices_4 :: "macros list" where
  "a9_0_devices_4 =
     [dev '''' ''HPS_0_RSTMGR'' ''altera_rstmgr'' ''hps_0_rstmgr'' 0xffd05000 256 0xffd050ff [],
      dev '''' ''HPS_0_SYSMGR'' ''altera_sysmgr'' ''hps_0_sysmgr'' 0xffd08000 1024 0xffd083ff [],
      dev '''' ''HPS_0_DMA'' ''arm_pl330_dma'' ''hps_0_dma'' 0xffe01000 4096 0xffe01fff [],
      dev '''' ''HPS_0_SPIM0'' ''spi'' ''hps_0_spim0'' 0xfff00000 256 0xfff000ff [],
      dev '''' ''HPS_0_SPIM1'' ''spi'' ''hps_0_spim1'' 0xfff01000 256 0xfff010ff [],
      dev '''' ''HPS_0_SCU'' ''scu'' ''hps_0_scu'' 0xfffec000 256 0xfffec0ff [],
      dev '''' ''HPS_0_ARM_GIC_0_AXI_SLAVE1'' ''arm_gic'' ''hps_0_arm_gic_0'' 0xfffec100 256 0xfffec1ff [],
      dev '''' ''HPS_0_TIMER'' ''arm_internal_timer'' ''hps_0_timer'' 0xfffec600 256 0xfffec6ff [],
      dev '''' ''HPS_0_ARM_GIC_0_AXI_SLAVE0'' ''arm_gic'' ''hps_0_arm_gic_0'' 0xfffed000 4096 0xfffedfff [],
      dev '''' ''HPS_0_L2'' ''arm_pl310_L2'' ''hps_0_L2'' 0xfffef000 4096 0xfffeffff [],
      dev '''' ''HPS_0_AXI_OCRAM'' ''axi_ocram'' ''hps_0_axi_ocram'' 0xffff0000 65536 0xffffffff [(''SIZE_MULTIPLE'', 1), (''SIZE_VALUE'', 65536), (''WRITABLE'', 1), (''MEMORY_INFO_GENERATE_DAT_SYM'', 0), (''MEMORY_INFO_GENERATE_HEX'', 0), (''MEMORY_INFO_MEM_INIT_DATA_WIDTH'', 16)]]"

definition a9_0_devices :: "macros list" where
  "a9_0_devices = a9_0_devices_1 @ a9_0_devices_2 @ a9_0_devices_3 @ a9_0_devices_4"

definition a9_1_devices_1 :: "macros list" where
  "a9_1_devices_1 =
     [dev '''' ''HPS_0_AXI_SDRAM'' ''axi_sdram'' ''hps_0_axi_sdram'' 0x0 2147483648 0x7fffffff [(''SIZE_MULTIPLE'', 1), (''SIZE_VALUE'', 2147483648), (''WRITABLE'', 1), (''MEMORY_INFO_GENERATE_DAT_SYM'', 0), (''MEMORY_INFO_GENERATE_HEX'', 0), (''MEMORY_INFO_MEM_INIT_DATA_WIDTH'', 31)],
      dev '''' ''MEM_INTERFACE_0'' ''mem_interface'' ''mem_interface_0'' 0xff200000 1024 0xff2003ff [],
      dev '''' ''HPS_0_GMAC0'' ''stmmac'' ''hps_0_gmac0'' 0xff700000 8192 0xff701fff [],
      dev '''' ''HPS_0_GMAC1'' ''stmmac'' ''hps_0_gmac1'' 0xff702000 8192 0xff703fff [],
      dev '''' ''HPS_0_SDMMC'' ''sdmmc'' ''hps_0_sdmmc'' 0xff704000 4096 0xff704fff [],
      dev '''' ''HPS_0_QSPI_AXI_SLAVE0'' ''cadence_qspi'' ''hps_0_qspi'' 0xff705000 256 0xff7050ff [],
      dev '''' ''HPS_0_FPGAMGR_AXI_SLAVE0'' ''altera_fpgamgr'' ''hps_0_fpgamgr'' 0xff706000 4096 0xff706fff [],
      dev '''' ''HPS_0_GPIO0'' ''dw_gpio'' ''hps_0_gpio0'' 0xff708000 256 0xff7080ff [],
      dev '''' ''HPS_0_GPIO1'' ''dw_gpio'' ''hps_0_gpio1'' 0xff709000 256 0xff7090ff [],
      dev '''' ''HPS_0_GPIO2'' ''dw_gpio'' ''hps_0_gpio2'' 0xff70a000 256 0xff70a0ff [],
      dev '''' ''HPS_0_L3REGS'' ''altera_l3regs'' ''hps_0_l3regs'' 0xff800000 4096 0xff800fff []]"

definition a9_1_devices_2 :: "macros list" where
  "a9_1_devices_2 =
     [dev '''' ''HPS_0_NAND0_AXI_SLAVE0'' ''denali_nand'' ''hps_0_nand0'' 0xff900000 65536 0xff90ffff [],
      dev '''' ''HPS_0_QSPI_AXI_SLAVE1'' ''cadence_qspi'' ''hps_0_qspi'' 0xffa00000 256 0xffa000ff [],
      dev '''' ''HPS_0_USB0'' ''usb'' ''hps_0_usb0'' 0xffb00000 262144 0xffb3ffff [],
      dev '''' ''HPS_0_USB1'' ''usb'' ''hps_0_usb1'' 0xffb40000 262144 0xffb7ffff [],
      dev '''' ''HPS_0_NAND0_AXI_SLAVE1'' ''denali_nand'' ''hps_0_nand0'' 0xffb80000 65536 0xffb8ffff [],
      dev '''' ''HPS_0_FPGAMGR_AXI_SLAVE1'' ''altera_fpgamgr'' ''hps_0_fpgamgr'' 0xffb90000 256 0xffb900ff [],
      dev '''' ''HPS_0_DCAN0'' ''bosch_dcan'' ''hps_0_dcan0'' 0xffc00000 4096 0xffc00fff [],
      dev '''' ''HPS_0_DCAN1'' ''bosch_dcan'' ''hps_0_dcan1'' 0xffc01000 4096 0xffc01fff [],
      dev '''' ''HPS_0_UART0'' ''snps_uart'' ''hps_0_uart0'' 0xffc02000 256 0xffc020ff [(''FIFO_DEPTH'', 128), (''FIFO_HWFC'', 0), (''FIFO_MODE'', 1), (''FIFO_SWFC'', 0), (''FREQ'', 100000000)],
      dev '''' ''HPS_0_UART1'' ''snps_uart'' ''hps_0_uart1'' 0xffc03000 256 0xffc030ff [(''FIFO_DEPTH'', 128), (''FIFO_HWFC'', 0), (''FIFO_MODE'', 1), (''FIFO_SWFC'', 0), (''FREQ'', 100000000)],
      dev '''' ''HPS_0_I2C0'' ''designware_i2c'' ''hps_0_i2c0'' 0xffc04000 256 0xffc040ff []]"

definition a9_1_devices_3 :: "macros list" where
  "a9_1_devices_3 =
     [dev '''' ''HPS_0_I2C1'' ''designware_i2c'' ''hps_0_i2c1'' 0xffc05000 256 0xffc050ff [],
      dev '''' ''HPS_0_I2C2'' ''designware_i2c'' ''hps_0_i2c2'' 0xffc06000 256 0xffc060ff [],
      dev '''' ''HPS_0_I2C3'' ''designware_i2c'' ''hps_0_i2c3'' 0xffc07000 256 0xffc070ff [],
      dev '''' ''HPS_0_TIMER0'' ''dw_apb_timer_sp'' ''hps_0_timer0'' 0xffc08000 256 0xffc080ff [],
      dev '''' ''HPS_0_TIMER1'' ''dw_apb_timer_sp'' ''hps_0_timer1'' 0xffc09000 256 0xffc090ff [],
      dev '''' ''HPS_0_SDRCTL'' ''altera_sdrctl'' ''hps_0_sdrctl'' 0xffc25000 4096 0xffc25fff [],
      dev '''' ''HPS_0_TIMER2'' ''dw_apb_timer_osc'' ''hps_0_timer2'' 0xffd00000 256 0xffd000ff [],
      dev '''' ''HPS_0_TIMER3'' ''dw_apb_timer_osc'' ''hps_0_timer3'' 0xffd01000 256 0xffd010ff [],
      dev '''' ''HPS_0_WD_TIMER0'' ''dw_wd_timer'' ''hps_0_wd_timer0'' 0xffd02000 256 0xffd020ff [],
      dev '''' ''HPS_0_WD_TIMER1'' ''dw_wd_timer'' ''hps_0_wd_timer1'' 0xffd03000 256 0xffd030ff [],
      dev '''' ''HPS_0_CLKMGR'' ''asimov_clkmgr'' ''hps_0_clkmgr'' 0xffd04000 4096 0xffd04fff []]"

definition a9_1_devices_4 :: "macros list" where
  "a9_1_devices_4 =
     [dev '''' ''HPS_0_RSTMGR'' ''altera_rstmgr'' ''hps_0_rstmgr'' 0xffd05000 256 0xffd050ff [],
      dev '''' ''HPS_0_SYSMGR'' ''altera_sysmgr'' ''hps_0_sysmgr'' 0xffd08000 1024 0xffd083ff [],
      dev '''' ''HPS_0_DMA'' ''arm_pl330_dma'' ''hps_0_dma'' 0xffe01000 4096 0xffe01fff [],
      dev '''' ''HPS_0_SPIM0'' ''spi'' ''hps_0_spim0'' 0xfff00000 256 0xfff000ff [],
      dev '''' ''HPS_0_SPIM1'' ''spi'' ''hps_0_spim1'' 0xfff01000 256 0xfff010ff [],
      dev '''' ''HPS_0_SCU'' ''scu'' ''hps_0_scu'' 0xfffec000 256 0xfffec0ff [],
      dev '''' ''HPS_0_ARM_GIC_0_AXI_SLAVE1'' ''arm_gic'' ''hps_0_arm_gic_0'' 0xfffec100 256 0xfffec1ff [],
      dev '''' ''HPS_0_TIMER'' ''arm_internal_timer'' ''hps_0_timer'' 0xfffec600 256 0xfffec6ff [],
      dev '''' ''HPS_0_ARM_GIC_0_AXI_SLAVE0'' ''arm_gic'' ''hps_0_arm_gic_0'' 0xfffed000 4096 0xfffedfff [],
      dev '''' ''HPS_0_L2'' ''arm_pl310_L2'' ''hps_0_L2'' 0xfffef000 4096 0xfffeffff [],
      dev '''' ''HPS_0_AXI_OCRAM'' ''axi_ocram'' ''hps_0_axi_ocram'' 0xffff0000 65536 0xffffffff [(''SIZE_MULTIPLE'', 1), (''SIZE_VALUE'', 65536), (''WRITABLE'', 1), (''MEMORY_INFO_GENERATE_DAT_SYM'', 0), (''MEMORY_INFO_GENERATE_HEX'', 0), (''MEMORY_INFO_MEM_INIT_DATA_WIDTH'', 16)]]"

definition a9_1_devices :: "macros list" where
  "a9_1_devices = a9_1_devices_1 @ a9_1_devices_2 @ a9_1_devices_3 @ a9_1_devices_4"

section \<open>What a consistent map is\<close>

definition dev_ok :: "macros \<Rightarrow> bool" where
  "dev_ok d \<longleftrightarrow> 0 < SPAN d \<and> END d + 1 = BASE d + SPAN d \<and> END d < 2 ^ 32 \<and> BASE d mod SPAN d = 0"

fun ordered_map :: "macros list \<Rightarrow> bool" where
  "ordered_map [] = True"
| "ordered_map [d] = dev_ok d"
| "ordered_map (d # e # ds) = (dev_ok d \<and> END d < BASE e \<and> ordered_map (e # ds))"

definition in_dev :: "nat \<Rightarrow> macros \<Rightarrow> bool" where
  "in_dev a d \<longleftrightarrow> BASE d \<le> a \<and> a \<le> END d"

definition decode_address :: "macros list \<Rightarrow> nat \<Rightarrow> macros option" where
  "decode_address ds a = find (in_dev a) ds"

definition local_names :: "macros list \<Rightarrow> macros list" where
  "local_names ds = map (\<lambda>d. d\<lparr>MASTER := []\<rparr>) ds"

section \<open>The window of the register interface\<close>

definition find_macros :: "string \<Rightarrow> string \<Rightarrow> macros list \<Rightarrow> macros option" where
  "find_macros m sl ds = find (\<lambda>d. MASTER d = m \<and> SLAVE d = sl) ds"

definition MAP_SIZE :: nat where
  "MAP_SIZE = (case find_macros ''HPS_0_ARM_A9_0'' ''MEM_INTERFACE_0'' soc_a9_0_devices of Some d \<Rightarrow> SPAN d | None \<Rightarrow> 0)"

definition MAP_BASE :: nat where
  "MAP_BASE = (case find_macros ''HPS_0_ARM_A9_0'' ''MEM_INTERFACE_0'' soc_a9_0_devices of Some d \<Rightarrow> BASE d | None \<Rightarrow> 0)"

definition register_address :: "nat \<Rightarrow> nat" where
  "register_address i = MAP_BASE + 4 * i"

section \<open>Decoding\<close>

lemma ordered_map_Cons:
  "ordered_map (d # ds) \<longleftrightarrow> dev_ok d \<and> ordered_map ds \<and> (\<forall>e \<in> set ds. END d < BASE e)"
proof (induction ds arbitrary: d)
  case (Cons e ds)
  have "END d < BASE f" if "dev_ok e" "END d < BASE e" "END e < BASE f" for f
    using that by (simp add: dev_ok_def)
  then show ?case using Cons.IH [of e] by auto
qed simp

lemma ordered_map_append:
  "ordered_map (ds @ es) \<longleftrightarrow> ordered_map ds \<and> ordered_map es \<and> (\<forall>d \<in> set ds. \<forall>e \<in> set es. END d < BASE e)"
  by (induction ds) (auto simp: ordered_map_Cons)

lemma decode_unique:
  assumes "ordered_map ds" "d \<in> set ds" "in_dev a d"
  shows "decode_address ds a = Some d"
  using assms
proof (induction ds)
  case (Cons e ds)
  show ?case
  proof (cases "d = e")
    case False
    with Cons.prems have "d \<in> set ds" "END e < BASE d" "ordered_map ds" by (auto simp: ordered_map_Cons)
    moreover from this Cons.prems(3) have "\<not> in_dev a e" by (simp add: in_dev_def)
    ultimately show ?thesis using Cons.IH Cons.prems(3) by (simp add: decode_address_def)
  qed (use Cons.prems(3) in \<open>simp add: decode_address_def\<close>)
qed simp

lemma decode_Some: "decode_address ds a = Some d \<Longrightarrow> d \<in> set ds \<and> in_dev a d"
  by (auto simp: decode_address_def find_Some_iff)

section \<open>The maps of the two cores\<close>

lemma a9_parts_ordered:
  "ordered_map a9_0_devices_1" "ordered_map a9_0_devices_2" "ordered_map a9_0_devices_3" "ordered_map a9_0_devices_4"
  by (simp_all add: a9_0_devices_1_def a9_0_devices_2_def a9_0_devices_3_def a9_0_devices_4_def dev_def dev_ok_def)

lemma a9_parts_below:
  "list_all (\<lambda>d. END d < 0xff900000) a9_0_devices_1"
  "list_all (\<lambda>d. END d < 0xffc05000) a9_0_devices_2"
  "list_all (\<lambda>d. END d < 0xffd05000) a9_0_devices_3"
  by (simp_all add: a9_0_devices_1_def a9_0_devices_2_def a9_0_devices_3_def dev_def)

lemma a9_parts_above:
  "list_all (\<lambda>d. 0xff900000 \<le> BASE d) (a9_0_devices_2 @ a9_0_devices_3 @ a9_0_devices_4)"
  "list_all (\<lambda>d. 0xffc05000 \<le> BASE d) (a9_0_devices_3 @ a9_0_devices_4)"
  "list_all (\<lambda>d. 0xffd05000 \<le> BASE d) a9_0_devices_4"
  by (simp_all add: a9_0_devices_2_def a9_0_devices_3_def a9_0_devices_4_def dev_def)

lemma ordered_map_split:
  assumes "ordered_map ds" "ordered_map es" "list_all (\<lambda>d. END d < k) ds" "list_all (\<lambda>e. k \<le> BASE e) es"
  shows "ordered_map (ds @ es)"
  using assms by (fastforce simp: ordered_map_append list_all_iff)

lemma a9_0_ordered: "ordered_map a9_0_devices"
  unfolding a9_0_devices_def
  by (rule ordered_map_split [OF a9_parts_ordered(1) ordered_map_split [OF a9_parts_ordered(2)
        ordered_map_split [OF a9_parts_ordered(3,4) a9_parts_below(3) a9_parts_above(3)]
        a9_parts_below(2) a9_parts_above(2)] a9_parts_below(1) a9_parts_above(1)])

lemma a9_1_parts:
  "a9_1_devices_1 = a9_0_devices_1" "a9_1_devices_2 = a9_0_devices_2"
  "a9_1_devices_3 = a9_0_devices_3" "a9_1_devices_4 = a9_0_devices_4"
  unfolding a9_0_devices_1_def a9_0_devices_2_def a9_0_devices_3_def a9_0_devices_4_def
    a9_1_devices_1_def a9_1_devices_2_def a9_1_devices_3_def a9_1_devices_4_def by (rule refl)+

lemma soc_a9_0_parts:
  "local_names soc_a9_0_devices_1 = a9_0_devices_1" "local_names soc_a9_0_devices_2 = a9_0_devices_2"
  "local_names soc_a9_0_devices_3 = a9_0_devices_3" "local_names soc_a9_0_devices_4 = a9_0_devices_4"
  unfolding soc_a9_0_devices_1_def soc_a9_0_devices_2_def soc_a9_0_devices_3_def soc_a9_0_devices_4_def
    a9_0_devices_1_def a9_0_devices_2_def a9_0_devices_3_def a9_0_devices_4_def local_names_def list.map dev_def
  by (simp_all only: macros.simps)

lemma soc_a9_1_parts:
  "local_names soc_a9_1_devices_1 = a9_0_devices_1" "local_names soc_a9_1_devices_2 = a9_0_devices_2"
  "local_names soc_a9_1_devices_3 = a9_0_devices_3" "local_names soc_a9_1_devices_4 = a9_0_devices_4"
  unfolding soc_a9_1_devices_1_def soc_a9_1_devices_2_def soc_a9_1_devices_3_def soc_a9_1_devices_4_def
    a9_0_devices_1_def a9_0_devices_2_def a9_0_devices_3_def a9_0_devices_4_def local_names_def list.map dev_def
  by (simp_all only: macros.simps)

lemma local_names_append: "local_names (ds @ es) = local_names ds @ local_names es"
  by (simp add: local_names_def)

lemma soc_views:
  "local_names soc_a9_0_devices = a9_0_devices" "local_names soc_a9_1_devices = a9_1_devices"
  "a9_1_devices = a9_0_devices"
  by (simp_all add: soc_a9_0_devices_def soc_a9_1_devices_def a9_0_devices_def a9_1_devices_def
      local_names_append soc_a9_0_parts soc_a9_1_parts a9_1_parts)

lemma ordered_map_local_names: "ordered_map (local_names ds) = ordered_map ds"
  by (induction ds) (simp_all add: local_names_def ordered_map_Cons dev_ok_def)

lemma soc_ordered: "ordered_map soc_a9_0_devices" "ordered_map soc_a9_1_devices"
  using a9_0_ordered soc_views ordered_map_local_names by metis+

definition mem_interface_0 :: macros where
  "mem_interface_0 = dev ''HPS_0_ARM_A9_0'' ''MEM_INTERFACE_0'' ''mem_interface'' ''mem_interface_0'' 0xff200000 1024 0xff2003ff []"

lemma mem_interface_found:
  "mem_interface_0 \<in> set soc_a9_0_devices"
  "find_macros ''HPS_0_ARM_A9_0'' ''MEM_INTERFACE_0'' soc_a9_0_devices = Some mem_interface_0"
  by (simp_all add: soc_a9_0_devices_def soc_a9_0_devices_1_def mem_interface_0_def find_macros_def dev_def)

lemma map_values: "MAP_SIZE = 1024" "MAP_BASE = 0xff200000"
  by (simp_all add: MAP_SIZE_def MAP_BASE_def mem_interface_found(2)) (simp_all add: mem_interface_0_def dev_def)

lemma decode_register:
  "decode_address soc_a9_0_devices (register_address i) = Some mem_interface_0 \<longleftrightarrow> i < MAP_SIZE div 4"
proof
  assume "decode_address soc_a9_0_devices (register_address i) = Some mem_interface_0"
  then have "in_dev (register_address i) mem_interface_0" by (blast dest: decode_Some)
  then show "i < MAP_SIZE div 4"
    by (simp add: in_dev_def register_address_def map_values) (simp add: mem_interface_0_def dev_def)
next
  assume "i < MAP_SIZE div 4"
  then have "in_dev (register_address i) mem_interface_0"
    by (simp add: in_dev_def register_address_def map_values) (simp add: mem_interface_0_def dev_def)
  then show "decode_address soc_a9_0_devices (register_address i) = Some mem_interface_0"
    by (rule decode_unique [OF soc_ordered(1) mem_interface_found(1)])
qed

section \<open>Properties\<close>


text \<open>
  The register window of the driver is exactly the FPGA's memory interface: register i, at
  \<open>MAP_BASE\<close> + 4 i, is decoded to that device precisely when i is below \<open>MAP_SIZE\<close> / 4, and then to no
  other device of the system.
\<close>

lemma registers_decode:
  "decode_address soc_a9_0_devices (register_address i) = Some mem_interface_0 \<longleftrightarrow> i < MAP_SIZE div 4"
  by (rule decode_register)

end
