(* ===== verification/Hw_Design_Map.thy ===== *)
theory Hw_Design_Map
  imports Address_Map
begin

text \<open>
  The same generated headers as they lie beside the hardware design (\<open>DE10_HW_Design/Output Files\<close>),
  which the bring-up program includes: a second copy in the repository that has to stay in step with
  \<open>de10_conf/include\<close>, which the application includes.
\<close>


section \<open>The system header\<close>

definition hw_soc_bridge_devices :: "macros list" where
  "hw_soc_bridge_devices =
     [dev ''HPS_0'' ''MEM_INTERFACE_0'' ''mem_interface'' ''mem_interface_0'' 0x0 1024 0x3ff [],
      dev ''HPS_0_BRIDGES'' ''MEM_INTERFACE_0'' ''mem_interface'' ''mem_interface_0'' 0x0 1024 0x3ff []]"

definition hw_soc_a9_0_devices_1 :: "macros list" where
  "hw_soc_a9_0_devices_1 =
     [dev ''HPS_0_ARM_A9_0'' ''HPS_0_AXI_SDRAM'' ''axi_sdram'' ''hps_0_axi_sdram'' 0x0 2147483648 0x7fffffff [(''SIZE_MULTIPLE'', 1), (''SIZE_VALUE'', 2147483648), (''WRITABLE'', 1), (''MEMORY_INFO_GENERATE_DAT_SYM'', 0), (''MEMORY_INFO_GENERATE_HEX'', 0), (''MEMORY_INFO_MEM_INIT_DATA_WIDTH'', 31)],
      dev ''HPS_0_ARM_A9_0'' ''MEM_INTERFACE_0'' ''mem_interface'' ''mem_interface_0'' 0xff200000 1024 0xff2003ff [],
      dev ''HPS_0_ARM_A9_0'' ''HPS_0_GMAC0'' ''stmmac'' ''hps_0_gmac0'' 0xff700000 8192 0xff701fff [],
      dev ''HPS_0_ARM_A9_0'' ''HPS_0_GMAC1'' ''stmmac'' ''hps_0_gmac1'' 0xff702000 8192 0xff703fff [],
      dev ''HPS_0_ARM_A9_0'' ''HPS_0_SDMMC'' ''sdmmc'' ''hps_0_sdmmc'' 0xff704000 4096 0xff704fff [],
      dev ''HPS_0_ARM_A9_0'' ''HPS_0_QSPI_AXI_SLAVE0'' ''cadence_qspi'' ''hps_0_qspi'' 0xff705000 256 0xff7050ff [],
      dev ''HPS_0_ARM_A9_0'' ''HPS_0_FPGAMGR_AXI_SLAVE0'' ''altera_fpgamgr'' ''hps_0_fpgamgr'' 0xff706000 4096 0xff706fff [],
      dev ''HPS_0_ARM_A9_0'' ''HPS_0_GPIO0'' ''dw_gpio'' ''hps_0_gpio0'' 0xff708000 256 0xff7080ff [],
      dev ''HPS_0_ARM_A9_0'' ''HPS_0_GPIO1'' ''dw_gpio'' ''hps_0_gpio1'' 0xff709000 256 0xff7090ff [],
      dev ''HPS_0_ARM_A9_0'' ''HPS_0_GPIO2'' ''dw_gpio'' ''hps_0_gpio2'' 0xff70a000 256 0xff70a0ff [],
      dev ''HPS_0_ARM_A9_0'' ''HPS_0_L3REGS'' ''altera_l3regs'' ''hps_0_l3regs'' 0xff800000 4096 0xff800fff []]"

definition hw_soc_a9_0_devices_2 :: "macros list" where
  "hw_soc_a9_0_devices_2 =
     [dev ''HPS_0_ARM_A9_0'' ''HPS_0_NAND0_AXI_SLAVE0'' ''denali_nand'' ''hps_0_nand0'' 0xff900000 65536 0xff90ffff [],
      dev ''HPS_0_ARM_A9_0'' ''HPS_0_QSPI_AXI_SLAVE1'' ''cadence_qspi'' ''hps_0_qspi'' 0xffa00000 256 0xffa000ff [],
      dev ''HPS_0_ARM_A9_0'' ''HPS_0_USB0'' ''usb'' ''hps_0_usb0'' 0xffb00000 262144 0xffb3ffff [],
      dev ''HPS_0_ARM_A9_0'' ''HPS_0_USB1'' ''usb'' ''hps_0_usb1'' 0xffb40000 262144 0xffb7ffff [],
      dev ''HPS_0_ARM_A9_0'' ''HPS_0_NAND0_AXI_SLAVE1'' ''denali_nand'' ''hps_0_nand0'' 0xffb80000 65536 0xffb8ffff [],
      dev ''HPS_0_ARM_A9_0'' ''HPS_0_FPGAMGR_AXI_SLAVE1'' ''altera_fpgamgr'' ''hps_0_fpgamgr'' 0xffb90000 256 0xffb900ff [],
      dev ''HPS_0_ARM_A9_0'' ''HPS_0_DCAN0'' ''bosch_dcan'' ''hps_0_dcan0'' 0xffc00000 4096 0xffc00fff [],
      dev ''HPS_0_ARM_A9_0'' ''HPS_0_DCAN1'' ''bosch_dcan'' ''hps_0_dcan1'' 0xffc01000 4096 0xffc01fff [],
      dev ''HPS_0_ARM_A9_0'' ''HPS_0_UART0'' ''snps_uart'' ''hps_0_uart0'' 0xffc02000 256 0xffc020ff [(''FIFO_DEPTH'', 128), (''FIFO_HWFC'', 0), (''FIFO_MODE'', 1), (''FIFO_SWFC'', 0), (''FREQ'', 100000000)],
      dev ''HPS_0_ARM_A9_0'' ''HPS_0_UART1'' ''snps_uart'' ''hps_0_uart1'' 0xffc03000 256 0xffc030ff [(''FIFO_DEPTH'', 128), (''FIFO_HWFC'', 0), (''FIFO_MODE'', 1), (''FIFO_SWFC'', 0), (''FREQ'', 100000000)],
      dev ''HPS_0_ARM_A9_0'' ''HPS_0_I2C0'' ''designware_i2c'' ''hps_0_i2c0'' 0xffc04000 256 0xffc040ff []]"

definition hw_soc_a9_0_devices_3 :: "macros list" where
  "hw_soc_a9_0_devices_3 =
     [dev ''HPS_0_ARM_A9_0'' ''HPS_0_I2C1'' ''designware_i2c'' ''hps_0_i2c1'' 0xffc05000 256 0xffc050ff [],
      dev ''HPS_0_ARM_A9_0'' ''HPS_0_I2C2'' ''designware_i2c'' ''hps_0_i2c2'' 0xffc06000 256 0xffc060ff [],
      dev ''HPS_0_ARM_A9_0'' ''HPS_0_I2C3'' ''designware_i2c'' ''hps_0_i2c3'' 0xffc07000 256 0xffc070ff [],
      dev ''HPS_0_ARM_A9_0'' ''HPS_0_TIMER0'' ''dw_apb_timer_sp'' ''hps_0_timer0'' 0xffc08000 256 0xffc080ff [],
      dev ''HPS_0_ARM_A9_0'' ''HPS_0_TIMER1'' ''dw_apb_timer_sp'' ''hps_0_timer1'' 0xffc09000 256 0xffc090ff [],
      dev ''HPS_0_ARM_A9_0'' ''HPS_0_SDRCTL'' ''altera_sdrctl'' ''hps_0_sdrctl'' 0xffc25000 4096 0xffc25fff [],
      dev ''HPS_0_ARM_A9_0'' ''HPS_0_TIMER2'' ''dw_apb_timer_osc'' ''hps_0_timer2'' 0xffd00000 256 0xffd000ff [],
      dev ''HPS_0_ARM_A9_0'' ''HPS_0_TIMER3'' ''dw_apb_timer_osc'' ''hps_0_timer3'' 0xffd01000 256 0xffd010ff [],
      dev ''HPS_0_ARM_A9_0'' ''HPS_0_WD_TIMER0'' ''dw_wd_timer'' ''hps_0_wd_timer0'' 0xffd02000 256 0xffd020ff [],
      dev ''HPS_0_ARM_A9_0'' ''HPS_0_WD_TIMER1'' ''dw_wd_timer'' ''hps_0_wd_timer1'' 0xffd03000 256 0xffd030ff [],
      dev ''HPS_0_ARM_A9_0'' ''HPS_0_CLKMGR'' ''asimov_clkmgr'' ''hps_0_clkmgr'' 0xffd04000 4096 0xffd04fff []]"

definition hw_soc_a9_0_devices_4 :: "macros list" where
  "hw_soc_a9_0_devices_4 =
     [dev ''HPS_0_ARM_A9_0'' ''HPS_0_RSTMGR'' ''altera_rstmgr'' ''hps_0_rstmgr'' 0xffd05000 256 0xffd050ff [],
      dev ''HPS_0_ARM_A9_0'' ''HPS_0_SYSMGR'' ''altera_sysmgr'' ''hps_0_sysmgr'' 0xffd08000 1024 0xffd083ff [],
      dev ''HPS_0_ARM_A9_0'' ''HPS_0_DMA'' ''arm_pl330_dma'' ''hps_0_dma'' 0xffe01000 4096 0xffe01fff [],
      dev ''HPS_0_ARM_A9_0'' ''HPS_0_SPIM0'' ''spi'' ''hps_0_spim0'' 0xfff00000 256 0xfff000ff [],
      dev ''HPS_0_ARM_A9_0'' ''HPS_0_SPIM1'' ''spi'' ''hps_0_spim1'' 0xfff01000 256 0xfff010ff [],
      dev ''HPS_0_ARM_A9_0'' ''HPS_0_SCU'' ''scu'' ''hps_0_scu'' 0xfffec000 256 0xfffec0ff [],
      dev ''HPS_0_ARM_A9_0'' ''HPS_0_ARM_GIC_0_AXI_SLAVE1'' ''arm_gic'' ''hps_0_arm_gic_0'' 0xfffec100 256 0xfffec1ff [],
      dev ''HPS_0_ARM_A9_0'' ''HPS_0_TIMER'' ''arm_internal_timer'' ''hps_0_timer'' 0xfffec600 256 0xfffec6ff [],
      dev ''HPS_0_ARM_A9_0'' ''HPS_0_ARM_GIC_0_AXI_SLAVE0'' ''arm_gic'' ''hps_0_arm_gic_0'' 0xfffed000 4096 0xfffedfff [],
      dev ''HPS_0_ARM_A9_0'' ''HPS_0_L2'' ''arm_pl310_L2'' ''hps_0_L2'' 0xfffef000 4096 0xfffeffff [],
      dev ''HPS_0_ARM_A9_0'' ''HPS_0_AXI_OCRAM'' ''axi_ocram'' ''hps_0_axi_ocram'' 0xffff0000 65536 0xffffffff [(''SIZE_MULTIPLE'', 1), (''SIZE_VALUE'', 65536), (''WRITABLE'', 1), (''MEMORY_INFO_GENERATE_DAT_SYM'', 0), (''MEMORY_INFO_GENERATE_HEX'', 0), (''MEMORY_INFO_MEM_INIT_DATA_WIDTH'', 16)]]"

definition hw_soc_a9_0_devices :: "macros list" where
  "hw_soc_a9_0_devices = hw_soc_a9_0_devices_1 @ hw_soc_a9_0_devices_2 @ hw_soc_a9_0_devices_3 @ hw_soc_a9_0_devices_4"

definition hw_soc_a9_1_devices_1 :: "macros list" where
  "hw_soc_a9_1_devices_1 =
     [dev ''HPS_0_ARM_A9_1'' ''HPS_0_AXI_SDRAM'' ''axi_sdram'' ''hps_0_axi_sdram'' 0x0 2147483648 0x7fffffff [(''SIZE_MULTIPLE'', 1), (''SIZE_VALUE'', 2147483648), (''WRITABLE'', 1), (''MEMORY_INFO_GENERATE_DAT_SYM'', 0), (''MEMORY_INFO_GENERATE_HEX'', 0), (''MEMORY_INFO_MEM_INIT_DATA_WIDTH'', 31)],
      dev ''HPS_0_ARM_A9_1'' ''MEM_INTERFACE_0'' ''mem_interface'' ''mem_interface_0'' 0xff200000 1024 0xff2003ff [],
      dev ''HPS_0_ARM_A9_1'' ''HPS_0_GMAC0'' ''stmmac'' ''hps_0_gmac0'' 0xff700000 8192 0xff701fff [],
      dev ''HPS_0_ARM_A9_1'' ''HPS_0_GMAC1'' ''stmmac'' ''hps_0_gmac1'' 0xff702000 8192 0xff703fff [],
      dev ''HPS_0_ARM_A9_1'' ''HPS_0_SDMMC'' ''sdmmc'' ''hps_0_sdmmc'' 0xff704000 4096 0xff704fff [],
      dev ''HPS_0_ARM_A9_1'' ''HPS_0_QSPI_AXI_SLAVE0'' ''cadence_qspi'' ''hps_0_qspi'' 0xff705000 256 0xff7050ff [],
      dev ''HPS_0_ARM_A9_1'' ''HPS_0_FPGAMGR_AXI_SLAVE0'' ''altera_fpgamgr'' ''hps_0_fpgamgr'' 0xff706000 4096 0xff706fff [],
      dev ''HPS_0_ARM_A9_1'' ''HPS_0_GPIO0'' ''dw_gpio'' ''hps_0_gpio0'' 0xff708000 256 0xff7080ff [],
      dev ''HPS_0_ARM_A9_1'' ''HPS_0_GPIO1'' ''dw_gpio'' ''hps_0_gpio1'' 0xff709000 256 0xff7090ff [],
      dev ''HPS_0_ARM_A9_1'' ''HPS_0_GPIO2'' ''dw_gpio'' ''hps_0_gpio2'' 0xff70a000 256 0xff70a0ff [],
      dev ''HPS_0_ARM_A9_1'' ''HPS_0_L3REGS'' ''altera_l3regs'' ''hps_0_l3regs'' 0xff800000 4096 0xff800fff []]"

definition hw_soc_a9_1_devices_2 :: "macros list" where
  "hw_soc_a9_1_devices_2 =
     [dev ''HPS_0_ARM_A9_1'' ''HPS_0_NAND0_AXI_SLAVE0'' ''denali_nand'' ''hps_0_nand0'' 0xff900000 65536 0xff90ffff [],
      dev ''HPS_0_ARM_A9_1'' ''HPS_0_QSPI_AXI_SLAVE1'' ''cadence_qspi'' ''hps_0_qspi'' 0xffa00000 256 0xffa000ff [],
      dev ''HPS_0_ARM_A9_1'' ''HPS_0_USB0'' ''usb'' ''hps_0_usb0'' 0xffb00000 262144 0xffb3ffff [],
      dev ''HPS_0_ARM_A9_1'' ''HPS_0_USB1'' ''usb'' ''hps_0_usb1'' 0xffb40000 262144 0xffb7ffff [],
      dev ''HPS_0_ARM_A9_1'' ''HPS_0_NAND0_AXI_SLAVE1'' ''denali_nand'' ''hps_0_nand0'' 0xffb80000 65536 0xffb8ffff [],
      dev ''HPS_0_ARM_A9_1'' ''HPS_0_FPGAMGR_AXI_SLAVE1'' ''altera_fpgamgr'' ''hps_0_fpgamgr'' 0xffb90000 256 0xffb900ff [],
      dev ''HPS_0_ARM_A9_1'' ''HPS_0_DCAN0'' ''bosch_dcan'' ''hps_0_dcan0'' 0xffc00000 4096 0xffc00fff [],
      dev ''HPS_0_ARM_A9_1'' ''HPS_0_DCAN1'' ''bosch_dcan'' ''hps_0_dcan1'' 0xffc01000 4096 0xffc01fff [],
      dev ''HPS_0_ARM_A9_1'' ''HPS_0_UART0'' ''snps_uart'' ''hps_0_uart0'' 0xffc02000 256 0xffc020ff [(''FIFO_DEPTH'', 128), (''FIFO_HWFC'', 0), (''FIFO_MODE'', 1), (''FIFO_SWFC'', 0), (''FREQ'', 100000000)],
      dev ''HPS_0_ARM_A9_1'' ''HPS_0_UART1'' ''snps_uart'' ''hps_0_uart1'' 0xffc03000 256 0xffc030ff [(''FIFO_DEPTH'', 128), (''FIFO_HWFC'', 0), (''FIFO_MODE'', 1), (''FIFO_SWFC'', 0), (''FREQ'', 100000000)],
      dev ''HPS_0_ARM_A9_1'' ''HPS_0_I2C0'' ''designware_i2c'' ''hps_0_i2c0'' 0xffc04000 256 0xffc040ff []]"

definition hw_soc_a9_1_devices_3 :: "macros list" where
  "hw_soc_a9_1_devices_3 =
     [dev ''HPS_0_ARM_A9_1'' ''HPS_0_I2C1'' ''designware_i2c'' ''hps_0_i2c1'' 0xffc05000 256 0xffc050ff [],
      dev ''HPS_0_ARM_A9_1'' ''HPS_0_I2C2'' ''designware_i2c'' ''hps_0_i2c2'' 0xffc06000 256 0xffc060ff [],
      dev ''HPS_0_ARM_A9_1'' ''HPS_0_I2C3'' ''designware_i2c'' ''hps_0_i2c3'' 0xffc07000 256 0xffc070ff [],
      dev ''HPS_0_ARM_A9_1'' ''HPS_0_TIMER0'' ''dw_apb_timer_sp'' ''hps_0_timer0'' 0xffc08000 256 0xffc080ff [],
      dev ''HPS_0_ARM_A9_1'' ''HPS_0_TIMER1'' ''dw_apb_timer_sp'' ''hps_0_timer1'' 0xffc09000 256 0xffc090ff [],
      dev ''HPS_0_ARM_A9_1'' ''HPS_0_SDRCTL'' ''altera_sdrctl'' ''hps_0_sdrctl'' 0xffc25000 4096 0xffc25fff [],
      dev ''HPS_0_ARM_A9_1'' ''HPS_0_TIMER2'' ''dw_apb_timer_osc'' ''hps_0_timer2'' 0xffd00000 256 0xffd000ff [],
      dev ''HPS_0_ARM_A9_1'' ''HPS_0_TIMER3'' ''dw_apb_timer_osc'' ''hps_0_timer3'' 0xffd01000 256 0xffd010ff [],
      dev ''HPS_0_ARM_A9_1'' ''HPS_0_WD_TIMER0'' ''dw_wd_timer'' ''hps_0_wd_timer0'' 0xffd02000 256 0xffd020ff [],
      dev ''HPS_0_ARM_A9_1'' ''HPS_0_WD_TIMER1'' ''dw_wd_timer'' ''hps_0_wd_timer1'' 0xffd03000 256 0xffd030ff [],
      dev ''HPS_0_ARM_A9_1'' ''HPS_0_CLKMGR'' ''asimov_clkmgr'' ''hps_0_clkmgr'' 0xffd04000 4096 0xffd04fff []]"

definition hw_soc_a9_1_devices_4 :: "macros list" where
  "hw_soc_a9_1_devices_4 =
     [dev ''HPS_0_ARM_A9_1'' ''HPS_0_RSTMGR'' ''altera_rstmgr'' ''hps_0_rstmgr'' 0xffd05000 256 0xffd050ff [],
      dev ''HPS_0_ARM_A9_1'' ''HPS_0_SYSMGR'' ''altera_sysmgr'' ''hps_0_sysmgr'' 0xffd08000 1024 0xffd083ff [],
      dev ''HPS_0_ARM_A9_1'' ''HPS_0_DMA'' ''arm_pl330_dma'' ''hps_0_dma'' 0xffe01000 4096 0xffe01fff [],
      dev ''HPS_0_ARM_A9_1'' ''HPS_0_SPIM0'' ''spi'' ''hps_0_spim0'' 0xfff00000 256 0xfff000ff [],
      dev ''HPS_0_ARM_A9_1'' ''HPS_0_SPIM1'' ''spi'' ''hps_0_spim1'' 0xfff01000 256 0xfff010ff [],
      dev ''HPS_0_ARM_A9_1'' ''HPS_0_SCU'' ''scu'' ''hps_0_scu'' 0xfffec000 256 0xfffec0ff [],
      dev ''HPS_0_ARM_A9_1'' ''HPS_0_ARM_GIC_0_AXI_SLAVE1'' ''arm_gic'' ''hps_0_arm_gic_0'' 0xfffec100 256 0xfffec1ff [],
      dev ''HPS_0_ARM_A9_1'' ''HPS_0_TIMER'' ''arm_internal_timer'' ''hps_0_timer'' 0xfffec600 256 0xfffec6ff [],
      dev ''HPS_0_ARM_A9_1'' ''HPS_0_ARM_GIC_0_AXI_SLAVE0'' ''arm_gic'' ''hps_0_arm_gic_0'' 0xfffed000 4096 0xfffedfff [],
      dev ''HPS_0_ARM_A9_1'' ''HPS_0_L2'' ''arm_pl310_L2'' ''hps_0_L2'' 0xfffef000 4096 0xfffeffff [],
      dev ''HPS_0_ARM_A9_1'' ''HPS_0_AXI_OCRAM'' ''axi_ocram'' ''hps_0_axi_ocram'' 0xffff0000 65536 0xffffffff [(''SIZE_MULTIPLE'', 1), (''SIZE_VALUE'', 65536), (''WRITABLE'', 1), (''MEMORY_INFO_GENERATE_DAT_SYM'', 0), (''MEMORY_INFO_GENERATE_HEX'', 0), (''MEMORY_INFO_MEM_INIT_DATA_WIDTH'', 16)]]"

definition hw_soc_a9_1_devices :: "macros list" where
  "hw_soc_a9_1_devices = hw_soc_a9_1_devices_1 @ hw_soc_a9_1_devices_2 @ hw_soc_a9_1_devices_3 @ hw_soc_a9_1_devices_4"

section \<open>The headers of the single masters\<close>

definition hw_hps_0_devices :: "macros list" where
  "hw_hps_0_devices =
     [dev '''' ''MEM_INTERFACE_0'' ''mem_interface'' ''mem_interface_0'' 0x0 1024 0x3ff []]"

definition hw_hps_0_bridges_devices :: "macros list" where
  "hw_hps_0_bridges_devices =
     [dev '''' ''MEM_INTERFACE_0'' ''mem_interface'' ''mem_interface_0'' 0x0 1024 0x3ff []]"

definition hw_a9_0_devices_1 :: "macros list" where
  "hw_a9_0_devices_1 =
     [dev '''' ''HPS_0_AXI_SDRAM'' ''axi_sdram'' ''hps_0_axi_sdram'' 0x0 2147483648 0x7fffffff [(''SIZE_MULTIPLE'', 1), (''SIZE_VALUE'', 2147483648), (''WRITABLE'', 1), (''MEMORY_INFO_GENERATE_DAT_SYM'', 0), (''MEMORY_INFO_GENERATE_HEX'', 0), (''MEMORY_INFO_MEM_INIT_DATA_WIDTH'', 31)],
      dev '''' ''MEM_INTERFACE_0'' ''mem_interface'' ''mem_interface_0'' 0xff200000 1024 0xff2003ff [],
      dev '''' ''HPS_0_GMAC0'' ''stmmac'' ''hps_0_gmac0'' 0xff700000 8192 0xff701fff [],
      dev '''' ''HPS_0_GMAC1'' ''stmmac'' ''hps_0_gmac1'' 0xff702000 8192 0xff703fff [],
      dev '''' ''HPS_0_SDMMC'' ''sdmmc'' ''hps_0_sdmmc'' 0xff704000 4096 0xff704fff [],
      dev '''' ''HPS_0_QSPI_AXI_SLAVE0'' ''cadence_qspi'' ''hps_0_qspi'' 0xff705000 256 0xff7050ff [],
      dev '''' ''HPS_0_FPGAMGR_AXI_SLAVE0'' ''altera_fpgamgr'' ''hps_0_fpgamgr'' 0xff706000 4096 0xff706fff [],
      dev '''' ''HPS_0_GPIO0'' ''dw_gpio'' ''hps_0_gpio0'' 0xff708000 256 0xff7080ff [],
      dev '''' ''HPS_0_GPIO1'' ''dw_gpio'' ''hps_0_gpio1'' 0xff709000 256 0xff7090ff [],
      dev '''' ''HPS_0_GPIO2'' ''dw_gpio'' ''hps_0_gpio2'' 0xff70a000 256 0xff70a0ff [],
      dev '''' ''HPS_0_L3REGS'' ''altera_l3regs'' ''hps_0_l3regs'' 0xff800000 4096 0xff800fff []]"

definition hw_a9_0_devices_2 :: "macros list" where
  "hw_a9_0_devices_2 =
     [dev '''' ''HPS_0_NAND0_AXI_SLAVE0'' ''denali_nand'' ''hps_0_nand0'' 0xff900000 65536 0xff90ffff [],
      dev '''' ''HPS_0_QSPI_AXI_SLAVE1'' ''cadence_qspi'' ''hps_0_qspi'' 0xffa00000 256 0xffa000ff [],
      dev '''' ''HPS_0_USB0'' ''usb'' ''hps_0_usb0'' 0xffb00000 262144 0xffb3ffff [],
      dev '''' ''HPS_0_USB1'' ''usb'' ''hps_0_usb1'' 0xffb40000 262144 0xffb7ffff [],
      dev '''' ''HPS_0_NAND0_AXI_SLAVE1'' ''denali_nand'' ''hps_0_nand0'' 0xffb80000 65536 0xffb8ffff [],
      dev '''' ''HPS_0_FPGAMGR_AXI_SLAVE1'' ''altera_fpgamgr'' ''hps_0_fpgamgr'' 0xffb90000 256 0xffb900ff [],
      dev '''' ''HPS_0_DCAN0'' ''bosch_dcan'' ''hps_0_dcan0'' 0xffc00000 4096 0xffc00fff [],
      dev '''' ''HPS_0_DCAN1'' ''bosch_dcan'' ''hps_0_dcan1'' 0xffc01000 4096 0xffc01fff [],
      dev '''' ''HPS_0_UART0'' ''snps_uart'' ''hps_0_uart0'' 0xffc02000 256 0xffc020ff [(''FIFO_DEPTH'', 128), (''FIFO_HWFC'', 0), (''FIFO_MODE'', 1), (''FIFO_SWFC'', 0), (''FREQ'', 100000000)],
      dev '''' ''HPS_0_UART1'' ''snps_uart'' ''hps_0_uart1'' 0xffc03000 256 0xffc030ff [(''FIFO_DEPTH'', 128), (''FIFO_HWFC'', 0), (''FIFO_MODE'', 1), (''FIFO_SWFC'', 0), (''FREQ'', 100000000)],
      dev '''' ''HPS_0_I2C0'' ''designware_i2c'' ''hps_0_i2c0'' 0xffc04000 256 0xffc040ff []]"

definition hw_a9_0_devices_3 :: "macros list" where
  "hw_a9_0_devices_3 =
     [dev '''' ''HPS_0_I2C1'' ''designware_i2c'' ''hps_0_i2c1'' 0xffc05000 256 0xffc050ff [],
      dev '''' ''HPS_0_I2C2'' ''designware_i2c'' ''hps_0_i2c2'' 0xffc06000 256 0xffc060ff [],
      dev '''' ''HPS_0_I2C3'' ''designware_i2c'' ''hps_0_i2c3'' 0xffc07000 256 0xffc070ff [],
      dev '''' ''HPS_0_TIMER0'' ''dw_apb_timer_sp'' ''hps_0_timer0'' 0xffc08000 256 0xffc080ff [],
      dev '''' ''HPS_0_TIMER1'' ''dw_apb_timer_sp'' ''hps_0_timer1'' 0xffc09000 256 0xffc090ff [],
      dev '''' ''HPS_0_SDRCTL'' ''altera_sdrctl'' ''hps_0_sdrctl'' 0xffc25000 4096 0xffc25fff [],
      dev '''' ''HPS_0_TIMER2'' ''dw_apb_timer_osc'' ''hps_0_timer2'' 0xffd00000 256 0xffd000ff [],
      dev '''' ''HPS_0_TIMER3'' ''dw_apb_timer_osc'' ''hps_0_timer3'' 0xffd01000 256 0xffd010ff [],
      dev '''' ''HPS_0_WD_TIMER0'' ''dw_wd_timer'' ''hps_0_wd_timer0'' 0xffd02000 256 0xffd020ff [],
      dev '''' ''HPS_0_WD_TIMER1'' ''dw_wd_timer'' ''hps_0_wd_timer1'' 0xffd03000 256 0xffd030ff [],
      dev '''' ''HPS_0_CLKMGR'' ''asimov_clkmgr'' ''hps_0_clkmgr'' 0xffd04000 4096 0xffd04fff []]"

definition hw_a9_0_devices_4 :: "macros list" where
  "hw_a9_0_devices_4 =
     [dev '''' ''HPS_0_RSTMGR'' ''altera_rstmgr'' ''hps_0_rstmgr'' 0xffd05000 256 0xffd050ff [],
      dev '''' ''HPS_0_SYSMGR'' ''altera_sysmgr'' ''hps_0_sysmgr'' 0xffd08000 1024 0xffd083ff [],
      dev '''' ''HPS_0_DMA'' ''arm_pl330_dma'' ''hps_0_dma'' 0xffe01000 4096 0xffe01fff [],
      dev '''' ''HPS_0_SPIM0'' ''spi'' ''hps_0_spim0'' 0xfff00000 256 0xfff000ff [],
      dev '''' ''HPS_0_SPIM1'' ''spi'' ''hps_0_spim1'' 0xfff01000 256 0xfff010ff [],
      dev '''' ''HPS_0_SCU'' ''scu'' ''hps_0_scu'' 0xfffec000 256 0xfffec0ff [],
      dev '''' ''HPS_0_ARM_GIC_0_AXI_SLAVE1'' ''arm_gic'' ''hps_0_arm_gic_0'' 0xfffec100 256 0xfffec1ff [],
      dev '''' ''HPS_0_TIMER'' ''arm_internal_timer'' ''hps_0_timer'' 0xfffec600 256 0xfffec6ff [],
      dev '''' ''HPS_0_ARM_GIC_0_AXI_SLAVE0'' ''arm_gic'' ''hps_0_arm_gic_0'' 0xfffed000 4096 0xfffedfff [],
      dev '''' ''HPS_0_L2'' ''arm_pl310_L2'' ''hps_0_L2'' 0xfffef000 4096 0xfffeffff [],
      dev '''' ''HPS_0_AXI_OCRAM'' ''axi_ocram'' ''hps_0_axi_ocram'' 0xffff0000 65536 0xffffffff [(''SIZE_MULTIPLE'', 1), (''SIZE_VALUE'', 65536), (''WRITABLE'', 1), (''MEMORY_INFO_GENERATE_DAT_SYM'', 0), (''MEMORY_INFO_GENERATE_HEX'', 0), (''MEMORY_INFO_MEM_INIT_DATA_WIDTH'', 16)]]"

definition hw_a9_0_devices :: "macros list" where
  "hw_a9_0_devices = hw_a9_0_devices_1 @ hw_a9_0_devices_2 @ hw_a9_0_devices_3 @ hw_a9_0_devices_4"

definition hw_a9_1_devices_1 :: "macros list" where
  "hw_a9_1_devices_1 =
     [dev '''' ''HPS_0_AXI_SDRAM'' ''axi_sdram'' ''hps_0_axi_sdram'' 0x0 2147483648 0x7fffffff [(''SIZE_MULTIPLE'', 1), (''SIZE_VALUE'', 2147483648), (''WRITABLE'', 1), (''MEMORY_INFO_GENERATE_DAT_SYM'', 0), (''MEMORY_INFO_GENERATE_HEX'', 0), (''MEMORY_INFO_MEM_INIT_DATA_WIDTH'', 31)],
      dev '''' ''MEM_INTERFACE_0'' ''mem_interface'' ''mem_interface_0'' 0xff200000 1024 0xff2003ff [],
      dev '''' ''HPS_0_GMAC0'' ''stmmac'' ''hps_0_gmac0'' 0xff700000 8192 0xff701fff [],
      dev '''' ''HPS_0_GMAC1'' ''stmmac'' ''hps_0_gmac1'' 0xff702000 8192 0xff703fff [],
      dev '''' ''HPS_0_SDMMC'' ''sdmmc'' ''hps_0_sdmmc'' 0xff704000 4096 0xff704fff [],
      dev '''' ''HPS_0_QSPI_AXI_SLAVE0'' ''cadence_qspi'' ''hps_0_qspi'' 0xff705000 256 0xff7050ff [],
      dev '''' ''HPS_0_FPGAMGR_AXI_SLAVE0'' ''altera_fpgamgr'' ''hps_0_fpgamgr'' 0xff706000 4096 0xff706fff [],
      dev '''' ''HPS_0_GPIO0'' ''dw_gpio'' ''hps_0_gpio0'' 0xff708000 256 0xff7080ff [],
      dev '''' ''HPS_0_GPIO1'' ''dw_gpio'' ''hps_0_gpio1'' 0xff709000 256 0xff7090ff [],
      dev '''' ''HPS_0_GPIO2'' ''dw_gpio'' ''hps_0_gpio2'' 0xff70a000 256 0xff70a0ff [],
      dev '''' ''HPS_0_L3REGS'' ''altera_l3regs'' ''hps_0_l3regs'' 0xff800000 4096 0xff800fff []]"

definition hw_a9_1_devices_2 :: "macros list" where
  "hw_a9_1_devices_2 =
     [dev '''' ''HPS_0_NAND0_AXI_SLAVE0'' ''denali_nand'' ''hps_0_nand0'' 0xff900000 65536 0xff90ffff [],
      dev '''' ''HPS_0_QSPI_AXI_SLAVE1'' ''cadence_qspi'' ''hps_0_qspi'' 0xffa00000 256 0xffa000ff [],
      dev '''' ''HPS_0_USB0'' ''usb'' ''hps_0_usb0'' 0xffb00000 262144 0xffb3ffff [],
      dev '''' ''HPS_0_USB1'' ''usb'' ''hps_0_usb1'' 0xffb40000 262144 0xffb7ffff [],
      dev '''' ''HPS_0_NAND0_AXI_SLAVE1'' ''denali_nand'' ''hps_0_nand0'' 0xffb80000 65536 0xffb8ffff [],
      dev '''' ''HPS_0_FPGAMGR_AXI_SLAVE1'' ''altera_fpgamgr'' ''hps_0_fpgamgr'' 0xffb90000 256 0xffb900ff [],
      dev '''' ''HPS_0_DCAN0'' ''bosch_dcan'' ''hps_0_dcan0'' 0xffc00000 4096 0xffc00fff [],
      dev '''' ''HPS_0_DCAN1'' ''bosch_dcan'' ''hps_0_dcan1'' 0xffc01000 4096 0xffc01fff [],
      dev '''' ''HPS_0_UART0'' ''snps_uart'' ''hps_0_uart0'' 0xffc02000 256 0xffc020ff [(''FIFO_DEPTH'', 128), (''FIFO_HWFC'', 0), (''FIFO_MODE'', 1), (''FIFO_SWFC'', 0), (''FREQ'', 100000000)],
      dev '''' ''HPS_0_UART1'' ''snps_uart'' ''hps_0_uart1'' 0xffc03000 256 0xffc030ff [(''FIFO_DEPTH'', 128), (''FIFO_HWFC'', 0), (''FIFO_MODE'', 1), (''FIFO_SWFC'', 0), (''FREQ'', 100000000)],
      dev '''' ''HPS_0_I2C0'' ''designware_i2c'' ''hps_0_i2c0'' 0xffc04000 256 0xffc040ff []]"

definition hw_a9_1_devices_3 :: "macros list" where
  "hw_a9_1_devices_3 =
     [dev '''' ''HPS_0_I2C1'' ''designware_i2c'' ''hps_0_i2c1'' 0xffc05000 256 0xffc050ff [],
      dev '''' ''HPS_0_I2C2'' ''designware_i2c'' ''hps_0_i2c2'' 0xffc06000 256 0xffc060ff [],
      dev '''' ''HPS_0_I2C3'' ''designware_i2c'' ''hps_0_i2c3'' 0xffc07000 256 0xffc070ff [],
      dev '''' ''HPS_0_TIMER0'' ''dw_apb_timer_sp'' ''hps_0_timer0'' 0xffc08000 256 0xffc080ff [],
      dev '''' ''HPS_0_TIMER1'' ''dw_apb_timer_sp'' ''hps_0_timer1'' 0xffc09000 256 0xffc090ff [],
      dev '''' ''HPS_0_SDRCTL'' ''altera_sdrctl'' ''hps_0_sdrctl'' 0xffc25000 4096 0xffc25fff [],
      dev '''' ''HPS_0_TIMER2'' ''dw_apb_timer_osc'' ''hps_0_timer2'' 0xffd00000 256 0xffd000ff [],
      dev '''' ''HPS_0_TIMER3'' ''dw_apb_timer_osc'' ''hps_0_timer3'' 0xffd01000 256 0xffd010ff [],
      dev '''' ''HPS_0_WD_TIMER0'' ''dw_wd_timer'' ''hps_0_wd_timer0'' 0xffd02000 256 0xffd020ff [],
      dev '''' ''HPS_0_WD_TIMER1'' ''dw_wd_timer'' ''hps_0_wd_timer1'' 0xffd03000 256 0xffd030ff [],
      dev '''' ''HPS_0_CLKMGR'' ''asimov_clkmgr'' ''hps_0_clkmgr'' 0xffd04000 4096 0xffd04fff []]"

definition hw_a9_1_devices_4 :: "macros list" where
  "hw_a9_1_devices_4 =
     [dev '''' ''HPS_0_RSTMGR'' ''altera_rstmgr'' ''hps_0_rstmgr'' 0xffd05000 256 0xffd050ff [],
      dev '''' ''HPS_0_SYSMGR'' ''altera_sysmgr'' ''hps_0_sysmgr'' 0xffd08000 1024 0xffd083ff [],
      dev '''' ''HPS_0_DMA'' ''arm_pl330_dma'' ''hps_0_dma'' 0xffe01000 4096 0xffe01fff [],
      dev '''' ''HPS_0_SPIM0'' ''spi'' ''hps_0_spim0'' 0xfff00000 256 0xfff000ff [],
      dev '''' ''HPS_0_SPIM1'' ''spi'' ''hps_0_spim1'' 0xfff01000 256 0xfff010ff [],
      dev '''' ''HPS_0_SCU'' ''scu'' ''hps_0_scu'' 0xfffec000 256 0xfffec0ff [],
      dev '''' ''HPS_0_ARM_GIC_0_AXI_SLAVE1'' ''arm_gic'' ''hps_0_arm_gic_0'' 0xfffec100 256 0xfffec1ff [],
      dev '''' ''HPS_0_TIMER'' ''arm_internal_timer'' ''hps_0_timer'' 0xfffec600 256 0xfffec6ff [],
      dev '''' ''HPS_0_ARM_GIC_0_AXI_SLAVE0'' ''arm_gic'' ''hps_0_arm_gic_0'' 0xfffed000 4096 0xfffedfff [],
      dev '''' ''HPS_0_L2'' ''arm_pl310_L2'' ''hps_0_L2'' 0xfffef000 4096 0xfffeffff [],
      dev '''' ''HPS_0_AXI_OCRAM'' ''axi_ocram'' ''hps_0_axi_ocram'' 0xffff0000 65536 0xffffffff [(''SIZE_MULTIPLE'', 1), (''SIZE_VALUE'', 65536), (''WRITABLE'', 1), (''MEMORY_INFO_GENERATE_DAT_SYM'', 0), (''MEMORY_INFO_GENERATE_HEX'', 0), (''MEMORY_INFO_MEM_INIT_DATA_WIDTH'', 16)]]"

definition hw_a9_1_devices :: "macros list" where
  "hw_a9_1_devices = hw_a9_1_devices_1 @ hw_a9_1_devices_2 @ hw_a9_1_devices_3 @ hw_a9_1_devices_4"

section \<open>Agreement\<close>

lemma hw_soc_a9_0_devices_parts:
  "hw_soc_a9_0_devices_1 = soc_a9_0_devices_1"
  "hw_soc_a9_0_devices_2 = soc_a9_0_devices_2"
  "hw_soc_a9_0_devices_3 = soc_a9_0_devices_3"
  "hw_soc_a9_0_devices_4 = soc_a9_0_devices_4"
  unfolding hw_soc_a9_0_devices_1_def hw_soc_a9_0_devices_2_def hw_soc_a9_0_devices_3_def hw_soc_a9_0_devices_4_def
    soc_a9_0_devices_1_def soc_a9_0_devices_2_def soc_a9_0_devices_3_def soc_a9_0_devices_4_def by (rule refl)+

lemma hw_soc_a9_1_devices_parts:
  "hw_soc_a9_1_devices_1 = soc_a9_1_devices_1"
  "hw_soc_a9_1_devices_2 = soc_a9_1_devices_2"
  "hw_soc_a9_1_devices_3 = soc_a9_1_devices_3"
  "hw_soc_a9_1_devices_4 = soc_a9_1_devices_4"
  unfolding hw_soc_a9_1_devices_1_def hw_soc_a9_1_devices_2_def hw_soc_a9_1_devices_3_def hw_soc_a9_1_devices_4_def
    soc_a9_1_devices_1_def soc_a9_1_devices_2_def soc_a9_1_devices_3_def soc_a9_1_devices_4_def by (rule refl)+

lemma hw_a9_0_devices_parts:
  "hw_a9_0_devices_1 = a9_0_devices_1"
  "hw_a9_0_devices_2 = a9_0_devices_2"
  "hw_a9_0_devices_3 = a9_0_devices_3"
  "hw_a9_0_devices_4 = a9_0_devices_4"
  unfolding hw_a9_0_devices_1_def hw_a9_0_devices_2_def hw_a9_0_devices_3_def hw_a9_0_devices_4_def
    a9_0_devices_1_def a9_0_devices_2_def a9_0_devices_3_def a9_0_devices_4_def by (rule refl)+

lemma hw_a9_1_devices_parts:
  "hw_a9_1_devices_1 = a9_1_devices_1"
  "hw_a9_1_devices_2 = a9_1_devices_2"
  "hw_a9_1_devices_3 = a9_1_devices_3"
  "hw_a9_1_devices_4 = a9_1_devices_4"
  unfolding hw_a9_1_devices_1_def hw_a9_1_devices_2_def hw_a9_1_devices_3_def hw_a9_1_devices_4_def
    a9_1_devices_1_def a9_1_devices_2_def a9_1_devices_3_def a9_1_devices_4_def by (rule refl)+

lemma hw_bridges:
  "hw_soc_bridge_devices = soc_bridge_devices"
  "hw_hps_0_devices = hps_0_devices"
  "hw_hps_0_bridges_devices = hps_0_bridges_devices"
  unfolding hw_soc_bridge_devices_def hw_hps_0_devices_def hw_hps_0_bridges_devices_def
    soc_bridge_devices_def hps_0_devices_def hps_0_bridges_devices_def by (rule refl)+

lemma hw_maps:
  "hw_soc_a9_0_devices = soc_a9_0_devices"
  "hw_soc_a9_1_devices = soc_a9_1_devices"
  "hw_a9_0_devices = a9_0_devices"
  "hw_a9_1_devices = a9_1_devices"
  by (simp_all only: hw_soc_a9_0_devices_def hw_soc_a9_1_devices_def hw_a9_0_devices_def hw_a9_1_devices_def
      soc_a9_0_devices_def soc_a9_1_devices_def a9_0_devices_def a9_1_devices_def
      hw_soc_a9_0_devices_parts hw_soc_a9_1_devices_parts hw_a9_0_devices_parts hw_a9_1_devices_parts)

section \<open>Properties\<close>


end
