(* ===== verification/De10_Demo.thy ===== *)
theory De10_Demo
  imports Hw_Design_Map Hw_Interface
begin

text \<open>
  \<open>DE10_HW_Design/Output Files/main.c\<close>: the register accesses of the bring-up program of the DE10,
  with its error exits; \<open>rounds\<close> is how often its endless loop has run. Printing is left out.
\<close>


datatype access =
    Store nat u32
  | Load nat
  | Wait_Us nat
  | Close_Mem

definition DEMO_MAP_SIZE :: nat where
  "DEMO_MAP_SIZE =
     (case find_macros ''HPS_0_ARM_A9_0'' ''MEM_INTERFACE_0'' hw_soc_a9_0_devices of Some d \<Rightarrow> SPAN d | None \<Rightarrow> 0)"

definition DEMO_MAP_BASE :: nat where
  "DEMO_MAP_BASE =
     (case find_macros ''HPS_0_ARM_A9_0'' ''MEM_INTERFACE_0'' hw_soc_a9_0_devices of Some d \<Rightarrow> BASE d | None \<Rightarrow> 0)"

definition reset_fpga_state :: "access list" where
  "reset_fpga_state = [Store 2 1, Wait_Us 10000, Store 2 0, Wait_Us 10000]"

definition combined_pwm :: u32 where
  "combined_pwm =
     (let pitch_pwm = 2048 + 1024 :: u16;
          yaw_pwm = 2048 - 1024 :: u16
      in push_bit 16 (ucast pitch_pwm) OR ucast yaw_pwm)"

definition demo_reading :: "u32 \<Rightarrow> u16 \<times> u16" where
  "demo_reading encoder_vals =
     (ucast (encoder_vals AND 0xFFFF), ucast (drop_bit 16 encoder_vals AND 0xFFFF))"

definition demo_main :: "bool \<Rightarrow> bool \<Rightarrow> nat \<Rightarrow> int option \<times> access list" where
  "demo_main opened mapped rounds =
     (if \<not> opened then (Some (- 1), [])
      else if \<not> mapped then (Some (- 1), [Close_Mem])
      else (None,
            [Store 0 combined_pwm, Load 1]
            @ map (\<lambda>i. Store i combined_pwm) [0..<DEMO_MAP_SIZE div 4]
            @ concat (replicate rounds [Load 1, Store 1 combined_pwm, Wait_Us 100000])))"

definition in_window :: "access \<Rightarrow> bool" where
  "in_window a =
     (case a of
        Store i w \<Rightarrow> decode_address hw_soc_a9_0_devices (DEMO_MAP_BASE + 4 * i) = Some mem_interface_0
      | Load i \<Rightarrow> decode_address hw_soc_a9_0_devices (DEMO_MAP_BASE + 4 * i) = Some mem_interface_0
      | _ \<Rightarrow> True)"

lemma demo_map_values: "DEMO_MAP_SIZE = MAP_SIZE" "DEMO_MAP_BASE = MAP_BASE"
  by (simp_all add: DEMO_MAP_SIZE_def DEMO_MAP_BASE_def MAP_SIZE_def MAP_BASE_def hw_maps)

lemma in_window_simps:
  "in_window (Store i w) \<longleftrightarrow> i < 256" "in_window (Load i) \<longleftrightarrow> i < 256" "in_window (Wait_Us n)" "in_window Close_Mem"
  by (simp_all add: in_window_def hw_maps demo_map_values flip: register_address_def) (simp_all add: decode_register map_values)

lemma demo_in_window: "list_all in_window (snd (demo_main opened mapped rounds))"
  by (induction rounds) (auto simp: demo_main_def in_window_simps list_all_iff demo_map_values map_values)

lemma reset_in_window: "list_all in_window reset_fpga_state"
  by (simp add: reset_fpga_state_def in_window_simps)

lemma combined_pwm_words: "combined_pwm = pack_pwm 3072 1024"
  by (simp add: combined_pwm_def pack_pwm_def)

lemma demo_reading_swaps: "demo_reading w = (snd (unpack_encoders w), fst (unpack_encoders w))"
proof -
  have "\<not> bit w (16 + n)" if "16 \<le> n" for n using that bit_imp_le_length [of w "16 + n"] by auto
  then show ?thesis unfolding demo_reading_def unpack_encoders_def byte_masks
    by (auto intro!: bit_word_eqI simp: bit_simps)
qed

section \<open>Properties\<close>

text \<open>
  Every register access of the bring-up program, including its loop over the whole window and its
  reset routine, stays inside the memory interface of the FPGA, and the word it writes everywhere means
  tilt 3072 and pan 1024 to the driver.
\<close>

lemma demo_accesses:
  "list_all in_window (snd (demo_main opened mapped rounds)) \<and> list_all in_window reset_fpga_state
   \<and> unpack_encoders combined_pwm = (3072, 1024)"
  using demo_in_window reset_in_window by (simp add: combined_pwm_words pack_pwm_unpack)

end
