(* ===== verification/Model_Bounds.thy ===== *)
theory Model_Bounds
  imports Pitch_Model Yaw_Model
begin

text \<open>
  The sizes of the arrays of both generated controllers (\<open>pitch_xxmodel.h\<close>, \<open>yaw_xxmodel.h\<close>) and of the
  input and output vectors their caller passes, and that no function leaves them: in the models an array is
  a function of every index, so staying inside means that nothing beyond the size is changed and that the
  results depend on nothing beyond it (\<open>in_bounds\<close>).
\<close>


record model_size =
  parameters_size :: nat
  initialvalues_size :: nat
  variables_size :: nat
  states_size :: nat
  number_of_inputs :: nat
  number_of_outputs :: nat

definition pitch_size :: model_size where
  "pitch_size = \<lparr>parameters_size = 7, initialvalues_size = 3, variables_size = pitch_xx_variables_size, states_size = 3,
     number_of_inputs = 3, number_of_outputs = 1\<rparr>"

definition yaw_size :: model_size where
  "yaw_size = \<lparr>parameters_size = 7, initialvalues_size = 3, variables_size = yaw_xx_variables_size, states_size = 3,
     number_of_inputs = 2, number_of_outputs = 2\<rparr>"

section \<open>Locality\<close>

definition agree :: "nat \<Rightarrow> (nat \<Rightarrow> rat) \<Rightarrow> (nat \<Rightarrow> rat) \<Rightarrow> bool" where
  "agree k f g \<longleftrightarrow> (\<forall>i < k. f i = g i)"

definition agree_beyond :: "nat \<Rightarrow> (nat \<Rightarrow> rat) \<Rightarrow> (nat \<Rightarrow> rat) \<Rightarrow> bool" where
  "agree_beyond k f g \<longleftrightarrow> (\<forall>i \<ge> k. f i = g i)"

definition inside :: "model_size \<Rightarrow> xx_model \<Rightarrow> xx_model \<Rightarrow> bool" where
  "inside z m n \<longleftrightarrow>
     agree (parameters_size z) (xx_P m) (xx_P n)
     \<and> agree (initialvalues_size z) (xx_I m) (xx_I n)
     \<and> agree (variables_size z) (xx_V m) (xx_V n)
     \<and> agree (states_size z) (xx_s m) (xx_s n)
     \<and> agree (states_size z) (xx_R m) (xx_R n)
     \<and> xx_time m = xx_time n \<and> xx_steps m = xx_steps n
     \<and> xx_initialize m = xx_initialize n \<and> xx_major m = xx_major n"

definition beyond :: "model_size \<Rightarrow> xx_model \<Rightarrow> xx_model \<Rightarrow> bool" where
  "beyond z m n \<longleftrightarrow>
     agree_beyond (parameters_size z) (xx_P m) (xx_P n)
     \<and> agree_beyond (initialvalues_size z) (xx_I m) (xx_I n)
     \<and> agree_beyond (variables_size z) (xx_V m) (xx_V n)
     \<and> agree_beyond (states_size z) (xx_s m) (xx_s n)
     \<and> agree_beyond (states_size z) (xx_R m) (xx_R n)"

definition stays_inside :: "model_size \<Rightarrow> (xx_model \<Rightarrow> xx_model) \<Rightarrow> (xx_model \<Rightarrow> xx_model) \<Rightarrow> bool" where
  "stays_inside z f g \<longleftrightarrow>
     (\<forall>m n. inside z m n \<longrightarrow> inside z (f m) (g n)) \<and> (\<forall>m. beyond z m (f m)) \<and> (\<forall>m. beyond z m (g m))"

definition in_bounds ::
    "model_size \<Rightarrow> ((nat \<Rightarrow> rat) \<Rightarrow> (nat \<Rightarrow> rat) \<Rightarrow> rat \<Rightarrow> xx_model \<Rightarrow> xx_model \<times> (nat \<Rightarrow> rat)) \<Rightarrow> bool" where
  "in_bounds z oper \<longleftrightarrow>
     (\<forall>u v y w t. agree (number_of_inputs z) u v \<longrightarrow>
        stays_inside z (\<lambda>m. fst (oper u y t m)) (\<lambda>n. fst (oper v w t n))
        \<and> (\<forall>m n. inside z m n \<longrightarrow> agree (number_of_outputs z) (snd (oper u y t m)) (snd (oper v w t n)))
        \<and> (\<forall>m. agree_beyond (number_of_outputs z) y (snd (oper u y t m))))"

lemma below_sizes:
  "(\<forall>i < (12::nat). P i) \<longleftrightarrow> P 0 \<and> P 1 \<and> P 2 \<and> P 3 \<and> P 4 \<and> P 5 \<and> P 6 \<and> P 7 \<and> P 8 \<and> P 9 \<and> P 10 \<and> P 11"
  "(\<forall>i < (10::nat). P i) \<longleftrightarrow> P 0 \<and> P 1 \<and> P 2 \<and> P 3 \<and> P 4 \<and> P 5 \<and> P 6 \<and> P 7 \<and> P 8 \<and> P 9"
  "(\<forall>i < (7::nat). P i) \<longleftrightarrow> P 0 \<and> P 1 \<and> P 2 \<and> P 3 \<and> P 4 \<and> P 5 \<and> P 6"
  "(\<forall>i < (3::nat). P i) \<longleftrightarrow> P 0 \<and> P 1 \<and> P 2"
  "(\<forall>i < (2::nat). P i) \<longleftrightarrow> P 0 \<and> P 1"
  "(\<forall>i < (1::nat). P i) \<longleftrightarrow> P 0"
  by (simp_all add: numeral_eq_Suc All_less_Suc2 One_nat_def)

lemmas size_defs =
  inside_def beyond_def agree_def agree_beyond_def pitch_size_def yaw_size_def
  pitch_xx_variables_size_def yaw_xx_variables_size_def

lemma beyond_refl [simp]: "beyond z m m"
  by (simp add: beyond_def agree_beyond_def)

lemma beyond_trans: "beyond z l m \<Longrightarrow> beyond z m n \<Longrightarrow> beyond z l n"
  by (simp add: beyond_def agree_beyond_def)

lemma stays_inside_id: "stays_inside z (\<lambda>m. m) (\<lambda>m. m)"
  by (simp add: stays_inside_def)

lemma stays_inside_comp:
  assumes "stays_inside z f g" "stays_inside z f' g'"
  shows "stays_inside z (\<lambda>m. f' (f m)) (\<lambda>m. g' (g m))"
  using assms beyond_trans unfolding stays_inside_def by blast


lemma stays_insideI:
  "(\<And>m n. inside z m n \<Longrightarrow> inside z (f m) (g n)) \<Longrightarrow> (\<And>m. beyond z m (f m)) \<Longrightarrow> (\<And>m. beyond z m (g m)) \<Longrightarrow>
     stays_inside z f g"
  by (simp add: stays_inside_def)

lemma stays_inside_scalars:
  "stays_inside z (\<lambda>m. m\<lparr>xx_time := t\<rparr>) (\<lambda>m. m\<lparr>xx_time := t\<rparr>)"
  "stays_inside z (\<lambda>m. m\<lparr>xx_initialize := b\<rparr>) (\<lambda>m. m\<lparr>xx_initialize := b\<rparr>)"
  "stays_inside z (\<lambda>m. m\<lparr>xx_steps := k\<rparr>) (\<lambda>m. m\<lparr>xx_steps := k\<rparr>)"
  "stays_inside z (\<lambda>m. m\<lparr>xx_major := b\<rparr>) (\<lambda>m. m\<lparr>xx_major := b\<rparr>)"
  by (simp_all add: stays_inside_def inside_def beyond_def agree_beyond_def)

lemma in_boundsI:
  assumes "\<And>u y t m. oper u y t m = (close (run u t m), out (run u t m) y)"
    and "\<And>u v t. agree (number_of_inputs z) u v \<Longrightarrow> stays_inside z (run u t) (run v t)"
    and "stays_inside z close close"
    and "\<And>m n y w. inside z m n \<Longrightarrow> agree (number_of_outputs z) (out m y) (out n w)"
    and "\<And>m y. agree_beyond (number_of_outputs z) y (out m y)"
  shows "in_bounds z oper"
  unfolding in_bounds_def assms(1) fst_conv snd_conv
proof (intro allI impI conjI)
  fix u v :: "nat \<Rightarrow> rat" and t :: rat
  assume "agree (number_of_inputs z) u v"
  then have run: "stays_inside z (run u t) (run v t)" by (rule assms(2))
  then show "stays_inside z (\<lambda>m. close (run u t m)) (\<lambda>n. close (run v t n))" using assms(3) by (rule stays_inside_comp)
  show "agree (number_of_outputs z) (out (run u t m) y) (out (run v t n) w)" if "inside z m n" for m n y w
    using run that assms(4) by (simp add: stays_inside_def)
qed (rule assms(5))

section \<open>The tilt model\<close>

lemma pitch_dynamic_values:
  fixes m :: xx_model
  defines "m' \<equiv> pitch_CalculateDynamic m"
  shows "xx_V m' 3 = f64 (1 / f64 (xx_step_size + f64 (xx_P m 2 * xx_P m 3)))"
    "xx_V m' 5 = xx_V m 9"
    "xx_V m' 6 = xx_V m 10"
    "xx_V m' 0 = xx_V m 8"
    "xx_V m' 1 = f64 (xx_P m 0 * xx_V m 8)"
    "xx_V m' 4 = f64 (xx_V m' 1 + xx_V m' 2)"
    "xx_V m' 2 = f64 (xx_R m' 2 + xx_R m' 0)"
    "xx_V m' 7 = (if xx_V m' 4 < xx_P m 5 then xx_P m 5 else if xx_V m' 4 > xx_P m 6 then xx_P m 6 else xx_V m' 4)"
    "xx_V m' 8 = xx_V m 8"
    "xx_V m' 9 = xx_V m 9"
    "xx_V m' 10 = xx_V m 10"
    "xx_V m' 11 = xx_V m 11"
    "xx_R m' 1 = f64 (xx_V m 9 - xx_V m 10)"
    "xx_R m' 0 = f64 (xx_V m' 3 * f64 (f64 (f64 (f64 (xx_P m 2 * xx_s m 0) * xx_P m 3)
        + f64 (f64 (xx_P m 2 * xx_P m 1) * f64 (xx_R m' 1 - xx_s m 1)))
      + f64 (f64 (xx_step_size * xx_P m 1) * xx_R m' 1)))"
    "xx_R m' 2 = f64 (xx_s m 2 + f64 (f64 (xx_step_size * xx_R m' 0) / xx_P m 4))"
    "xx_P m' = xx_P m" "xx_I m' = xx_I m" "xx_s m' = xx_s m" "xx_time m' = xx_time m"
    "xx_steps m' = xx_steps m + 1" "xx_initialize m' = xx_initialize m" "xx_major m' = xx_major m"
  by (simp_all add: m'_def pitch_CalculateDynamic_def Let_def)

lemma pitch_dynamic_beyond:
  "beyond pitch_size m (pitch_CalculateDynamic m)"
  by (simp add: pitch_CalculateDynamic_def Let_def size_defs)

lemma pitch_dynamic_inside:
  "inside pitch_size m n \<Longrightarrow> inside pitch_size (pitch_CalculateDynamic m) (pitch_CalculateDynamic n)"
  "inside pitch_size (m\<lparr>xx_R := R\<rparr>) (n\<lparr>xx_R := R\<rparr>) \<Longrightarrow>
     inside pitch_size (pitch_CalculateDynamic m) (pitch_CalculateDynamic n)"
  by (simp_all add: pitch_dynamic_values size_defs below_sizes del: One_nat_def)

lemma pitch_model_initialize:
  "inside pitch_size m n \<Longrightarrow> inside pitch_size (pitch_ModelInitialize m) (pitch_ModelInitialize n)"
  "beyond pitch_size m (pitch_ModelInitialize m)"
  by (simp_all add: pitch_ModelInitialize_def pitch_ModelInitialize_parameters_def pitch_ModelInitialize_variables_def
      pitch_ModelInitialize_initialvalues_def pitch_ModelInitialize_states_def Let_def size_defs below_sizes)

lemma pitch_initial:
  "inside pitch_size m n \<Longrightarrow> inside pitch_size (pitch_CalculateInitial m) (pitch_CalculateInitial n)"
  "beyond pitch_size m (pitch_CalculateInitial m)"
  by (simp_all add: pitch_CalculateInitial_def pitch_ModelInitialize_states_def size_defs below_sizes)

lemma pitch_copy_inputs:
  "inside pitch_size m n \<Longrightarrow> agree 3 u v \<Longrightarrow>
     inside pitch_size (pitch_CopyInputsToVariables u m) (pitch_CopyInputsToVariables v n)"
  "beyond pitch_size m (pitch_CopyInputsToVariables u m)"
  by (simp_all add: pitch_CopyInputsToVariables_def size_defs below_sizes)

lemma pitch_output:
  "inside pitch_size m n \<Longrightarrow> inside pitch_size (pitch_CalculateOutput m) (pitch_CalculateOutput n)"
  "beyond pitch_size m (pitch_CalculateOutput m)"
  by (simp_all add: pitch_CalculateOutput_def size_defs below_sizes)

section \<open>The pan model\<close>

lemma yaw_dynamic_values:
  fixes m :: xx_model
  defines "m' \<equiv> yaw_CalculateDynamic m"
  shows "xx_V m' 2 = f64 (1 / f64 (xx_step_size + f64 (xx_P m 2 * xx_P m 3)))"
    "xx_V m' 3 = xx_V m 7"
    "xx_V m' 5 = xx_V m 8"
    "xx_V m' 0 = f64 (xx_P m 0 * xx_V m 8)"
    "xx_V m' 1 = f64 (xx_R m' 2 + xx_R m' 0)"
    "xx_V m' 4 = (if xx_V m' 1 < xx_P m 5 then xx_P m 5 else if xx_V m' 1 > xx_P m 6 then xx_P m 6 else xx_V m' 1)"
    "xx_V m' 6 = xx_V m 6"
    "xx_V m' 7 = xx_V m 7"
    "xx_V m' 8 = xx_V m 8"
    "xx_V m' 9 = xx_V m 9"
    "xx_R m' 1 = f64 (xx_V m 7 - xx_V m 8)"
    "xx_R m' 0 = f64 (xx_V m' 2 * f64 (f64 (f64 (f64 (xx_P m 2 * xx_s m 0) * xx_P m 3)
        + f64 (f64 (xx_P m 2 * xx_P m 1) * f64 (xx_R m' 1 - xx_s m 1)))
      + f64 (f64 (xx_step_size * xx_P m 1) * xx_R m' 1)))"
    "xx_R m' 2 = f64 (xx_s m 2 + f64 (f64 (xx_step_size * xx_R m' 0) / xx_P m 4))"
    "xx_P m' = xx_P m" "xx_I m' = xx_I m" "xx_s m' = xx_s m" "xx_time m' = xx_time m"
    "xx_steps m' = xx_steps m + 1" "xx_initialize m' = xx_initialize m" "xx_major m' = xx_major m"
  by (simp_all add: m'_def yaw_CalculateDynamic_def Let_def)

lemma yaw_dynamic_beyond:
  "beyond yaw_size m (yaw_CalculateDynamic m)"
  by (simp add: yaw_CalculateDynamic_def Let_def size_defs)

lemma yaw_dynamic_inside:
  "inside yaw_size m n \<Longrightarrow> inside yaw_size (yaw_CalculateDynamic m) (yaw_CalculateDynamic n)"
  "inside yaw_size (m\<lparr>xx_R := R\<rparr>) (n\<lparr>xx_R := R\<rparr>) \<Longrightarrow>
     inside yaw_size (yaw_CalculateDynamic m) (yaw_CalculateDynamic n)"
  by (simp_all add: yaw_dynamic_values size_defs below_sizes del: One_nat_def)

lemma yaw_model_initialize:
  "inside yaw_size m n \<Longrightarrow> inside yaw_size (yaw_ModelInitialize m) (yaw_ModelInitialize n)"
  "beyond yaw_size m (yaw_ModelInitialize m)"
  by (simp_all add: yaw_ModelInitialize_def yaw_ModelInitialize_parameters_def yaw_ModelInitialize_variables_def
      yaw_ModelInitialize_initialvalues_def yaw_ModelInitialize_states_def Let_def size_defs below_sizes)

lemma yaw_initial:
  "inside yaw_size m n \<Longrightarrow> inside yaw_size (yaw_CalculateInitial m) (yaw_CalculateInitial n)"
  "beyond yaw_size m (yaw_CalculateInitial m)"
  by (simp_all add: yaw_CalculateInitial_def yaw_ModelInitialize_states_def size_defs below_sizes)

lemma yaw_copy_inputs:
  "inside yaw_size m n \<Longrightarrow> agree 2 u v \<Longrightarrow>
     inside yaw_size (yaw_CopyInputsToVariables u m) (yaw_CopyInputsToVariables v n)"
  "beyond yaw_size m (yaw_CopyInputsToVariables u m)"
  by (simp_all add: yaw_CopyInputsToVariables_def size_defs below_sizes)

lemma yaw_output:
  "inside yaw_size m n \<Longrightarrow> inside yaw_size (yaw_CalculateOutput m) (yaw_CalculateOutput n)"
  "beyond yaw_size m (yaw_CalculateOutput m)"
  by (simp_all add: yaw_CalculateOutput_def size_defs below_sizes)

lemma pitch_step:
  "inside pitch_size m n \<Longrightarrow> inside pitch_size (pitch_DiscreteStep m) (pitch_DiscreteStep n)"
  "beyond pitch_size m (pitch_DiscreteStep m)"
proof -
  let ?k = "\<lambda>m. m\<lparr>xx_s := (xx_s m)(0 := xx_R m 0, 1 := xx_R m 1, 2 := xx_R m 2),
      xx_time := f64 (xx_time m + xx_step_size), xx_major := True\<rparr>"
  have k: "pitch_DiscreteStep m = pitch_CalculateDynamic (?k m)" for m
    by (simp add: pitch_DiscreteStep_def Let_def upt_3)
  have "beyond pitch_size m (?k m)" by (simp add: size_defs)
  then show "beyond pitch_size m (pitch_DiscreteStep m)" unfolding k using pitch_dynamic_beyond by (rule beyond_trans)
  assume "inside pitch_size m n"
  then have "inside pitch_size (?k m) (?k n)" by (simp add: size_defs below_sizes)
  then show "inside pitch_size (pitch_DiscreteStep m) (pitch_DiscreteStep n)" unfolding k by (rule pitch_dynamic_inside(1))
qed

lemmas pitch_stays =
  stays_insideI [OF pitch_model_initialize(1,2,2)] stays_insideI [OF pitch_initial(1,2,2)]
  stays_insideI [OF pitch_dynamic_inside(1) pitch_dynamic_beyond pitch_dynamic_beyond]
  stays_insideI [OF pitch_output(1,2,2)] stays_insideI [OF pitch_step(1,2,2)] stays_inside_scalars

lemma pitch_stays_inputs:
  "agree 3 u v \<Longrightarrow> stays_inside pitch_size (pitch_CopyInputsToVariables u) (pitch_CopyInputsToVariables v)"
  by (rule stays_insideI) (simp_all add: pitch_copy_inputs)

lemma pitch_outputs:
  "inside pitch_size m n \<Longrightarrow> agree (number_of_outputs pitch_size) (pitch_CopyVariablesToOutputs m y) (pitch_CopyVariablesToOutputs n w)"
  "agree_beyond (number_of_outputs pitch_size) y (pitch_CopyVariablesToOutputs m y)"
  by (simp_all add: pitch_CopyVariablesToOutputs_def size_defs below_sizes)

lemma yaw_step:
  "inside yaw_size m n \<Longrightarrow> inside yaw_size (yaw_DiscreteStep m) (yaw_DiscreteStep n)"
  "beyond yaw_size m (yaw_DiscreteStep m)"
proof -
  let ?k = "\<lambda>m. m\<lparr>xx_s := (xx_s m)(0 := xx_R m 0, 1 := xx_R m 1, 2 := xx_R m 2),
      xx_time := f64 (xx_time m + xx_step_size), xx_major := True\<rparr>"
  have k: "yaw_DiscreteStep m = yaw_CalculateDynamic (?k m)" for m
    by (simp add: yaw_DiscreteStep_def Let_def upt_3)
  have "beyond yaw_size m (?k m)" by (simp add: size_defs)
  then show "beyond yaw_size m (yaw_DiscreteStep m)" unfolding k using yaw_dynamic_beyond by (rule beyond_trans)
  assume "inside yaw_size m n"
  then have "inside yaw_size (?k m) (?k n)" by (simp add: size_defs below_sizes)
  then show "inside yaw_size (yaw_DiscreteStep m) (yaw_DiscreteStep n)" unfolding k by (rule yaw_dynamic_inside(1))
qed

lemmas yaw_stays =
  stays_insideI [OF yaw_model_initialize(1,2,2)] stays_insideI [OF yaw_initial(1,2,2)]
  stays_insideI [OF yaw_dynamic_inside(1) yaw_dynamic_beyond yaw_dynamic_beyond]
  stays_insideI [OF yaw_output(1,2,2)] stays_insideI [OF yaw_step(1,2,2)] stays_inside_scalars

lemma yaw_stays_inputs:
  "agree 2 u v \<Longrightarrow> stays_inside yaw_size (yaw_CopyInputsToVariables u) (yaw_CopyInputsToVariables v)"
  by (rule stays_insideI) (simp_all add: yaw_copy_inputs)

lemma yaw_outputs:
  "inside yaw_size m n \<Longrightarrow> agree (number_of_outputs yaw_size) (yaw_CopyVariablesToOutputs m y) (yaw_CopyVariablesToOutputs n w)"
  "agree_beyond (number_of_outputs yaw_size) y (yaw_CopyVariablesToOutputs m y)"
  by (simp_all add: yaw_CopyVariablesToOutputs_def size_defs below_sizes)

definition pitch_before :: "(nat \<Rightarrow> rat) \<Rightarrow> rat \<Rightarrow> xx_model \<Rightarrow> xx_model" where
  "pitch_before u t m = pitch_CalculateInitial (pitch_CopyInputsToVariables u
     (pitch_DiscreteInitialize (pitch_ModelInitialize (m\<lparr>xx_initialize := True, xx_steps := 0\<rparr>))\<lparr>xx_time := t\<rparr>))"

lemma pitch_initialize_run:
  "pitch_InitializeSubmodel u y t m =
     (pitch_CalculateOutput (pitch_CalculateDynamic (pitch_before u t m))\<lparr>xx_initialize := False\<rparr>,
      pitch_CopyVariablesToOutputs (pitch_CalculateOutput (pitch_CalculateDynamic (pitch_before u t m))) y)"
  by (simp add: pitch_InitializeSubmodel_def pitch_before_def Let_def)

lemma pitch_before_stays: "agree 3 u v \<Longrightarrow> stays_inside pitch_size (pitch_before u t) (pitch_before v t)"
  unfolding pitch_before_def [abs_def] pitch_DiscreteInitialize_def
  by (intro stays_inside_comp [OF _ pitch_stays(2)] stays_inside_comp [OF _ pitch_stays_inputs] stays_inside_comp [OF _ pitch_stays(1)]
      stays_inside_comp [OF _ stays_inside_scalars(1)] stays_inside_comp [OF _ stays_inside_scalars(2)]
      stays_inside_comp [OF _ stays_inside_scalars(3)] stays_inside_comp [OF _ stays_inside_scalars(4)] stays_inside_scalars)

lemma pitch_before_resets:
  "agree 3 u v \<Longrightarrow> inside pitch_size (pitch_before u t m\<lparr>xx_R := R\<rparr>) (pitch_before v t n\<lparr>xx_R := R\<rparr>)"
  by (simp add: pitch_before_def pitch_DiscreteInitialize_def pitch_ModelInitialize_def pitch_ModelInitialize_parameters_def
      pitch_ModelInitialize_variables_def pitch_ModelInitialize_initialvalues_def pitch_ModelInitialize_states_def
      pitch_CopyInputsToVariables_def pitch_CalculateInitial_def Let_def size_defs below_sizes)

lemma pitch_initialize_resets:
  assumes "agree 3 u v"
  shows "inside pitch_size (fst (pitch_InitializeSubmodel u y t m)) (fst (pitch_InitializeSubmodel v w t n))"
  using pitch_output(1) [OF pitch_dynamic_inside(2) [OF pitch_before_resets [OF assms]]]
  by (simp add: pitch_initialize_run inside_def)

lemma pitch_initialize_in_bounds: "in_bounds pitch_size pitch_InitializeSubmodel"
proof (rule in_boundsI [where run = "\<lambda>u t m. pitch_CalculateOutput (pitch_CalculateDynamic (pitch_before u t m))"
    and close = "\<lambda>m. m\<lparr>xx_initialize := False\<rparr>", OF pitch_initialize_run _ stays_inside_scalars(2)])
  fix u v :: "nat \<Rightarrow> rat" and t
  assume "agree (number_of_inputs pitch_size) u v"
  then have "agree 3 u v" by (simp add: pitch_size_def)
  from stays_inside_comp [OF stays_inside_comp [OF pitch_before_stays [OF this] pitch_stays(3)] pitch_stays(4)]
  show "stays_inside pitch_size (\<lambda>m. pitch_CalculateOutput (pitch_CalculateDynamic (pitch_before u t m)))
      (\<lambda>m. pitch_CalculateOutput (pitch_CalculateDynamic (pitch_before v t m)))" .
qed (simp_all add: pitch_outputs)

lemma pitch_calculate_in_bounds: "in_bounds pitch_size pitch_CalculateSubmodel"
proof (rule in_boundsI [where close = "\<lambda>m. m" and out = pitch_CopyVariablesToOutputs
    and run = "\<lambda>u t m. pitch_CalculateOutput (pitch_DiscreteStep (pitch_CopyInputsToVariables u (m\<lparr>xx_time := t\<rparr>)))", OF _ _ stays_inside_id])
  fix u v :: "nat \<Rightarrow> rat" and t
  assume "agree (number_of_inputs pitch_size) u v"
  then have "agree 3 u v" by (simp add: pitch_size_def)
  from stays_inside_comp [OF stays_inside_comp [OF stays_inside_comp [OF stays_inside_scalars(1) pitch_stays_inputs [OF this]] pitch_stays(5)] pitch_stays(4)]
  show "stays_inside pitch_size (\<lambda>m. pitch_CalculateOutput (pitch_DiscreteStep (pitch_CopyInputsToVariables u (m\<lparr>xx_time := t\<rparr>))))
      (\<lambda>m. pitch_CalculateOutput (pitch_DiscreteStep (pitch_CopyInputsToVariables v (m\<lparr>xx_time := t\<rparr>))))" .
qed (simp_all add: pitch_outputs pitch_CalculateSubmodel_def Let_def)

lemma pitch_terminate_in_bounds: "in_bounds pitch_size pitch_TerminateSubmodel"
proof (rule in_boundsI [where close = "\<lambda>m. m" and out = pitch_CopyVariablesToOutputs
    and run = "\<lambda>u t m. pitch_CopyInputsToVariables u (m\<lparr>xx_time := t\<rparr>)", OF _ _ stays_inside_id])
  fix u v :: "nat \<Rightarrow> rat" and t
  assume "agree (number_of_inputs pitch_size) u v"
  then have "agree 3 u v" by (simp add: pitch_size_def)
  from stays_inside_comp [OF stays_inside_scalars(1) pitch_stays_inputs [OF this]]
  show "stays_inside pitch_size (\<lambda>m. pitch_CopyInputsToVariables u (m\<lparr>xx_time := t\<rparr>)) (\<lambda>m. pitch_CopyInputsToVariables v (m\<lparr>xx_time := t\<rparr>))" .
qed (simp_all add: pitch_outputs pitch_TerminateSubmodel_def Let_def)

definition yaw_before :: "(nat \<Rightarrow> rat) \<Rightarrow> rat \<Rightarrow> xx_model \<Rightarrow> xx_model" where
  "yaw_before u t m = yaw_CalculateInitial (yaw_CopyInputsToVariables u
     (yaw_DiscreteInitialize (yaw_ModelInitialize (m\<lparr>xx_initialize := True, xx_steps := 0\<rparr>))\<lparr>xx_time := t\<rparr>))"

lemma yaw_initialize_run:
  "yaw_InitializeSubmodel u y t m =
     (yaw_CalculateOutput (yaw_CalculateDynamic (yaw_before u t m))\<lparr>xx_initialize := False\<rparr>,
      yaw_CopyVariablesToOutputs (yaw_CalculateOutput (yaw_CalculateDynamic (yaw_before u t m))) y)"
  by (simp add: yaw_InitializeSubmodel_def yaw_before_def Let_def)

lemma yaw_before_stays: "agree 2 u v \<Longrightarrow> stays_inside yaw_size (yaw_before u t) (yaw_before v t)"
  unfolding yaw_before_def [abs_def] yaw_DiscreteInitialize_def
  by (intro stays_inside_comp [OF _ yaw_stays(2)] stays_inside_comp [OF _ yaw_stays_inputs] stays_inside_comp [OF _ yaw_stays(1)]
      stays_inside_comp [OF _ stays_inside_scalars(1)] stays_inside_comp [OF _ stays_inside_scalars(2)]
      stays_inside_comp [OF _ stays_inside_scalars(3)] stays_inside_comp [OF _ stays_inside_scalars(4)] stays_inside_scalars)

lemma yaw_before_resets:
  "agree 2 u v \<Longrightarrow> inside yaw_size (yaw_before u t m\<lparr>xx_R := R\<rparr>) (yaw_before v t n\<lparr>xx_R := R\<rparr>)"
  by (simp add: yaw_before_def yaw_DiscreteInitialize_def yaw_ModelInitialize_def yaw_ModelInitialize_parameters_def
      yaw_ModelInitialize_variables_def yaw_ModelInitialize_initialvalues_def yaw_ModelInitialize_states_def
      yaw_CopyInputsToVariables_def yaw_CalculateInitial_def Let_def size_defs below_sizes)

lemma yaw_initialize_resets:
  assumes "agree 2 u v"
  shows "inside yaw_size (fst (yaw_InitializeSubmodel u y t m)) (fst (yaw_InitializeSubmodel v w t n))"
  using yaw_output(1) [OF yaw_dynamic_inside(2) [OF yaw_before_resets [OF assms]]]
  by (simp add: yaw_initialize_run inside_def)

lemma yaw_initialize_in_bounds: "in_bounds yaw_size yaw_InitializeSubmodel"
proof (rule in_boundsI [where run = "\<lambda>u t m. yaw_CalculateOutput (yaw_CalculateDynamic (yaw_before u t m))"
    and close = "\<lambda>m. m\<lparr>xx_initialize := False\<rparr>", OF yaw_initialize_run _ stays_inside_scalars(2)])
  fix u v :: "nat \<Rightarrow> rat" and t
  assume "agree (number_of_inputs yaw_size) u v"
  then have "agree 2 u v" by (simp add: yaw_size_def)
  from stays_inside_comp [OF stays_inside_comp [OF yaw_before_stays [OF this] yaw_stays(3)] yaw_stays(4)]
  show "stays_inside yaw_size (\<lambda>m. yaw_CalculateOutput (yaw_CalculateDynamic (yaw_before u t m)))
      (\<lambda>m. yaw_CalculateOutput (yaw_CalculateDynamic (yaw_before v t m)))" .
qed (simp_all add: yaw_outputs)

lemma yaw_calculate_in_bounds: "in_bounds yaw_size yaw_CalculateSubmodel"
proof (rule in_boundsI [where close = "\<lambda>m. m" and out = yaw_CopyVariablesToOutputs
    and run = "\<lambda>u t m. yaw_CalculateOutput (yaw_DiscreteStep (yaw_CopyInputsToVariables u (m\<lparr>xx_time := t\<rparr>)))", OF _ _ stays_inside_id])
  fix u v :: "nat \<Rightarrow> rat" and t
  assume "agree (number_of_inputs yaw_size) u v"
  then have "agree 2 u v" by (simp add: yaw_size_def)
  from stays_inside_comp [OF stays_inside_comp [OF stays_inside_comp [OF stays_inside_scalars(1) yaw_stays_inputs [OF this]] yaw_stays(5)] yaw_stays(4)]
  show "stays_inside yaw_size (\<lambda>m. yaw_CalculateOutput (yaw_DiscreteStep (yaw_CopyInputsToVariables u (m\<lparr>xx_time := t\<rparr>))))
      (\<lambda>m. yaw_CalculateOutput (yaw_DiscreteStep (yaw_CopyInputsToVariables v (m\<lparr>xx_time := t\<rparr>))))" .
qed (simp_all add: yaw_outputs yaw_CalculateSubmodel_def Let_def)

lemma yaw_terminate_in_bounds: "in_bounds yaw_size yaw_TerminateSubmodel"
proof (rule in_boundsI [where close = "\<lambda>m. m" and out = yaw_CopyVariablesToOutputs
    and run = "\<lambda>u t m. yaw_CopyInputsToVariables u (m\<lparr>xx_time := t\<rparr>)", OF _ _ stays_inside_id])
  fix u v :: "nat \<Rightarrow> rat" and t
  assume "agree (number_of_inputs yaw_size) u v"
  then have "agree 2 u v" by (simp add: yaw_size_def)
  from stays_inside_comp [OF stays_inside_scalars(1) yaw_stays_inputs [OF this]]
  show "stays_inside yaw_size (\<lambda>m. yaw_CopyInputsToVariables u (m\<lparr>xx_time := t\<rparr>)) (\<lambda>m. yaw_CopyInputsToVariables v (m\<lparr>xx_time := t\<rparr>))" .
qed (simp_all add: yaw_outputs yaw_TerminateSubmodel_def Let_def)

section \<open>Properties\<close>

text \<open>
  C14: initialising, calculating and terminating both controllers write only inside their parameter,
  initial value, variable, state and rate arrays and inside the output vector, and what they compute
  depends on nothing outside of them or of the input vector. Initialising leaves nothing of the previous
  state: the model it leaves behind is the same inside the arrays whatever it was before.
\<close>

theorem submodels_in_bounds:
  "in_bounds pitch_size pitch_InitializeSubmodel \<and> in_bounds pitch_size pitch_CalculateSubmodel
   \<and> in_bounds pitch_size pitch_TerminateSubmodel
   \<and> in_bounds yaw_size yaw_InitializeSubmodel \<and> in_bounds yaw_size yaw_CalculateSubmodel
   \<and> in_bounds yaw_size yaw_TerminateSubmodel
   \<and> inside pitch_size (fst (pitch_InitializeSubmodel u y t m)) (fst (pitch_InitializeSubmodel u w t n))
   \<and> inside yaw_size (fst (yaw_InitializeSubmodel u y t m)) (fst (yaw_InitializeSubmodel u w t n))"
proof -
  have r: "agree k u u" for k by (simp add: agree_def)
  show ?thesis
    by (intro conjI pitch_initialize_in_bounds pitch_calculate_in_bounds pitch_terminate_in_bounds
        yaw_initialize_in_bounds yaw_calculate_in_bounds yaw_terminate_in_bounds
        pitch_initialize_resets yaw_initialize_resets r)
qed

end
