(* ===== verification/Sim_Support.thy ===== *)
theory Sim_Support
  imports Prelude
begin

text \<open>
  The conversion between pointers and doubles of \<open>pitch_xxfuncs.c\<close> (37-56; \<open>yaw_xxfuncs.c\<close> is the same
  code): a union of a double and a pointer as its eight bytes. A pointer has four bytes on the DE10 and eight on
  a 64-bit Raspberry Pi; the bytes the local union holds before are an argument. Nothing calls the two functions.
\<close>


type_synonym str2dbl = "u8 list"

definition store_m_char :: "u8 list \<Rightarrow> str2dbl \<Rightarrow> str2dbl" where
  "store_m_char pointer u = pointer @ drop (length pointer) u"

definition load_m_char :: "nat \<Rightarrow> str2dbl \<Rightarrow> u8 list" where
  "load_m_char width u = take width u"

definition XXString2Double :: "str2dbl \<Rightarrow> u8 list \<Rightarrow> u8 list" where
  "XXString2Double myConversion argument = store_m_char argument myConversion"

definition XXDouble2String :: "nat \<Rightarrow> u8 list \<Rightarrow> u8 list" where
  "XXDouble2String width argument = (let myConversion = argument in load_m_char width myConversion)"

section \<open>Round trips\<close>

lemma length_XXString2Double: "length p \<le> length u \<Longrightarrow> length (XXString2Double u p) = length u"
  by (simp add: XXString2Double_def store_m_char_def)

lemma string_through_double: "XXDouble2String (length p) (XXString2Double u p) = p"
  by (simp add: XXString2Double_def XXDouble2String_def store_m_char_def load_m_char_def)

lemma double_through_string:
  assumes "length d = 8" "length u = 8" "width \<le> 8"
  shows "XXString2Double u (XXDouble2String width d) = d \<longleftrightarrow> drop width u = drop width d"
proof -
  have "XXString2Double u (XXDouble2String width d) = take width d @ drop width u"
    using assms by (simp add: XXString2Double_def XXDouble2String_def store_m_char_def load_m_char_def min_absorb1)
  also have "\<dots> = d \<longleftrightarrow> drop width u = drop width d"
    by (metis append_take_drop_id same_append_eq)
  finally show ?thesis .
qed



end
