(* ===== verification/Spec2Isabelle.thy ===== *)
theory Spec2Isabelle
  imports Data_Path Lens App_Fsm Single_Shot Shutdown Camera_Thread Motor_Main Pwm_Dma De10_Demo Model_Bounds Sim_Support
begin

text \<open>
  A camera on a pan and tilt unit follows a green object. The software runs on a Raspberry Pi or on the
  ARM cores of a DE10; the motors and encoders hang on an FPGA.

  The program and its parts (paths under src/esl\_lab\_full\_app).
  The green mask thread (Image\_Processor/src/green\_mask.c) pulls a frame from the camera, marks the green
  pixels, cleans the mask (erosion, dilation, removal of small blobs) and puts it into a queue of five masks
  under a mutex with two condition variables. The centre of mass thread
  (Image\_Processor/src/com\_calculator.c) takes the masks out, computes the centre of mass and puts it into a
  lock-free ring of 256 entries (Image\_Processor/include/spsc\_queue.h). The control thread
  (start\_thread\_func in app/src/main.c) takes it from there, aims, runs two generated PID controllers
  (pitch\_model, yaw\_model), converts their outputs to PWM words and exchanges them with the FPGA for
  encoder counts (app/src/hw\_interface.c). The main thread reads the commands init, home, start and end
  and runs the state machine that brings the device up, homes it, starts and stops the control thread.

  Theories, in the order of their imports:
  Prelude: word types, the ring buffer algebra, the locale \<open>bounded_fifo\<close> of queues and the collections of
  lemmas; Machine\_Floats: float and double arithmetic as exact rounding, the locale \<open>rounding\<close>.
  Spsc\_Queue and Spsc\_Concurrent: the ring of centres of mass, sequential and with one step per memory
  access. Mask\_Queue: the queue of masks and the threads around it. Hsv, Frame, Morphology, Blob\_Filter,
  Green\_Frame: the image pipeline of one frame and the loop of its thread. Com\_Calculator: the sums and the
  division. Sim\_Model, Pitch\_Model, Yaw\_Model: the generated controllers and the abstract PID
  (locale \<open>limited_pid\<close>); Model\_Bounds: their arrays; Sim\_Support: a conversion the generator adds. Hw\_Interface: both links to the FPGA (locale \<open>encoder_link\<close>), homing, angles.
  Control\_Loop: the control thread's state and one iteration. App\_Fsm: the main thread, the control thread's
  outer loop, their interleaving (locale \<open>motor_device\<close>). Tracking: the way of a frame
  from the camera to the set points. Data\_Path: the three threads and both queues together. Lens: the camera
  geometry behind the gains of the aiming. Single\_Shot: the control loop of the timing test. Startup: the beginning of main, the image processor, the cores and
  priorities of the threads, the camera pipeline and the debug socket with their failures. Shutdown: stopping the image processor beside its threads. Udp\_Server: the debug video and its viewer behind a network that loses, repeats and reorders packets; Camera\_Thread: the green mask thread from its start to the pictures of the viewer. Profiling: the timing
  channels. Encoder\_Reader, Motor\_Test and Motor\_Main,
  Pwm\_Dma: the programs of encoder\_pwm\_on\_cpu. Address\_Map:
  the generated address maps in de10\_conf/include; Hw\_Design\_Map: the copies beside the hardware design.
  De10\_Demo: the bring-up program of DE10\_HW\_Design.

  State and operations. Each thread's local variables and the globals it uses are a record
  (\<open>SPSCQueue\<close>, \<open>mask_queue\<close>, \<open>mask_buffers\<close>, \<open>xx_model\<close>, \<open>rig\<close>, \<open>ctrl\<close>, \<open>app\<close>, \<open>data_path\<close>, \<open>motor\<close>); an operation has the
  name of the C function (PITCH\_XX becomes \<open>pitch_\<close>, YAW\_XX becomes \<open>yaw_\<close>), code inside a thread function
  has a name of its own. Integers have their width where they can wrap (\<open>u8\<close>, \<open>u16\<close>, \<open>u32\<close>; size\_t is 32
  bits wide on the DE10, the platform config.mk selects); loop counters, pixel coordinates and labels, which
  stay far below any limit, are naturals. Images are functions of row and column; the image operations take
  height and width as arguments, the build uses 480 and 640. Errors are values: None, an error code or a
  list of the calls that were made. The answers of the FPGA, the camera, the operating system and the
  scheduler are arguments or choices of a step relation.

  What the lemmas show. Queues: FIFO order, bounds, mutual exclusion, no lost wake-up, no deadlock,
  and the order of the data through both of them. Image
  pipeline: a pixel-wise specification of the whole pipeline through connected components, and termination of
  the flood fill. Numbers: ranges and accuracies with every rounding. Controllers: refinement of the abstract
  PID, and that no array is left. Hardware: round trips of the wire formats, the exact sequence of homing, error codes. Program: the
  order of the commands, the limits of every duty that ever reaches a motor on both platforms, what can
  happen after the end, and that stopping the image processor never returns. The properties are numbered in the order of importance.

  Bounds and fuel. No definition carries fuel. The flood fill is a \<open>while_option\<close> with a proof that it ends.
  The endless loops of the threads are step relations or runs over a list of inputs of arbitrary length.

  What the model idealises. Floating point has no infinities and no NaNs and rounds every operation to
  nearest, as the source is written (in Lens the library's trigonometric functions are the real ones); the makefile compiles with -Ofast, which permits the compiler to reorder
  and contract operations. Acquire and release are interleavings of atomic accesses. \<open>pitch_inputs[0]\<close>, which
  the code never sets, is an arbitrary number. A transfer to the FPGA is one step.

  Not modelled. What the calls into pthreads, GStreamer, the sockets and the terminal do beyond their results;
  the effect of the priorities and the waiting times on the schedule; what is printed, except for the numbers of
  the encoder reader; the files of the 20-sim generator that contain no code; the Verilog design; the Python
  scripts that evaluate measurements.
\<close>

section \<open>Properties that span components\<close>



text \<open>
  C13: both generated controllers are limited: started with the set point at the position, every output of
  the tilt and of the pan controller lies within [-0.99, 0.99] (as doubles) for any sequence of set points and
  positions, both stay exactly 0 as long as the set points equal the positions, and neither drives away
  from a target that does not come nearer: while the error is not negative and does not decrease, no
  output is negative, and the same with the signs reversed.
\<close>

theorem controllers_limited:
  fixes u y u' y' :: "nat \<Rightarrow> rat"
  assumes "u 1 = u 2" "u' 0 = u' 1"
  shows "let ps = calc_outputs (pitch_calc corr) (\<lambda>m. xx_V m 11) us (fst (pitch_InitializeSubmodel u y t m));
             ys = calc_outputs yaw_calc (\<lambda>m. xx_V m 9) us (fst (yaw_InitializeSubmodel u' y' t' m'))
         in (\<forall>v \<in> set ps \<union> set ys. \<bar>v\<bar> \<le> f64 (99 / 100))
            \<and> ((\<forall>(r, p) \<in> set us. r = p) \<longrightarrow> set ps \<union> set ys \<subseteq> {0})
            \<and> (sorted (0 # errors us) \<longrightarrow> (\<forall>v \<in> set ps \<union> set ys. 0 \<le> v))
            \<and> (sorted (0 # map uminus (errors us)) \<longrightarrow> (\<forall>v \<in> set ps \<union> set ys. v \<le> 0))"
  using pitch_outputs_limited [of u corr us y t m, OF assms(1)] yaw_outputs_limited [of u' us y' t' m', OF assms(2)]
  unfolding Let_def ball_Un Un_subset_iff by argo

theorem controllers_limited_witness:
  "set (calc_outputs (pitch_calc 7) (\<lambda>m. xx_V m 11) [(1, 1), (2, 2)]
     (fst (pitch_InitializeSubmodel (\<lambda>i. 1 / 2) (\<lambda>i. 0) 0 static_model))) \<subseteq> {0}
   \<and> set (calc_outputs yaw_calc (\<lambda>m. xx_V m 9) [(1, 0), (2, 1)]
         (fst (yaw_InitializeSubmodel (\<lambda>i. 1 / 2) (\<lambda>i. 0) 0 static_model))) \<subseteq> {v. 0 \<le> v}"
proof -
  have rest: "\<forall>(r, p) \<in> set [(1 :: rat, 1 :: rat), (2, 2)]. r = p" by simp
  have away: "sorted (0 # errors [(1, 0), (2, 1)])" by (simp add: errors_def)
  note c = controllers_limited [of "\<lambda>i. 1 / 2" "\<lambda>i. 1 / 2", OF refl refl, unfolded Let_def, where corr = 7 and y = "\<lambda>i. 0" and t = 0
      and m = static_model and y' = "\<lambda>i. 0" and t' = 0 and m' = static_model]
  show ?thesis using mp [OF c [THEN conjunct2, THEN conjunct1] rest]
      mp [OF c [THEN conjunct2, THEN conjunct2, THEN conjunct1] away] by blast
qed

end
